theory Spec2Isabelle
  imports Complex_Main "HOL-Library.Word"
begin

section \<open>A CUDA rasterization pipeline (rasterize.cu)\<close>

text \<open>
  A shallow embedding of the kernels of \<^verbatim>\<open>src/rasterize.cu\<close>: the vertex stage, the
  rasterizer with its per-pixel spin lock, the fragment shader with its texture
  samplers, the supersampling resolve and the group loop of the scene upload.

  Numbers. The program computes in IEEE binary32. A finite \<^verbatim>\<open>float\<close> is a
  \<^typ>\<open>real\<close>. Where a kernel converts a \<^verbatim>\<open>float\<close> to an integer (the resolve stage
  and the depth key of the rasterizer) the embedding rounds every operation that
  leads to the conversion as binary32 and binary64 do, with \<open>fl32\<close> and \<open>fl64\<close> below.
  Elsewhere a result is a colour, a position or a direction, and the embedding
  takes each arithmetic operation as the exact one. A division by a value that is
  zero has no real value (IEEE gives an infinity or a NaN there); every function
  that can divide by zero says so by returning \<^term>\<open>None\<close>.
\<close>

subsection \<open>glm vectors and matrices\<close>

datatype vec2 = Vec2 (x2: real) (y2: real)
datatype vec3 = Vec3 (x3: real) (y3: real) (z3: real)
datatype vec4 = Vec4 (x4: real) (y4: real) (z4: real) (w4: real)

text \<open>A glm matrix is a tuple of columns; \<open>M * v\<close> is the combination of the columns.\<close>

datatype mat3 = Mat3 (m3c0: vec3) (m3c1: vec3) (m3c2: vec3)
datatype mat4 = Mat4 (m4c0: vec4) (m4c1: vec4) (m4c2: vec4) (m4c3: vec4)

definition add2 :: "vec2 \<Rightarrow> vec2 \<Rightarrow> vec2" where
  "add2 a b = Vec2 (x2 a + x2 b) (y2 a + y2 b)"

definition scale2 :: "vec2 \<Rightarrow> real \<Rightarrow> vec2" where
  "scale2 a s = Vec2 (x2 a * s) (y2 a * s)"

definition add3 :: "vec3 \<Rightarrow> vec3 \<Rightarrow> vec3" where
  "add3 a b = Vec3 (x3 a + x3 b) (y3 a + y3 b) (z3 a + z3 b)"

definition sub3 :: "vec3 \<Rightarrow> vec3 \<Rightarrow> vec3" where
  "sub3 a b = Vec3 (x3 a - x3 b) (y3 a - y3 b) (z3 a - z3 b)"

definition scale3 :: "vec3 \<Rightarrow> real \<Rightarrow> vec3" where
  "scale3 a s = Vec3 (x3 a * s) (y3 a * s) (z3 a * s)"

definition div2 :: "vec2 \<Rightarrow> real \<Rightarrow> vec2" where
  "div2 a s = Vec2 (x2 a / s) (y2 a / s)"

definition div3 :: "vec3 \<Rightarrow> real \<Rightarrow> vec3" where
  "div3 a s = Vec3 (x3 a / s) (y3 a / s) (z3 a / s)"

definition dot3 :: "vec3 \<Rightarrow> vec3 \<Rightarrow> real" where
  "dot3 a b = x3 a * x3 b + y3 a * y3 b + z3 a * z3 b"

definition length3 :: "vec3 \<Rightarrow> real" where
  "length3 a = sqrt (dot3 a a)"

definition zero3 :: vec3 where
  "zero3 = Vec3 0 0 0"

definition add4 :: "vec4 \<Rightarrow> vec4 \<Rightarrow> vec4" where
  "add4 a b = Vec4 (x4 a + x4 b) (y4 a + y4 b) (z4 a + z4 b) (w4 a + w4 b)"

definition scale4 :: "vec4 \<Rightarrow> real \<Rightarrow> vec4" where
  "scale4 a s = Vec4 (x4 a * s) (y4 a * s) (z4 a * s) (w4 a * s)"

definition mat4_mul :: "mat4 \<Rightarrow> vec4 \<Rightarrow> vec4" where
  "mat4_mul M v =
     add4 (add4 (add4 (scale4 (m4c0 M) (x4 v)) (scale4 (m4c1 M) (y4 v)))
                (scale4 (m4c2 M) (z4 v)))
          (scale4 (m4c3 M) (w4 v))"

definition mat3_mul :: "mat3 \<Rightarrow> vec3 \<Rightarrow> vec3" where
  "mat3_mul M v =
     add3 (add3 (scale3 (m3c0 M) (x3 v)) (scale3 (m3c1 M) (y3 v))) (scale3 (m3c2 M) (z3 v))"

text \<open>
  \<^verbatim>\<open>glm::normalize(v) = v * inversesqrt(dot(v, v))\<close>. On the zero vector the factor is
  infinite and every component is \<open>0 * inf\<close>, not a number: \<^term>\<open>None\<close>.
\<close>

definition normalize :: "vec3 \<Rightarrow> vec3 option" where
  "normalize v = (if dot3 v v = 0 then None else Some (scale3 v (1 / sqrt (dot3 v v))))"

text \<open>\<^verbatim>\<open>glm::clamp(x, lo, hi) = min(max(x, lo), hi)\<close> and \<^verbatim>\<open>glm::mix(a, b, t) = a*(1-t) + b*t\<close>.\<close>

definition clampf :: "real \<Rightarrow> real \<Rightarrow> real \<Rightarrow> real" where
  "clampf v lo hi = min (max v lo) hi"

definition clampi :: "int \<Rightarrow> int \<Rightarrow> int \<Rightarrow> int" where
  "clampi v lo hi = min (max v lo) hi"

definition mix3 :: "vec3 \<Rightarrow> vec3 \<Rightarrow> real \<Rightarrow> vec3" where
  "mix3 a b t = add3 (scale3 a (1 - t)) (scale3 b t)"

text \<open>
  The conversion of a \<^verbatim>\<open>float\<close> to an integer type (\<^verbatim>\<open>int u = uv.x\<close>,
  \<^verbatim>\<open>pbo[index].x = color.x\<close>) discards the fraction: it truncates toward zero.
\<close>

definition f2i :: "real \<Rightarrow> int" where
  "f2i r = (if 0 \<le> r then \<lfloor>r\<rfloor> else \<lceil>r\<rceil>)"

type_synonym uchar = "8 word"

definition INT_MAX :: int where
  "INT_MAX = 2147483647"

text \<open>
  A conversion to \<^verbatim>\<open>int\<close> whose truncated value does not fit is undefined in C++; a
  CUDA device clamps it to the end of the range, and so does \<open>f2int\<close>. The properties
  of the depth buffer below are stated for inputs on which every converted value
  fits.
\<close>

definition INT_MIN :: int where
  "INT_MIN = - 2147483648"

definition f2int :: "real \<Rightarrow> int" where
  "f2int r = max INT_MIN (min INT_MAX (f2i r))"

subsection \<open>Rounding to binary32 and binary64\<close>

text \<open>
  Round to nearest, ties to even: \<open>rne\<close> rounds a real to an integer, and
  \<open>roundFloat p emin\<close> rounds a real to the format with \<open>p\<close> significant bits and the
  least exponent \<open>emin\<close>: to a multiple of the unit in the last place at the exponent
  of the number, the subnormal unit below \<open>2 ^ emin\<close>. binary32 has 24 bits and the
  least exponent -126, binary64 has 53 bits and -1022. A magnitude of \<open>2 ^ 128\<close> or
  more, which binary32 rounds to an infinity, does not occur where \<open>fl32\<close> is used
  on a value that is converted afterwards within range.
\<close>

definition rne :: "real \<Rightarrow> int" where
  "rne y =
     (let f = \<lfloor>y\<rfloor>; d = y - of_int f
      in if d < 1/2 then f else if 1/2 < d then f + 1 else if even f then f else f + 1)"

definition roundFloat :: "nat \<Rightarrow> int \<Rightarrow> real \<Rightarrow> real" where
  "roundFloat p emin x =
     (if x = 0 then 0
      else (let e = max \<lfloor>log 2 \<bar>x\<bar>\<rfloor> emin;
                ulp = 2 powr of_int (e - int p + 1)
            in of_int (rne (x / ulp)) * ulp))"

definition fl32 :: "real \<Rightarrow> real" where
  "fl32 = roundFloat 24 (- 126)"

definition fl64 :: "real \<Rightarrow> real" where
  "fl64 = roundFloat 53 (- 1022)"

subsection \<open>Resolve: sendImageToPBO\<close>

datatype uchar4 = Uchar4 (ux: uchar) (uy: uchar) (uz: uchar) (uw: uchar)

text \<open>
  One thread \<open>(x, y)\<close> of the kernel with \<^verbatim>\<open>SSAA\<close> on; \<open>S\<close> is \<^verbatim>\<open>SSAA_FACTOR\<close>. The
  accumulator \<^verbatim>\<open>glm::vec3 color\<close> is default-constructed and then only added to; the
  embedding takes glm's zero initialisation. The thread returns the index it writes
  and the pixel, or \<^term>\<open>None\<close> when its guard fails. Thread coordinates and sizes are
  never negative.

  \<^verbatim>\<open>color.x += glm::clamp(image[sampleIdx].x, 0.0f, 1.0f) * 255.0\<close>: the literal is a
  \<^verbatim>\<open>double\<close>, so the product and the sum are computed in binary64 and the sum is
  rounded to binary32 when it is stored in the accumulator.
\<close>

definition addScaled :: "real \<Rightarrow> real \<Rightarrow> real" where
  "addScaled color c = fl32 (fl64 (color + fl64 (clampf c 0 1 * 255)))"

definition ssaaSample :: "nat \<Rightarrow> nat \<Rightarrow> vec3 list \<Rightarrow> nat \<Rightarrow> nat \<Rightarrow> nat \<Rightarrow> nat \<Rightarrow> vec3" where
  "ssaaSample S w img x y offX offY =
     (let xCoord = offX + x * S;
          yCoord = (offY + y * S) * w;
          sampleIdx = xCoord + yCoord
      in img ! sampleIdx)"

definition ssaaAccumulate :: "nat \<Rightarrow> nat \<Rightarrow> vec3 list \<Rightarrow> nat \<Rightarrow> nat \<Rightarrow> vec3" where
  "ssaaAccumulate S w img x y =
     fold (\<lambda>offX color.
             fold (\<lambda>offY color.
                     (let sample = ssaaSample S w img x y offX offY
                      in Vec3 (addScaled (x3 color) (x3 sample))
                              (addScaled (y3 color) (y3 sample))
                              (addScaled (z3 color) (z3 sample))))
                  [0..<S] color)
          [0..<S] zero3"

text \<open>
  \<^verbatim>\<open>color /= SSAA_FACTOR * SSAA_FACTOR\<close> divides each component by the \<^verbatim>\<open>int\<close> converted
  to \<^verbatim>\<open>float\<close>, in binary32; \<^verbatim>\<open>pbo[index].x = color.x\<close> converts to \<^verbatim>\<open>unsigned char\<close>.
\<close>

definition divScalar :: "real \<Rightarrow> nat \<Rightarrow> real" where
  "divScalar c n = fl32 (c / fl32 (real n))"

definition sendImageToPBO :: "nat \<Rightarrow> nat \<Rightarrow> nat \<Rightarrow> vec3 list \<Rightarrow> nat \<Rightarrow> nat \<Rightarrow> (nat \<times> uchar4) option" where
  "sendImageToPBO S w h img x y =
     (let orgWidth = w div S;
          orgHeight = h div S;
          index = x + y * orgWidth
      in if x < orgWidth \<and> y < orgHeight then
           (let color = ssaaAccumulate S w img x y;
                color = Vec3 (divScalar (x3 color) (S * S)) (divScalar (y3 color) (S * S))
                             (divScalar (z3 color) (S * S))
            in Some (index, Uchar4 (word_of_int (f2i (x3 color))) (word_of_int (f2i (y3 color)))
                                   (word_of_int (f2i (z3 color))) 0))
         else None)"

definition SSAA_FACTOR :: nat where
  "SSAA_FACTOR = 2"

subsection \<open>Texture sampling\<close>

text \<open>
  What a kernel cannot compute in the idealised arithmetic: a read outside the array
  it indexes (undefined behaviour of the program), or a value that is not a finite
  number.
\<close>

datatype fault = OutOfBounds | NotFinite

definition bindF :: "fault + 'a \<Rightarrow> ('a \<Rightarrow> fault + 'b) \<Rightarrow> fault + 'b" where
  "bindF m k = (case m of Inl e \<Rightarrow> Inl e | Inr a \<Rightarrow> k a)"

definition finite_or_fault :: "'a option \<Rightarrow> fault + 'a" where
  "finite_or_fault m = (case m of None \<Rightarrow> Inl NotFinite | Some a \<Rightarrow> Inr a)"

text \<open>A read of a device array at an index.\<close>

definition readAt :: "'a list \<Rightarrow> nat \<Rightarrow> fault + 'a" where
  "readAt xs i = (if i < length xs then Inr (xs ! i) else Inl OutOfBounds)"

text \<open>
  A texture is the array of its bytes, three per texel, row after row. The sampler
  reads the bytes at \<open>uvStart\<close>, \<open>uvStart + 1\<close> and \<open>uvStart + 2\<close>.
\<close>

definition texel_reads :: "int \<Rightarrow> int list" where
  "texel_reads uvStart = [uvStart + 0, uvStart + 1, uvStart + 2]"

definition in_texture :: "uchar list \<Rightarrow> int \<Rightarrow> bool" where
  "in_texture tex i = (0 \<le> i \<and> i < int (length tex))"

definition sampleFromTexture :: "uchar list \<Rightarrow> int \<Rightarrow> fault + vec3" where
  "sampleFromTexture dev_diffuseTex uvStart =
     (if list_all (in_texture dev_diffuseTex) (texel_reads uvStart) then
        Inr (div3 (Vec3 (real (unat (dev_diffuseTex ! nat (uvStart + 0))))
                        (real (unat (dev_diffuseTex ! nat (uvStart + 1))))
                        (real (unat (dev_diffuseTex ! nat (uvStart + 2))))) 255)
      else Inl OutOfBounds)"

text \<open>The four start indices the bilinear sampler computes, in the order it reads them.\<close>

definition bilinear_ids :: "vec2 \<Rightarrow> int \<Rightarrow> int \<Rightarrow> int list" where
  "bilinear_ids uv width height =
     (let u = f2i (x2 uv);
          v = f2i (y2 uv);
          u1 = clampi (u + 1) 0 (width - 1);
          v1 = clampi (v + 1) 0 (height - 1);
          id00 = (u + v * width) * 3;
          id01 = (u + v1 * width) * 3;
          id10 = (u1 + v * width) * 3;
          id11 = (u1 + v1 * width) * 3
      in [id00, id01, id10, id11])"

definition sampleFromTextureBilinear :: "uchar list \<Rightarrow> vec2 \<Rightarrow> int \<Rightarrow> int \<Rightarrow> fault + vec3" where
  "sampleFromTextureBilinear dev_diffuseTex uv width height =
     (let u = f2i (x2 uv);
          v = f2i (y2 uv);
          ids = bilinear_ids uv width height
      in bindF (sampleFromTexture dev_diffuseTex (ids ! 0)) (\<lambda>c00.
         bindF (sampleFromTexture dev_diffuseTex (ids ! 1)) (\<lambda>c01.
         bindF (sampleFromTexture dev_diffuseTex (ids ! 2)) (\<lambda>c10.
         bindF (sampleFromTexture dev_diffuseTex (ids ! 3)) (\<lambda>c11.
           (let lerp1 = mix3 c00 c01 (x2 uv - real_of_int u);
                lerp2 = mix3 c10 c11 (x2 uv - real_of_int u)
            in Inr (mix3 lerp1 lerp2 (y2 uv - real_of_int v))))))))"

subsection \<open>Fragments and the fragment shader\<close>

text \<open>
  \<^verbatim>\<open>struct Fragment\<close>, its fields prefixed with \<open>f_\<close>. A field the rasterizer computes
  with a division is \<^term>\<open>None\<close> when that value is not finite. A texture pointer is
  the texture it points to, \<^term>\<open>None\<close> for \<^verbatim>\<open>NULL\<close>.
\<close>

record Fragment =
  f_color :: "vec3 option"
  f_eyePos :: "vec3 option"
  f_eyeNor :: "vec3 option"
  f_dev_diffuseTex :: "uchar list option"
  f_uvStart :: "int option"
  f_bilinearUV :: "vec2 option"
  f_texWidth :: int
  f_texHeight :: int

text \<open>The fragment \<^verbatim>\<open>cudaMemset(dev_fragmentBuffer, 0, ...)\<close> leaves in every pixel.\<close>

definition clearedFragment :: Fragment where
  "clearedFragment =
     \<lparr>f_color = Some zero3, f_eyePos = Some zero3, f_eyeNor = Some zero3,
      f_dev_diffuseTex = None, f_uvStart = Some 0, f_bilinearUV = Some (Vec2 0 0),
      f_texWidth = 0, f_texHeight = 0\<rparr>"

text \<open>
  The body of \<^verbatim>\<open>render\<close> for one fragment, with \<^verbatim>\<open>TEXTURE\<close> and
  \<^verbatim>\<open>TEXTURE_BILINEAR\<close> on and both debug views off: the colour it stores.
\<close>

definition lightPos :: vec3 where
  "lightPos = Vec3 (1/2) (1/5) (7/10)"

definition baseColor :: "Fragment \<Rightarrow> fault + vec3" where
  "baseColor f =
     (case f_dev_diffuseTex f of
        Some tex \<Rightarrow>
          bindF (finite_or_fault (f_bilinearUV f)) (\<lambda>uv.
            sampleFromTextureBilinear tex uv (f_texWidth f) (f_texHeight f))
      | None \<Rightarrow> Inr zero3)"

definition shade :: "Fragment \<Rightarrow> fault + vec3" where
  "shade f =
     bindF (baseColor f) (\<lambda>color.
     bindF (finite_or_fault (f_eyePos f)) (\<lambda>eyePos.
     bindF (finite_or_fault (normalize (sub3 lightPos eyePos))) (\<lambda>lightDir.
     bindF (finite_or_fault (f_eyeNor f)) (\<lambda>eyeNor.
       (let lambert = dot3 lightDir eyeNor;
            lambert = lambert + 1/10
        in Inr (scale3 color lambert))))))"

text \<open>Thread \<open>(x, y)\<close> of \<^verbatim>\<open>render\<close>: the index and the value it stores in the framebuffer.\<close>

definition render :: "nat \<Rightarrow> nat \<Rightarrow> Fragment list \<Rightarrow> nat \<Rightarrow> nat \<Rightarrow> (nat \<times> (fault + vec3)) option" where
  "render w h fragmentBuffer x y =
     (let index = x + y * w
      in if x < w \<and> y < h then Some (index, bindF (readAt fragmentBuffer index) shade)
         else None)"

subsection \<open>Vertex stage\<close>

text \<open>
  \<^verbatim>\<open>struct VertexOut\<close> (fields prefixed \<open>vo_\<close>), \<^verbatim>\<open>struct Primitive\<close> (fields prefixed
  \<open>p_\<close>; \<open>p_v\<close> holds the three vertices) and \<^verbatim>\<open>struct PrimitiveDevBufPointers\<close>, without
  the scratch array \<^verbatim>\<open>dev_verticesOut\<close> that the vertex kernel fills. A device array is
  the list of its elements, a \<^verbatim>\<open>NULL\<close> array is \<^term>\<open>None\<close>. The tinygltf mode macros
  are the constructors of \<open>GltfMode\<close>.
\<close>

datatype PrimitiveType = Point | Line | Triangle

fun primitiveTypeValue :: "PrimitiveType \<Rightarrow> nat" where
  "primitiveTypeValue Point = 1"
| "primitiveTypeValue Line = 2"
| "primitiveTypeValue Triangle = 3"

record VertexOut =
  vo_pos :: vec4
  vo_eyePos :: vec3
  vo_eyeNor :: vec3
  vo_col :: vec3
  vo_texcoord0 :: vec2
  vo_dev_diffuseTex :: "uchar list option"
  vo_texWidth :: int
  vo_texHeight :: int

record Primitive =
  p_primitiveType :: PrimitiveType
  p_v :: "VertexOut list"

datatype GltfMode =
  MODE_POINTS | MODE_LINE | MODE_LINE_LOOP | MODE_TRIANGLES | MODE_TRIANGLE_STRIP
| MODE_TRIANGLE_FAN | MODE_OTHER

record PrimitiveDevBufPointers =
  primitiveMode :: GltfMode
  primitiveType :: PrimitiveType
  numPrimitives :: int
  numIndices :: int
  numVertices :: int
  dev_indices :: "nat list"
  dev_position :: "vec3 list"
  dev_normal :: "vec3 list option"
  dev_texcoord0 :: "vec2 list option"
  dev_diffuseTex :: "uchar list option"
  diffuseTexWidth :: int
  diffuseTexHeight :: int

text \<open>\<^verbatim>\<open>vPos /= vPos.w\<close> divides the four components, \<open>w\<close> included, by \<open>vPos.w\<close>.\<close>

definition divideByW :: "vec4 \<Rightarrow> vec4 option" where
  "divideByW vPos =
     (if w4 vPos = 0 then None
      else Some (Vec4 (x4 vPos / w4 vPos) (y4 vPos / w4 vPos) (z4 vPos / w4 vPos)
                      (w4 vPos / w4 vPos)))"

text \<open>\<^verbatim>\<open>col = vec3(0); col[mod] += 0.5\<close> with \<open>mod = vid % 3\<close>.\<close>

definition debugTint :: "nat \<Rightarrow> vec3" where
  "debugTint vid =
     (let md = vid mod 3
      in if md = 0 then Vec3 (1/2) 0 0 else if md = 1 then Vec3 0 (1/2) 0 else Vec3 0 0 (1/2))"

text \<open>
  Thread \<open>vid\<close> of \<^verbatim>\<open>_vertexTransformAndAssembly\<close>. Past its guard \<open>vid < numVertices\<close> it
  stores the fields of \<^verbatim>\<open>dev_verticesOut[vid]\<close> one after the other: the eye-space
  position and the window position first, then the normal, the texture coordinate,
  the texture and the colour. The record \<open>VertexStores\<close> holds what it has stored, in
  that order; a stored value that is not a finite number is \<^term>\<open>None\<close>, and so the
  position is there whatever becomes of the normal. The thread is \<^term>\<open>None\<close> when its
  guard fails, and a fault when it reads outside an array.
\<close>

record VertexStores =
  st_eyePos :: vec3
  st_pos :: "vec4 option"
  st_eyeNor :: "vec3 option"
  st_texcoord0 :: vec2
  st_dev_diffuseTex :: "uchar list option"
  st_texHeight :: int
  st_texWidth :: int
  st_col :: vec3

definition windowPosition :: "int \<Rightarrow> int \<Rightarrow> vec4 \<Rightarrow> vec4" where
  "windowPosition width height vPos =
     (let vPos = Vec4 (1/2 * real_of_int width * (x4 vPos + 1)) (y4 vPos) (z4 vPos) (w4 vPos);
          vPos = Vec4 (x4 vPos) (1/2 * real_of_int height * (1 - y4 vPos)) (z4 vPos) (w4 vPos);
          vPos = Vec4 (x4 vPos) (y4 vPos) (- z4 vPos) (w4 vPos)
      in vPos)"

definition vertexTransformAndAssembly ::
  "int \<Rightarrow> PrimitiveDevBufPointers \<Rightarrow> mat4 \<Rightarrow> mat4 \<Rightarrow> mat3 \<Rightarrow> int \<Rightarrow> int \<Rightarrow> nat
    \<Rightarrow> (fault + VertexStores) option" where
  "vertexTransformAndAssembly numVerts primitive MVP MV MV_normal width height vid =
     (if int vid < numVerts then
        Some (bindF (readAt (dev_position primitive) vid) (\<lambda>position.
          (let vPos = Vec4 (x3 position) (y3 position) (z3 position) 1;
               vEyePos = mat4_mul MV vPos;
               eyePos = Vec3 (x4 vEyePos) (y4 vEyePos) (z4 vEyePos);
               vPos = mat4_mul MVP vPos;
               pos = map_option (windowPosition width height) (divideByW vPos)
           in bindF (case dev_normal primitive of
                       None \<Rightarrow> Inr (Vec3 1 1 1)
                     | Some normal \<Rightarrow> readAt normal vid) (\<lambda>vNor.
              (let eyeNor = normalize (mat3_mul MV_normal vNor)
               in bindF (case dev_texcoord0 primitive of
                           None \<Rightarrow> Inr (Vec2 0 0)
                         | Some texcoord \<Rightarrow> readAt texcoord vid) (\<lambda>texcoord.
                    Inr \<lparr>st_eyePos = eyePos,
                         st_pos = pos,
                         st_eyeNor = eyeNor,
                         st_texcoord0 = texcoord,
                         st_dev_diffuseTex = dev_diffuseTex primitive,
                         st_texHeight = diffuseTexHeight primitive,
                         st_texWidth = diffuseTexWidth primitive,
                         st_col = debugTint vid\<rparr>))))))
      else None)"

text \<open>
  The rasterizer below works on the vertices every stored field of which is
  finite: the \<^verbatim>\<open>VertexOut\<close> that primitive assembly copies into a \<^verbatim>\<open>Primitive\<close>.
\<close>

definition finiteVertexOut :: "VertexStores \<Rightarrow> VertexOut option" where
  "finiteVertexOut v =
     (case (st_pos v, st_eyeNor v) of
        (Some pos, Some eyeNor) \<Rightarrow>
          Some \<lparr>vo_pos = pos, vo_eyePos = st_eyePos v, vo_eyeNor = eyeNor, vo_col = st_col v,
                vo_texcoord0 = st_texcoord0 v, vo_dev_diffuseTex = st_dev_diffuseTex v,
                vo_texWidth = st_texWidth v, vo_texHeight = st_texHeight v\<rparr>
      | _ \<Rightarrow> None)"

text \<open>The clip-space position of a vertex, \<open>MVP * (position, 1)\<close>, as the specification names it.\<close>

definition clipPosition :: "mat4 \<Rightarrow> vec3 \<Rightarrow> vec4" where
  "clipPosition MVP position = mat4_mul MVP (Vec4 (x3 position) (y3 position) (z3 position) 1)"

subsection \<open>Rasterizer: the work of one primitive\<close>

text \<open>
  The kernel \<^verbatim>\<open>_computeFragments\<close> calls four helpers of \<^verbatim>\<open>rasterizeTools.h\<close>, which is
  not among the sources. They are modelled from the specification's section on the
  rasterizer; everything else in this part follows the kernel.
\<close>

text \<open>Modelled from the spec: \<^verbatim>\<open>struct AABB\<close> of the absent \<^verbatim>\<open>rasterizeTools.h\<close>.\<close>

record AABB =
  aabb_min :: vec3
  aabb_max :: vec3

text \<open>
  Modelled from the spec: \<^verbatim>\<open>getAABBForTriangle\<close> of the absent \<^verbatim>\<open>rasterizeTools.h\<close>, "an
  axis-aligned bounding box in pixel coordinates, clipped to \<open>[0,W) \<times> [0,H)\<close>".
\<close>

definition getAABBForTriangle :: "vec3 list \<Rightarrow> real \<Rightarrow> real \<Rightarrow> AABB" where
  "getAABBForTriangle tri width height =
     \<lparr>aabb_min = Vec3 (max 0 (min (min (x3 (tri ! 0)) (x3 (tri ! 1))) (x3 (tri ! 2))))
                      (max 0 (min (min (y3 (tri ! 0)) (y3 (tri ! 1))) (y3 (tri ! 2))))
                      (min (min (z3 (tri ! 0)) (z3 (tri ! 1))) (z3 (tri ! 2))),
      aabb_max = Vec3 (min (width - 1) (max (max (x3 (tri ! 0)) (x3 (tri ! 1))) (x3 (tri ! 2))))
                      (min (height - 1) (max (max (y3 (tri ! 0)) (y3 (tri ! 1))) (y3 (tri ! 2))))
                      (max (max (z3 (tri ! 0)) (z3 (tri ! 1))) (z3 (tri ! 2)))\<rparr>"

text \<open>
  Modelled from the spec: \<^verbatim>\<open>calculateSignedArea\<close> and \<^verbatim>\<open>calculateBarycentricCoordinate\<close>
  of the absent \<^verbatim>\<open>rasterizeTools.h\<close>, "the standard signed-area formulation" at the
  pixel \<open>(col, row)\<close>; a triangle of zero area has no finite coordinates.
\<close>

definition calculateSignedArea :: "vec2 \<Rightarrow> vec2 \<Rightarrow> vec2 \<Rightarrow> real" where
  "calculateSignedArea a b c =
     1/2 * ((x2 c - x2 a) * (y2 b - y2 a) - (x2 b - x2 a) * (y2 c - y2 a))"

definition calculateBarycentricCoordinate :: "vec3 list \<Rightarrow> vec2 \<Rightarrow> vec3 option" where
  "calculateBarycentricCoordinate tri point =
     (let a = Vec2 (x3 (tri ! 0)) (y3 (tri ! 0));
          b = Vec2 (x3 (tri ! 1)) (y3 (tri ! 1));
          c = Vec2 (x3 (tri ! 2)) (y3 (tri ! 2));
          area = calculateSignedArea a b c
      in if area = 0 then None
         else (let beta = calculateSignedArea a point c / area;
                   gamma = calculateSignedArea a b point / area;
                   alpha = 1 - beta - gamma
               in Some (Vec3 alpha beta gamma)))"

text \<open>
  Modelled from the spec: \<^verbatim>\<open>isBarycentricCoordInBounds\<close> of the absent
  \<^verbatim>\<open>rasterizeTools.h\<close>, "if any \<open>\<lambda>k < 0\<close> or \<open>> 1\<close>, skip".
\<close>

definition isBarycentricCoordInBounds :: "vec3 \<Rightarrow> bool" where
  "isBarycentricCoordInBounds barycentricCoord =
     (0 \<le> x3 barycentricCoord \<and> x3 barycentricCoord \<le> 1 \<and>
      0 \<le> y3 barycentricCoord \<and> y3 barycentricCoord \<le> 1 \<and>
      0 \<le> z3 barycentricCoord \<and> z3 barycentricCoord \<le> 1)"

text \<open>
  Modelled from the spec: \<^verbatim>\<open>getZAtCoordinate\<close> of the absent \<^verbatim>\<open>rasterizeTools.h\<close>,
  "\<open>z = \<lambda>0 * t0.z + \<lambda>1 * t1.z + \<lambda>2 * t2.z\<close>".
\<close>

definition getZAtCoordinate :: "vec3 \<Rightarrow> vec3 list \<Rightarrow> real" where
  "getZAtCoordinate barycentricCoord tri =
     x3 barycentricCoord * z3 (tri ! 0) + y3 barycentricCoord * z3 (tri ! 1)
       + z3 barycentricCoord * z3 (tri ! 2)"

text \<open>
  From here on the definitions follow \<^verbatim>\<open>_computeFragments\<close>. First the fragment the
  critical section builds from the primitive \<open>p\<close> and the barycentric coordinates,
  with \<^verbatim>\<open>CORRECT_INTERP\<close>, \<^verbatim>\<open>TEXTURE\<close> and \<^verbatim>\<open>TEXTURE_BILINEAR\<close> on.
\<close>

definition newBaryDepth :: "Primitive \<Rightarrow> vec3 \<Rightarrow> real option" where
  "newBaryDepth p baryCoords =
     (let z0 = z4 (vo_pos (p_v p ! 0));
          z1 = z4 (vo_pos (p_v p ! 1));
          z2 = z4 (vo_pos (p_v p ! 2))
      in if z0 = 0 \<or> z1 = 0 \<or> z2 = 0 then None
         else (let d = 1 / z0 * x3 baryCoords + 1 / z1 * y3 baryCoords + 1 / z2 * z3 baryCoords
               in if d = 0 then None else Some (1 / d)))"

definition computeFragment :: "Primitive \<Rightarrow> vec3 \<Rightarrow> Fragment" where
  "computeFragment p baryCoords =
     (let v0 = p_v p ! 0; v1 = p_v p ! 1; v2 = p_v p ! 2;
          eyeNor = normalize (add3 (add3 (scale3 (vo_eyeNor v0) (x3 baryCoords))
                                         (scale3 (vo_eyeNor v1) (y3 baryCoords)))
                                   (scale3 (vo_eyeNor v2) (z3 baryCoords)));
          eyePos = normalize (add3 (add3 (scale3 (vo_eyePos v0) (x3 baryCoords))
                                         (scale3 (vo_eyePos v1) (y3 baryCoords)))
                                   (scale3 (vo_eyePos v2) (z3 baryCoords)));
          color = Option.bind (newBaryDepth p baryCoords) (\<lambda>nbd.
                    normalize (scale3
                      (add3 (add3 (div3 (scale3 (vo_col v0) (x3 baryCoords)) (z4 (vo_pos v0)))
                                  (div3 (scale3 (vo_col v1) (y3 baryCoords)) (z4 (vo_pos v1))))
                            (div3 (scale3 (vo_col v2) (z3 baryCoords)) (z4 (vo_pos v2)))) nbd));
          uv = map_option (\<lambda>nbd.
                 scale2
                   (add2 (add2 (div2 (scale2 (vo_texcoord0 v0) (x3 baryCoords)) (z4 (vo_pos v0)))
                               (div2 (scale2 (vo_texcoord0 v1) (y3 baryCoords)) (z4 (vo_pos v1))))
                         (div2 (scale2 (vo_texcoord0 v2) (z3 baryCoords)) (z4 (vo_pos v2)))) nbd)
                 (newBaryDepth p baryCoords);
          uv = map_option (\<lambda>uv. Vec2 (x2 uv * real_of_int (vo_texWidth v0)) (y2 uv)) uv;
          uv = map_option (\<lambda>uv. Vec2 (x2 uv) (y2 uv * real_of_int (vo_texHeight v0))) uv
      in \<lparr>f_color = color,
          f_eyePos = eyePos,
          f_eyeNor = eyeNor,
          f_dev_diffuseTex = vo_dev_diffuseTex v0,
          f_uvStart = map_option (\<lambda>uv. (f2i (x2 uv) + f2i (y2 uv) * vo_texWidth v0) * 3) uv,
          f_bilinearUV = uv,
          f_texWidth = vo_texWidth v0,
          f_texHeight = vo_texHeight v0\<rparr>)"

text \<open>
  \<^verbatim>\<open>int newDepth = INT_MAX * baryDepth\<close>: the \<^verbatim>\<open>int\<close> is converted to \<^verbatim>\<open>float\<close>, which
  rounds it, the product is a binary32 product, and the result is converted back to
  \<^verbatim>\<open>int\<close>.
\<close>

definition depthKey :: "real \<Rightarrow> int" where
  "depthKey baryDepth = f2int (fl32 (fl32 (real_of_int INT_MAX) * baryDepth))"

text \<open>
  What one pass of the loop body over pixel \<open>(col, row)\<close> hands to the critical
  section: the pixel index, the barycentric coordinates, the interpolated depth, its
  integer key and the fragment, in fields prefixed \<open>rq_\<close>. A pixel whose coordinates
  are out of bounds hands over nothing.
\<close>

record Request =
  rq_pixelIdx :: int
  rq_baryCoords :: vec3
  rq_baryDepth :: real
  rq_newDepth :: int
  rq_fragment :: Fragment

definition pixelRequest :: "Primitive \<Rightarrow> vec3 list \<Rightarrow> int \<Rightarrow> int \<Rightarrow> int \<Rightarrow> Request option" where
  "pixelRequest p tri width col row =
     (case calculateBarycentricCoordinate tri (Vec2 (real_of_int col) (real_of_int row)) of
        None \<Rightarrow> None
      | Some baryCoords \<Rightarrow>
          if isBarycentricCoordInBounds baryCoords then
            (let pixelIdx = col + (row * width);
                 baryDepth = getZAtCoordinate baryCoords tri;
                 newDepth = depthKey baryDepth
             in Some \<lparr>rq_pixelIdx = pixelIdx, rq_baryCoords = baryCoords,
                      rq_baryDepth = baryDepth, rq_newDepth = newDepth,
                      rq_fragment = computeFragment p baryCoords\<rparr>)
          else None)"

definition triangleOf :: "Primitive \<Rightarrow> vec3 list" where
  "triangleOf p =
     map (\<lambda>k. Vec3 (x4 (vo_pos (p_v p ! k))) (y4 (vo_pos (p_v p ! k))) (z4 (vo_pos (p_v p ! k))))
       [0, 1, 2]"

definition fragmentRequests :: "Primitive \<Rightarrow> int \<Rightarrow> int \<Rightarrow> Request list" where
  "fragmentRequests p height width =
     (let tri = triangleOf p;
          boundingBox = getAABBForTriangle tri (real_of_int width) (real_of_int height)
      in concat (map (\<lambda>row.
           List.map_filter (\<lambda>col. pixelRequest p tri width col row)
             [f2i (x3 (aabb_min boundingBox)) .. \<lfloor>x3 (aabb_max boundingBox)\<rfloor>])
           [f2i (y3 (aabb_min boundingBox)) .. \<lfloor>y3 (aabb_max boundingBox)\<rfloor>]))"

subsection \<open>Rasterizer: threads, the spin lock and the buffers\<close>

text \<open>
  The kernel runs one thread per primitive, all at once. A thread works through its
  requests; for each it runs
  \<^verbatim>\<open>do { isSet = (atomicCAS(&mutex[i], 0, 1) == 0); if (isSet) {...} if (isSet) mutex[i] = 0; } while (!isSet);\<close>
  The embedding is an interleaving semantics: a thread is at one of four places of
  that loop, a step is one shared-memory action of one thread, and an execution is a
  schedule, the list of the thread ids in the order they step. The buffers are
  stores from index to value; the buffer proper is the range \<open>[0, width * height)\<close>.
\<close>

datatype Location = AtCAS | AtDepthTest | AtWrite | AtRelease

record Thread =
  requests :: "Request list"
  cur :: nat
  loc :: Location

record Device =
  dev_mutex :: "int \<Rightarrow> int"
  dev_depth :: "int \<Rightarrow> int"
  dev_fragmentBuffer :: "int \<Rightarrow> Fragment"
  threads :: "Thread list"

definition atomicCAS :: "(int \<Rightarrow> int) \<Rightarrow> int \<Rightarrow> int \<Rightarrow> int \<Rightarrow> (int \<Rightarrow> int) \<times> int" where
  "atomicCAS mem address compare val =
     (let old = mem address
      in (if old = compare then mem(address := val) else mem, old))"

definition step :: "nat \<Rightarrow> Device \<Rightarrow> Device" where
  "step tid s =
     (if tid < length (threads s) then
        (let t = threads s ! tid
         in if cur t < length (requests t) then
              (let r = requests t ! cur t; i = rq_pixelIdx r
               in case loc t of
                    AtCAS \<Rightarrow>
                      (let (mutex, old) = atomicCAS (dev_mutex s) i 0 1;
                           isSet = (old = 0)
                       in s\<lparr>dev_mutex := mutex,
                            threads := (threads s)
                              [tid := t\<lparr>loc := (if isSet then AtDepthTest else AtCAS)\<rparr>]\<rparr>)
                  | AtDepthTest \<Rightarrow>
                      s\<lparr>threads := (threads s)
                          [tid := t\<lparr>loc := (if rq_newDepth r < dev_depth s i then AtWrite
                                              else AtRelease)\<rparr>]\<rparr>
                  | AtWrite \<Rightarrow>
                      s\<lparr>dev_depth := (dev_depth s)(i := rq_newDepth r),
                        dev_fragmentBuffer := (dev_fragmentBuffer s)(i := rq_fragment r),
                        threads := (threads s)[tid := t\<lparr>loc := AtRelease\<rparr>]\<rparr>
                  | AtRelease \<Rightarrow>
                      s\<lparr>dev_mutex := (dev_mutex s)(i := 0),
                        threads := (threads s)[tid := t\<lparr>cur := cur t + 1, loc := AtCAS\<rparr>]\<rparr>)
            else s)
      else s)"

definition exec :: "nat list \<Rightarrow> Device \<Rightarrow> Device" where
  "exec schedule s = fold step schedule s"

definition finished :: "Thread \<Rightarrow> bool" where
  "finished t = (length (requests t) \<le> cur t)"

definition allFinished :: "Device \<Rightarrow> bool" where
  "allFinished s = list_all finished (threads s)"

text \<open>
  The launch of \<^verbatim>\<open>_computeFragments\<close> over the buffers as they stand: thread \<open>pid\<close>, for
  \<open>pid < numPrimitives\<close>, takes \<^verbatim>\<open>dev_primitives[pid]\<close>; the threads of the grid beyond
  return at once and are left out.
\<close>

definition computeFragments ::
  "nat \<Rightarrow> Primitive list \<Rightarrow> int \<Rightarrow> int \<Rightarrow> (int \<Rightarrow> Fragment) \<Rightarrow> (int \<Rightarrow> int) \<Rightarrow> (int \<Rightarrow> int) \<Rightarrow> Device" where
  "computeFragments numPrims dev_primitives height width fragmentBuffer depth mutex =
     \<lparr>dev_mutex = mutex, dev_depth = depth, dev_fragmentBuffer = fragmentBuffer,
      threads = map (\<lambda>pid. \<lparr>requests = fragmentRequests (dev_primitives ! pid) height width,
                             cur = 0, loc = AtCAS\<rparr>) [0..<numPrims]\<rparr>"

text \<open>
  \<^verbatim>\<open>rasterizeInit\<close> clears the mutex buffer with \<^verbatim>\<open>cudaMemset\<close>; each frame \<^verbatim>\<open>rasterize\<close>
  clears the fragment buffer and launches \<^verbatim>\<open>initDepth\<close>, whose thread \<open>(x, y)\<close> stores
  \<^verbatim>\<open>INT_MAX\<close> at \<open>x + y * w\<close>.
\<close>

definition clearedMutex :: "int \<Rightarrow> int" where
  "clearedMutex = (\<lambda>i. 0)"

definition initDepth :: "nat \<Rightarrow> nat \<Rightarrow> nat \<Rightarrow> nat \<Rightarrow> (int \<Rightarrow> int) \<Rightarrow> (int \<Rightarrow> int)" where
  "initDepth w h x y depth =
     (if x < w \<and> y < h then
        (let index = int x + (int y * int w) in depth(index := INT_MAX))
      else depth)"

definition initDepthGrid :: "nat \<Rightarrow> nat \<Rightarrow> (int \<Rightarrow> int) \<Rightarrow> (int \<Rightarrow> int)" where
  "initDepthGrid w h depth =
     fold (\<lambda>y depth. fold (\<lambda>x depth. initDepth w h x y depth) [0..<w] depth) [0..<h] depth"

subsection \<open>The specification's formulas\<close>

text \<open>
  Definitions that follow the words of the specification, for comparison with the
  program. The resolve stage: the sum over the \<open>S \<times> S\<close> block of one component,
  clamped to \<open>[0,1]\<close> and scaled by 255.
\<close>

definition blockSum :: "(vec3 \<Rightarrow> real) \<Rightarrow> nat \<Rightarrow> nat \<Rightarrow> vec3 list \<Rightarrow> nat \<Rightarrow> nat \<Rightarrow> real" where
  "blockSum c S w img x y =
     (\<Sum>i<S. \<Sum>j<S. clampf (c (img ! ((i + x * S) + (j + y * S) * w))) 0 1 * 255)"

text \<open>
  Bilinear filtering as specified: the texels at \<open>(\<lfloor>u\<rfloor>, \<lfloor>v\<rfloor>)\<close>, \<open>(\<lfloor>u\<rfloor>+1, \<lfloor>v\<rfloor>)\<close>,
  \<open>(\<lfloor>u\<rfloor>, \<lfloor>v\<rfloor>+1)\<close>, \<open>(\<lfloor>u\<rfloor>+1, \<lfloor>v\<rfloor>+1)\<close>, every coordinate clamped to the texture,
  blended by the fraction of \<open>u\<close> along the horizontal axis and by the fraction of \<open>v\<close>
  along the vertical one.
\<close>

definition specTexel :: "uchar list \<Rightarrow> int \<Rightarrow> int \<Rightarrow> int \<Rightarrow> int \<Rightarrow> fault + vec3" where
  "specTexel tex width height tx ty =
     sampleFromTexture tex ((clampi tx 0 (width - 1) + clampi ty 0 (height - 1) * width) * 3)"

definition specBilinear :: "uchar list \<Rightarrow> vec2 \<Rightarrow> int \<Rightarrow> int \<Rightarrow> fault + vec3" where
  "specBilinear tex uv width height =
     (let u = \<lfloor>x2 uv\<rfloor>; v = \<lfloor>y2 uv\<rfloor>
      in bindF (specTexel tex width height u v) (\<lambda>t00.
         bindF (specTexel tex width height (u + 1) v) (\<lambda>t10.
         bindF (specTexel tex width height u (v + 1)) (\<lambda>t01.
         bindF (specTexel tex width height (u + 1) (v + 1)) (\<lambda>t11.
           Inr (mix3 (mix3 t00 t10 (x2 uv - real_of_int u))
                     (mix3 t01 t11 (x2 uv - real_of_int u))
                     (y2 uv - real_of_int v)))))))"

text \<open>
  A block of four subpixels whose second sample, in the order of the loops, is the
  binary32 number just below \<open>129 / 255\<close>.
\<close>

definition roundingImage :: "vec3 list" where
  "roundingImage =
     [Vec3 1 1 1, Vec3 0 0 0,
      Vec3 (8487297 / 16777216) (8487297 / 16777216) (8487297 / 16777216), Vec3 0 0 0]"

text \<open>The 2 by 2 texture of the specification's scenario: red, green; blue, white.\<close>

definition rgbwTexture :: "uchar list" where
  "rgbwTexture = [255, 0, 0,  0, 255, 0,  0, 0, 255,  255, 255, 255]"

text \<open>When thread \<open>vid\<close> of the vertex kernel reads inside the arrays of its group.\<close>

definition vertexReadsInBounds :: "PrimitiveDevBufPointers \<Rightarrow> nat \<Rightarrow> bool" where
  "vertexReadsInBounds primitive vid =
     (vid < length (dev_position primitive) \<and>
      (case dev_normal primitive of None \<Rightarrow> True | Some normal \<Rightarrow> vid < length normal) \<and>
      (case dev_texcoord0 primitive of None \<Rightarrow> True | Some texcoord \<Rightarrow> vid < length texcoord))"

text \<open>
  A vertex array of one vertex at \<open>(1, 1, -1)\<close> and a projection whose \<open>w\<close> row is
  \<open>(0, 0, 0, 2)\<close>; and the same vertex with the normal \<open>(0, 0, 0)\<close>, which has no
  direction.
\<close>

definition oneVertexGroup :: PrimitiveDevBufPointers where
  "oneVertexGroup =
     \<lparr>primitiveMode = MODE_TRIANGLES, primitiveType = Triangle, numPrimitives = 0,
      numIndices = 0, numVertices = 1, dev_indices = [], dev_position = [Vec3 1 1 (-1)],
      dev_normal = Some [Vec3 0 0 1], dev_texcoord0 = None, dev_diffuseTex = None,
      diffuseTexWidth = 0, diffuseTexHeight = 0\<rparr>"

definition zeroNormalGroup :: PrimitiveDevBufPointers where
  "zeroNormalGroup = oneVertexGroup\<lparr>dev_normal := Some [Vec3 0 0 0]\<rparr>"

definition identity4 :: mat4 where
  "identity4 = Mat4 (Vec4 1 0 0 0) (Vec4 0 1 0 0) (Vec4 0 0 1 0) (Vec4 0 0 0 1)"

definition identity3 :: mat3 where
  "identity3 = Mat3 (Vec3 1 0 0) (Vec3 0 1 0) (Vec3 0 0 1)"

definition doubleW :: mat4 where
  "doubleW = Mat4 (Vec4 1 0 0 0) (Vec4 0 1 0 0) (Vec4 0 0 1 0) (Vec4 0 0 0 2)"

text \<open>
  A textured triangle on the 2 by 2 texture whose first vertex carries the texture
  coordinate \<open>(1, 1)\<close>, the far corner of the texture.
\<close>

definition texturedVertex :: "vec4 \<Rightarrow> vec2 \<Rightarrow> VertexOut" where
  "texturedVertex position texcoord =
     \<lparr>vo_pos = position, vo_eyePos = Vec3 0 0 (-1), vo_eyeNor = Vec3 0 0 1,
      vo_col = Vec3 (1/2) 0 0, vo_texcoord0 = texcoord,
      vo_dev_diffuseTex = Some rgbwTexture, vo_texWidth = 2, vo_texHeight = 2\<rparr>"

definition texturedTriangle :: Primitive where
  "texturedTriangle =
     \<lparr>p_primitiveType = Triangle,
      p_v = [texturedVertex (Vec4 0 0 (1/2) 1) (Vec2 1 1),
             texturedVertex (Vec4 4 0 (1/2) 1) (Vec2 0 1),
             texturedVertex (Vec4 0 4 (1/2) 1) (Vec2 1 0)]\<rparr>"

text \<open>
  The lit colour as specified: the Lambert term clamped at zero before the ambient
  term is added.
\<close>

definition specShade :: "Fragment \<Rightarrow> fault + vec3" where
  "specShade f =
     bindF (baseColor f) (\<lambda>color.
     bindF (finite_or_fault (f_eyePos f)) (\<lambda>eyePos.
     bindF (finite_or_fault (normalize (sub3 lightPos eyePos))) (\<lambda>lightDir.
     bindF (finite_or_fault (f_eyeNor f)) (\<lambda>eyeNor.
       Inr (scale3 color (max 0 (dot3 lightDir eyeNor) + 1/10))))))"

text \<open>
  A fragment of a white 1 by 1 texture one unit in front of the eye whose normal
  points away from the eye and from the light.
\<close>

definition awayFragment :: Fragment where
  "awayFragment =
     \<lparr>f_color = Some (Vec3 1 0 0), f_eyePos = Some (Vec3 0 0 (-1)),
      f_eyeNor = Some (Vec3 0 0 (-1)), f_dev_diffuseTex = Some [255, 255, 255],
      f_uvStart = Some 0, f_bilinearUV = Some (Vec2 0 0), f_texWidth = 1, f_texHeight = 1\<rparr>"

text \<open>
  Attribute interpolation as specified: the affine form \<open>\<Sum> \<lambda>k * Ak\<close> and the
  perspective-correct form \<open>W * (\<lambda>0 * A0 / w0 + \<lambda>1 * A1 / w1 + \<lambda>2 * A2 / w2)\<close> with
  \<open>W = 1 / (\<lambda>0 / w0 + \<lambda>1 / w1 + \<lambda>2 / w2)\<close>, for weights \<open>w0\<close>, \<open>w1\<close>, \<open>w2\<close>.
\<close>

definition affine3 :: "vec3 \<Rightarrow> vec3 \<Rightarrow> vec3 \<Rightarrow> vec3 \<Rightarrow> vec3" where
  "affine3 l a0 a1 a2 = add3 (add3 (scale3 a0 (x3 l)) (scale3 a1 (y3 l))) (scale3 a2 (z3 l))"

definition specPerspective3 ::
  "vec3 \<Rightarrow> real \<Rightarrow> real \<Rightarrow> real \<Rightarrow> vec3 \<Rightarrow> vec3 \<Rightarrow> vec3 \<Rightarrow> vec3" where
  "specPerspective3 l w0 w1 w2 a0 a1 a2 =
     scale3 (add3 (add3 (scale3 a0 (x3 l / w0)) (scale3 a1 (y3 l / w1))) (scale3 a2 (z3 l / w2)))
            (1 / (x3 l / w0 + y3 l / w1 + z3 l / w2))"

definition specPerspective2 ::
  "vec3 \<Rightarrow> real \<Rightarrow> real \<Rightarrow> real \<Rightarrow> vec2 \<Rightarrow> vec2 \<Rightarrow> vec2 \<Rightarrow> vec2" where
  "specPerspective2 l w0 w1 w2 a0 a1 a2 =
     scale2 (add2 (add2 (scale2 a0 (x3 l / w0)) (scale2 a1 (y3 l / w1))) (scale2 a2 (z3 l / w2)))
            (1 / (x3 l / w0 + y3 l / w1 + z3 l / w2))"

text \<open>
  A textured triangle as the vertex stage leaves it (every stored \<open>w\<close> is 1) with the
  window depths 1/2, 1/4 and 1/8, the texture coordinates \<open>(0,0)\<close>, \<open>(1,0)\<close>, \<open>(0,1)\<close> and
  the eye position \<open>(0, 0, -2)\<close> at each vertex.
\<close>

definition slopedVertex :: "vec4 \<Rightarrow> vec2 \<Rightarrow> VertexOut" where
  "slopedVertex position texcoord =
     \<lparr>vo_pos = position, vo_eyePos = Vec3 0 0 (-2), vo_eyeNor = Vec3 0 0 1,
      vo_col = Vec3 (1/2) 0 0, vo_texcoord0 = texcoord,
      vo_dev_diffuseTex = Some rgbwTexture, vo_texWidth = 2, vo_texHeight = 2\<rparr>"

definition slopedTriangle :: Primitive where
  "slopedTriangle =
     \<lparr>p_primitiveType = Triangle,
      p_v = [slopedVertex (Vec4 0 0 (1/2) 1) (Vec2 0 0),
             slopedVertex (Vec4 4 0 (1/4) 1) (Vec2 1 0),
             slopedVertex (Vec4 0 4 (1/8) 1) (Vec2 0 1)]\<rparr>"

text \<open>
  A triangle with an edge through the origin of eye space: the eye positions of its
  first two vertices are opposite.
\<close>

definition originVertex :: "vec4 \<Rightarrow> vec3 \<Rightarrow> VertexOut" where
  "originVertex position eyePosition =
     \<lparr>vo_pos = position, vo_eyePos = eyePosition, vo_eyeNor = Vec3 0 0 1,
      vo_col = Vec3 (1/2) 0 0, vo_texcoord0 = Vec2 0 0,
      vo_dev_diffuseTex = None, vo_texWidth = 0, vo_texHeight = 0\<rparr>"

definition originTriangle :: Primitive where
  "originTriangle =
     \<lparr>p_primitiveType = Triangle,
      p_v = [originVertex (Vec4 0 0 (1/2) 1) (Vec3 (-1) 0 0),
             originVertex (Vec4 2 0 (1/2) 1) (Vec3 1 0 0),
             originVertex (Vec4 0 2 (1/2) 1) (Vec3 0 1 0)]\<rparr>"

text \<open>
  Notions for the lock discipline. A thread holds pixel \<open>i\<close> from its successful
  compare-and-swap until it has stored 0 back: it is inside the loop at a request
  for \<open>i\<close> and past the \<^verbatim>\<open>atomicCAS\<close>. The lock invariant: a mutex is 1 when some thread
  holds its pixel and 0 otherwise, and no pixel has two holders.
\<close>

definition holding :: "Thread \<Rightarrow> int option" where
  "holding t =
     (if cur t < length (requests t) \<and> loc t \<noteq> AtCAS
      then Some (rq_pixelIdx (requests t ! cur t)) else None)"

definition holders :: "Thread list \<Rightarrow> int \<Rightarrow> nat set" where
  "holders ts i = {tid. tid < length ts \<and> holding (ts ! tid) = Some i}"

definition lockInv :: "Device \<Rightarrow> bool" where
  "lockInv s =
     ((\<forall>i. dev_mutex s i = (if holders (threads s) i = {} then 0 else 1)) \<and>
      (\<forall>i a b. a \<in> holders (threads s) i \<and> b \<in> holders (threads s) i \<longrightarrow> a = b))"

text \<open>
  Notions for the depth buffer. The requests a thread has settled: those before the
  current one, and the current one once its depth test and write are over. The
  depth invariant, for the depth store \<open>d0\<close> the kernel started from: every entry is
  the least of its initial value and the keys settled for it, and a thread about to
  write still holds a key below the entry.
\<close>

definition settled :: "Thread \<Rightarrow> Request list" where
  "settled t =
     take (cur t) (requests t) @
     (if cur t < length (requests t) \<and> loc t = AtRelease then [requests t ! cur t] else [])"

definition keysAt :: "Request list \<Rightarrow> int \<Rightarrow> int set" where
  "keysAt rs i = rq_newDepth ` {r \<in> set rs. rq_pixelIdx r = i}"

definition settledKeys :: "Thread list \<Rightarrow> int \<Rightarrow> int set" where
  "settledKeys ts i = (\<Union>t \<in> set ts. keysAt (settled t) i)"

definition depthInv :: "(int \<Rightarrow> int) \<Rightarrow> Device \<Rightarrow> bool" where
  "depthInv d0 s =
     ((\<forall>i. dev_depth s i = Min (insert (d0 i) (settledKeys (threads s) i))) \<and>
      (\<forall>tid. tid < length (threads s) \<and> cur (threads s ! tid) < length (requests (threads s ! tid))
             \<and> loc (threads s ! tid) = AtWrite \<longrightarrow>
           rq_newDepth (requests (threads s ! tid) ! cur (threads s ! tid))
             < dev_depth s (rq_pixelIdx (requests (threads s ! tid) ! cur (threads s ! tid)))))"



definition truncKey :: "real \<Rightarrow> int" where
  "truncKey z = f2i (fl32 (2147483648 * z))"



text \<open>
  Notions for termination. The number of steps a thread still takes when no other
  thread is in its way, and the schedule that runs the threads one after the other.
  A device is quiet when no thread holds a pixel.
\<close>

definition stepsLeft :: "Thread \<Rightarrow> nat" where
  "stepsLeft t =
     4 * (length (requests t) - cur t)
       - (case loc t of AtCAS \<Rightarrow> 0 | AtDepthTest \<Rightarrow> 1 | AtWrite \<Rightarrow> 2 | AtRelease \<Rightarrow> 3)"

definition seqSchedule :: "Device \<Rightarrow> nat list" where
  "seqSchedule s =
     concat (map (\<lambda>tid. replicate (stepsLeft (threads s ! tid)) tid) [0..<length (threads s)])"

definition quiet :: "Device \<Rightarrow> bool" where
  "quiet s = (\<forall>tid. tid < length (threads s) \<longrightarrow> holding (threads s ! tid) = None)"

text \<open>
  A small triangle close to the near plane, at the window depth \<open>7 / 2^33\<close> in each
  vertex, on a 2 by 2 viewport.
\<close>

definition nearVertex :: "real \<Rightarrow> real \<Rightarrow> VertexOut" where
  "nearVertex px py =
     \<lparr>vo_pos = Vec4 px py (7 / 8589934592) 1, vo_eyePos = Vec3 0 0 (-1),
      vo_eyeNor = Vec3 0 0 1, vo_col = Vec3 (1/2) 0 0, vo_texcoord0 = Vec2 0 0,
      vo_dev_diffuseTex = None, vo_texWidth = 0, vo_texHeight = 0\<rparr>"

definition nearTriangle :: Primitive where
  "nearTriangle =
     \<lparr>p_primitiveType = Triangle, p_v = [nearVertex 0 0, nearVertex 1 0, nearVertex 0 1]\<rparr>"

text \<open>The launch over two copies of that triangle: two threads with the same pixels.\<close>

definition twoLaunch :: Device where
  "twoLaunch =
     computeFragments 2 [nearTriangle, nearTriangle] 2 2 (\<lambda>i. clearedFragment)
       (initDepthGrid 2 2 (\<lambda>i. 0)) clearedMutex"






text \<open>
  The depth and the fragment of a pixel belong together: both are the cleared ones,
  or both come from one request for that pixel.
\<close>

definition pairInv :: "(int \<Rightarrow> int) \<Rightarrow> (int \<Rightarrow> Fragment) \<Rightarrow> Device \<Rightarrow> bool" where
  "pairInv depth0 fragmentBuffer0 s \<longleftrightarrow>
     (\<forall>i. (dev_depth s i = depth0 i \<and> dev_fragmentBuffer s i = fragmentBuffer0 i)
        \<or> (\<exists>r \<in> set (concat (map requests (threads s))).
             rq_pixelIdx r = i \<and> dev_depth s i = rq_newDepth r
             \<and> dev_fragmentBuffer s i = rq_fragment r))"

text \<open>The launch over the triangle through the eye, on a cleared 8 by 8 viewport.\<close>

definition originLaunch :: Device where
  "originLaunch =
     computeFragments 1 [originTriangle] 8 8 (\<lambda>i. clearedFragment)
       (initDepthGrid 8 8 (\<lambda>i. 0)) clearedMutex"

subsection \<open>Scene upload: the group loop of rasterizeSetBuffers\<close>

text \<open>
  The part of a tinygltf scene the loop reads: a primitive with the key of its index
  accessor (the empty string when it has none), its mode, attributes and material; a
  mesh with its name and primitives; a node with the names of its meshes. The loop
  runs over \<^verbatim>\<open>nodeString2Matrix\<close>, the nodes with their matrices in key order, as the
  traversal of the node hierarchy left it.
\<close>

record GltfPrimitive =
  prim_indices :: string
  prim_mode :: GltfMode
  prim_attributes :: "(string \<times> string) list"
  prim_material :: string

record GltfMesh =
  mesh_name :: string
  mesh_primitives :: "GltfPrimitive list"

record GltfNode =
  node_meshes :: "string list"

record GltfScene =
  scene_nodes :: "string \<rightharpoonup> GltfNode"
  scene_meshes :: "string \<rightharpoonup> GltfMesh"

text \<open>
  The module state the upload writes: \<^verbatim>\<open>mesh2PrimitivesMap\<close>, \<^verbatim>\<open>totalNumPrimitives\<close>, and
  whether \<^verbatim>\<open>dev_primitives\<close> has been allocated for them (step 3 of the function).
\<close>

record UploadState =
  mesh2PrimitivesMap :: "string \<rightharpoonup> PrimitiveDevBufPointers list"
  totalNumPrimitives :: int
  primitivesAllocated :: bool

text \<open>
  How a loop is left: by falling through to the next iteration, by the
  \<^verbatim>\<open>return\<close> of the function, or by the \<^verbatim>\<open>std::out_of_range\<close> that \<^verbatim>\<open>map::at\<close> throws.
\<close>

datatype 'a Flow = Next 'a | Returned 'a | Thrown

text \<open>
  The loop over the primitives of one mesh. The body that builds a group after the
  check of the indices (the device copies of the index and attribute buffers, the
  counts, the texture and the node transform) is the parameter \<open>build\<close>; the vector
  of the mesh and the module state are updated in place, so what was pushed before
  a \<^verbatim>\<open>return\<close> stays.
\<close>

fun uploadPrimitives ::
  "(GltfPrimitive \<Rightarrow> PrimitiveDevBufPointers) \<Rightarrow> string \<Rightarrow> GltfPrimitive list \<Rightarrow> UploadState
    \<Rightarrow> UploadState Flow" where
  "uploadPrimitives build key [] st = Next st"
| "uploadPrimitives build key (primitive # rest) st =
     (if prim_indices primitive = [] then Returned st
      else (let group = build primitive;
                primitiveVector = (case mesh2PrimitivesMap st key of None \<Rightarrow> [] | Some v \<Rightarrow> v)
            in uploadPrimitives build key rest
                 (st\<lparr>mesh2PrimitivesMap := (mesh2PrimitivesMap st)(key \<mapsto> primitiveVector @ [group]),
                     totalNumPrimitives := totalNumPrimitives st + numPrimitives group\<rparr>)))"

text \<open>The loop over the meshes of one node; \<^verbatim>\<open>insert\<close> adds an empty vector for a new name.\<close>

fun uploadMeshes ::
  "(mat4 \<Rightarrow> GltfPrimitive \<Rightarrow> PrimitiveDevBufPointers) \<Rightarrow> GltfScene \<Rightarrow> mat4 \<Rightarrow> string list
    \<Rightarrow> UploadState \<Rightarrow> UploadState Flow" where
  "uploadMeshes build scene matrix [] st = Next st"
| "uploadMeshes build scene matrix (meshName # rest) st =
     (case scene_meshes scene meshName of
        None \<Rightarrow> Thrown
      | Some mesh \<Rightarrow>
          (let st = (case mesh2PrimitivesMap st (mesh_name mesh) of
                       None \<Rightarrow> st\<lparr>mesh2PrimitivesMap := (mesh2PrimitivesMap st)(mesh_name mesh \<mapsto> [])\<rparr>
                     | Some v \<Rightarrow> st)
           in case uploadPrimitives (build matrix) (mesh_name mesh) (mesh_primitives mesh) st of
                Next st \<Rightarrow> uploadMeshes build scene matrix rest st
              | Returned st \<Rightarrow> Returned st
              | Thrown \<Rightarrow> Thrown))"

text \<open>The loop over the nodes.\<close>

fun uploadNodes ::
  "(mat4 \<Rightarrow> GltfPrimitive \<Rightarrow> PrimitiveDevBufPointers) \<Rightarrow> GltfScene \<Rightarrow> (string \<times> mat4) list
    \<Rightarrow> UploadState \<Rightarrow> UploadState Flow" where
  "uploadNodes build scene [] st = Next st"
| "uploadNodes build scene ((nodeName, matrix) # rest) st =
     (case scene_nodes scene nodeName of
        None \<Rightarrow> Thrown
      | Some N \<Rightarrow>
          (case uploadMeshes build scene matrix (node_meshes N) st of
             Next st \<Rightarrow> uploadNodes build scene rest st
           | Returned st \<Rightarrow> Returned st
           | Thrown \<Rightarrow> Thrown))"

text \<open>
  \<^verbatim>\<open>rasterizeSetBuffers\<close>: the count is reset, the loops run, and only when they fall
  through is \<^verbatim>\<open>dev_primitives\<close> allocated. \<^term>\<open>None\<close> is the uncaught exception.
\<close>

definition rasterizeSetBuffers ::
  "(mat4 \<Rightarrow> GltfPrimitive \<Rightarrow> PrimitiveDevBufPointers) \<Rightarrow> GltfScene \<Rightarrow> (string \<times> mat4) list
    \<Rightarrow> UploadState \<Rightarrow> UploadState option" where
  "rasterizeSetBuffers build scene nodeString2Matrix st =
     (case uploadNodes build scene nodeString2Matrix
             (st\<lparr>totalNumPrimitives := 0, primitivesAllocated := False\<rparr>) of
        Next st \<Rightarrow> Some (st\<lparr>primitivesAllocated := True\<rparr>)
      | Returned st \<Rightarrow> Some st
      | Thrown \<Rightarrow> None)"

text \<open>
  A scene of one node with one mesh of two groups, the first without indices, the
  second a triangle list with positions, normals (the node transform writes both)
  and the index accessor \<open>idx\<close>; and the same scene without the first group.
\<close>

definition groupWithoutIndices :: GltfPrimitive where
  "groupWithoutIndices =
     \<lparr>prim_indices = [], prim_mode = MODE_TRIANGLES,
      prim_attributes = [(''NORMAL'', ''nor0''), (''POSITION'', ''pos0'')], prim_material = []\<rparr>"

definition validGroup :: GltfPrimitive where
  "validGroup =
     \<lparr>prim_indices = ''idx'', prim_mode = MODE_TRIANGLES,
      prim_attributes = [(''NORMAL'', ''nor1''), (''POSITION'', ''pos1'')], prim_material = []\<rparr>"

definition sceneOf :: "GltfPrimitive list \<Rightarrow> GltfScene" where
  "sceneOf groups =
     \<lparr>scene_nodes = [''node'' \<mapsto> \<lparr>node_meshes = [''mesh'']\<rparr>],
      scene_meshes = [''mesh'' \<mapsto> \<lparr>mesh_name = ''mesh'', mesh_primitives = groups\<rparr>]\<rparr>"

definition emptyUpload :: UploadState where
  "emptyUpload =
     \<lparr>mesh2PrimitivesMap = Map.empty, totalNumPrimitives = 0, primitivesAllocated = False\<rparr>"

section \<open>Properties\<close>

subsection \<open>Rounding\<close>

text \<open>
  The rounding error is at most half a unit in the last place, and a number with a
  significand of at most \<open>p\<close> bits above the least unit is not changed.
\<close>

lemma rne_error: "\<bar>of_int (rne y) - y\<bar> \<le> 1/2"
  unfolding rne_def Let_def by (auto; linarith)

lemma rne_of_int: "rne (of_int n) = n"
  by (simp add: rne_def)

lemma rne_nonneg: "0 \<le> y \<Longrightarrow> 0 \<le> rne y"
  unfolding rne_def Let_def by (auto; linarith)

lemma roundFloat_nonneg: "0 \<le> x \<Longrightarrow> 0 \<le> roundFloat p emin x"
  by (simp add: roundFloat_def Let_def rne_nonneg)

lemma roundFloat_error:
  assumes "\<bar>x\<bar> < 2 powr of_int K" "emin < K"
  shows "\<bar>roundFloat p emin x - x\<bar> \<le> 2 powr of_int (K - int p) / 2"
proof (cases "x = 0")
  case True
  then show ?thesis by (simp add: roundFloat_def)
next
  case False
  define e where "e = max \<lfloor>log 2 \<bar>x\<bar>\<rfloor> emin"
  define ulp :: real where "ulp = 2 powr of_int (e - int p + 1)"
  have pos: "0 < ulp" by (simp add: ulp_def)
  have "log 2 \<bar>x\<bar> < of_int K"
    using assms(1) False by (simp add: log_less_iff)
  then have "\<lfloor>log 2 \<bar>x\<bar>\<rfloor> < K" by linarith
  then have "e \<le> K - 1" using assms(2) by (simp add: e_def)
  then have "ulp \<le> 2 powr of_int (K - int p)"
    unfolding ulp_def by (intro powr_mono) simp_all
  moreover have "\<bar>roundFloat p emin x - x\<bar> \<le> ulp / 2"
  proof -
    have "roundFloat p emin x - x = (of_int (rne (x / ulp)) - x / ulp) * ulp"
      using False pos by (simp add: roundFloat_def Let_def e_def ulp_def field_simps)
    then have "\<bar>roundFloat p emin x - x\<bar> = \<bar>of_int (rne (x / ulp)) - x / ulp\<bar> * ulp"
      using pos by (simp add: abs_mult)
    also have "\<dots> \<le> 1/2 * ulp"
      using rne_error [of "x / ulp"] pos by (intro mult_right_mono) simp_all
    finally show ?thesis by simp
  qed
  ultimately show ?thesis by linarith
qed

lemma roundFloat_exact:
  assumes "x = of_int n * 2 powr of_int k" "\<bar>n\<bar> < 2 ^ p" "emin - int p + 1 \<le> k"
  shows "roundFloat p emin x = x"
proof (cases "x = 0")
  case True
  then show ?thesis by (simp add: roundFloat_def)
next
  case False
  then have n0: "n \<noteq> 0" using assms(1) by auto
  define e where "e = max \<lfloor>log 2 \<bar>x\<bar>\<rfloor> emin"
  define j where "j = e - int p + 1"
  have ax: "\<bar>x\<bar> = of_int \<bar>n\<bar> * 2 powr of_int k"
    unfolding assms(1) by (simp add: abs_mult)
  have "of_int \<bar>n\<bar> < (2::real) ^ p" using assms(2) by (metis of_int_less_numeral_power_cancel_iff)
  then have "\<bar>x\<bar> < 2 ^ p * 2 powr of_int k"
    unfolding ax by (intro mult_strict_right_mono) simp_all
  also have "\<dots> = 2 powr of_int (int p + k)"
    by (simp add: powr_add powr_realpow)
  finally have "log 2 \<bar>x\<bar> < of_int (int p + k)"
    using False by (simp add: log_less_iff)
  then have "\<lfloor>log 2 \<bar>x\<bar>\<rfloor> < int p + k" by linarith
  then have jk: "j \<le> k" using assms(3) by (simp add: j_def e_def)
  define m where "m = nat (k - j)"
  have "(2::real) powr of_int k = 2 powr of_int j * 2 powr of_int (k - j)"
    by (simp add: powr_add [symmetric])
  also have "(2::real) powr of_int (k - j) = 2 ^ m"
    using jk by (simp add: m_def powr_realpow [symmetric])
  finally have split: "(2::real) powr of_int k = 2 powr of_int j * 2 ^ m" .
  have "x / 2 powr of_int j = of_int (n * 2 ^ m)"
    unfolding assms(1) split by simp
  then have "rne (x / 2 powr of_int j) = n * 2 ^ m" by (simp only: rne_of_int)
  then have "roundFloat p emin x = of_int (n * 2 ^ m) * 2 powr of_int j"
    using False by (simp add: roundFloat_def Let_def e_def j_def)
  also have "\<dots> = x" unfolding assms(1) split by simp
  finally show ?thesis .
qed

lemma two_powr_neg: "(2::real) powr of_int (- int n) = 1 / 2 ^ n"
  by (simp add: powr_minus powr_realpow divide_inverse)

lemma two_powr_pos: "(2::real) powr of_int (int n) = 2 ^ n"
  by (simp add: powr_realpow)

lemma fl64_error_4096:
  assumes "\<bar>y\<bar> < 4096"
  shows "\<bar>fl64 y - y\<bar> \<le> 1 / 2 ^ 42"
proof -
  have "\<bar>y\<bar> < 2 powr of_int 12" using assms two_powr_pos [of 12] by simp
  then have "\<bar>fl64 y - y\<bar> \<le> 2 powr of_int (12 - int 53) / 2"
    unfolding fl64_def by (rule roundFloat_error) simp
  also have "\<dots> = 1 / 2 ^ 42" using two_powr_neg [of 41] by simp
  finally show ?thesis .
qed

lemma fl32_error_4096:
  assumes "\<bar>y\<bar> < 4096"
  shows "\<bar>fl32 y - y\<bar> \<le> 1 / 2 ^ 13"
proof -
  have "\<bar>y\<bar> < 2 powr of_int 12" using assms two_powr_pos [of 12] by simp
  then have "\<bar>fl32 y - y\<bar> \<le> 2 powr of_int (12 - int 24) / 2"
    unfolding fl32_def by (rule roundFloat_error) simp
  also have "\<dots> = 1 / 2 ^ 13" using two_powr_neg [of 12] by simp
  finally show ?thesis .
qed

lemma fl32_error_512:
  assumes "\<bar>y\<bar> < 512"
  shows "\<bar>fl32 y - y\<bar> \<le> 1 / 2 ^ 16"
proof -
  have "\<bar>y\<bar> < 2 powr of_int 9" using assms two_powr_pos [of 9] by simp
  then have "\<bar>fl32 y - y\<bar> \<le> 2 powr of_int (9 - int 24) / 2"
    unfolding fl32_def by (rule roundFloat_error) simp
  also have "\<dots> = 1 / 2 ^ 16" using two_powr_neg [of 15] by simp
  finally show ?thesis .
qed

lemma roundFloat_at:
  assumes "2 powr of_int e \<le> \<bar>x\<bar>" "\<bar>x\<bar> < 2 powr of_int (e + 1)" "emin \<le> e"
  shows "roundFloat p emin x
           = of_int (rne (x / 2 powr of_int (e - int p + 1))) * 2 powr of_int (e - int p + 1)"
proof -
  have pos: "0 < \<bar>x\<bar>" using assms(1) by (smt (verit) powr_gt_zero)
  have "\<lfloor>log 2 \<bar>x\<bar>\<rfloor> = e"
    using assms(1,2) pos by (subst floor_log_eq_powr_iff) simp_all
  then show ?thesis using pos assms(3) by (simp add: roundFloat_def Let_def max_def)
qed

lemma fl32_numeral: "numeral k < (2::int) ^ 24 \<Longrightarrow> fl32 (numeral k) = numeral k"
  unfolding fl32_def by (rule roundFloat_exact [where n = "numeral k" and k = 0]) simp_all

lemma fl64_numeral: "numeral k < (2::int) ^ 53 \<Longrightarrow> fl64 (numeral k) = numeral k"
  unfolding fl64_def by (rule roundFloat_exact [where n = "numeral k" and k = 0]) simp_all

lemma fl_zero: "fl32 0 = 0" "fl64 0 = 0"
  by (simp_all add: fl32_def fl64_def roundFloat_def)

text \<open>
  \<^verbatim>\<open>INT_MAX\<close> is not a binary32 number: it rounds to \<open>2^31\<close>. For a depth strictly between
  -1 and 1 the key fits an \<^verbatim>\<open>int\<close> and is the truncated product.
\<close>

lemma rne_int_max: "rne (2147483647 / 128) = 16777216"
proof -
  have f: "\<lfloor>2147483647 / 128 :: real\<rfloor> = 16777215" by simp
  have d: "(2147483647 / 128 :: real) - of_int 16777215 = 127 / 128" by simp
  show ?thesis unfolding rne_def Let_def f d by simp
qed

lemma fl32_INT_MAX: "fl32 (real_of_int INT_MAX) = 2147483648"
proof -
  have p30: "(2::real) powr real_of_int 30 = 1073741824" using two_powr_pos [of 30] by simp
  have p31: "(2::real) powr real_of_int (30 + 1) = 2147483648" using two_powr_pos [of 31] by simp
  have p7: "(2::real) powr real_of_int (30 - int 24 + 1) = 128" using two_powr_pos [of 7] by simp
  have "fl32 2147483647
          = of_int (rne (2147483647 / 2 powr of_int (30 - int 24 + 1)))
              * 2 powr of_int (30 - int 24 + 1)"
    unfolding fl32_def
  proof (rule roundFloat_at)
    show "2 powr real_of_int 30 \<le> \<bar>2147483647 :: real\<bar>" unfolding p30 by simp
    show "\<bar>2147483647 :: real\<bar> < 2 powr real_of_int (30 + 1)" unfolding p31 by simp
    show "(- 126 :: int) \<le> 30" by simp
  qed
  also have "\<dots> = 2147483648" unfolding p7 rne_int_max by simp
  finally show ?thesis by (simp add: INT_MAX_def)
qed

lemma depthKey_eq: "depthKey z = f2int (fl32 (2147483648 * z))"
  by (simp add: depthKey_def fl32_INT_MAX)

lemma f2i_abs: "\<bar>real_of_int (f2i y)\<bar> \<le> \<bar>y\<bar>"
  unfolding f2i_def by (auto; linarith)

lemma depthKey_in_range:
  assumes "\<bar>z\<bar> \<le> 1 - 1 / 2 ^ 24"
  shows "depthKey z = truncKey z"
proof -
  define x where "x = 2147483648 * z"
  have "\<bar>x\<bar> = 2147483648 * \<bar>z\<bar>" by (simp add: x_def abs_mult)
  also have "\<dots> \<le> 2147483648 * (1 - 1 / 2 ^ 24)" using assms by (intro mult_left_mono) simp_all
  also have "\<dots> = 2147483520" by simp
  finally have x: "\<bar>x\<bar> \<le> 2147483520" .
  then have "\<bar>x\<bar> < 2 powr of_int 31" using two_powr_pos [of 31] by simp
  then have "\<bar>fl32 x - x\<bar> \<le> 2 powr of_int (31 - int 24) / 2"
    unfolding fl32_def by (rule roundFloat_error) simp
  also have "\<dots> = 64" using two_powr_pos [of 7] by simp
  finally have "\<bar>fl32 x\<bar> \<le> 2147483584" using x by linarith
  then have "\<bar>real_of_int (f2i (fl32 x))\<bar> \<le> 2147483584" using f2i_abs [of "fl32 x"] by linarith
  then have "\<bar>f2i (fl32 x)\<bar> \<le> 2147483584" by linarith
  then show ?thesis
    unfolding depthKey_eq truncKey_def x_def [symmetric] f2int_def INT_MAX_def INT_MIN_def
    by simp
qed

lemma fl32_mult_pow2: "\<bar>n\<bar> < 2 ^ 24 \<Longrightarrow> fl32 (of_int n * 2 ^ m) = of_int n * 2 ^ m"
  unfolding fl32_def
  by (rule roundFloat_exact [where n = n and k = "int m"]) (simp_all add: powr_realpow)

lemma fl32_div_pow2:
  "\<bar>n\<bar> < 2 ^ 24 \<Longrightarrow> m \<le> 149 \<Longrightarrow> fl32 (of_int n / 2 ^ m) = of_int n / 2 ^ m"
  unfolding fl32_def
proof (rule roundFloat_exact [where n = n and k = "- int m"])
  show "real_of_int n / 2 ^ m = real_of_int n * 2 powr real_of_int (- int m)"
    unfolding two_powr_neg by simp
  show "\<bar>n\<bar> < 2 ^ 24 \<Longrightarrow> \<bar>n\<bar> < 2 ^ 24" .
  show "m \<le> 149 \<Longrightarrow> - 126 - int 24 + 1 \<le> - int m" by simp
qed

lemma truncKey_values:
  "truncKey (7 / 8589934592) = 1"
  "truncKey (15 / 8589934592) = 3"
  "truncKey (1 / 4) = 536870912"
  "truncKey (1 / 2) = 1073741824"
  "truncKey (3 / 4) = 1610612736"
  "truncKey (5 / 8) = 1342177280"
proof -
  have a: "fl32 (7 / 4) = 7 / 4" using fl32_div_pow2 [of 7 2] by simp
  have p1: "(2147483648 * (7 / 8589934592) :: real) = 7 / 4" by simp
  show "truncKey (7 / 8589934592) = 1" unfolding truncKey_def p1 a by (simp add: f2i_def)
  have b: "fl32 (15 / 4) = 15 / 4" using fl32_div_pow2 [of 15 2] by simp
  have p2: "(2147483648 * (15 / 8589934592) :: real) = 15 / 4" by simp
  show "truncKey (15 / 8589934592) = 3" unfolding truncKey_def p2 b by (simp add: f2i_def)
  have c: "fl32 536870912 = 536870912" using fl32_mult_pow2 [of 1 29] by simp
  have p3: "(2147483648 * (1 / 4) :: real) = 536870912" by simp
  show "truncKey (1 / 4) = 536870912" unfolding truncKey_def p3 c by (simp add: f2i_def)
  have d: "fl32 1073741824 = 1073741824" using fl32_mult_pow2 [of 1 30] by simp
  have p4: "(2147483648 * (1 / 2) :: real) = 1073741824" by simp
  show "truncKey (1 / 2) = 1073741824" unfolding truncKey_def p4 d by (simp add: f2i_def)
  have e: "fl32 1610612736 = 1610612736" using fl32_mult_pow2 [of 3 29] by simp
  have p5: "(2147483648 * (3 / 4) :: real) = 1610612736" by simp
  show "truncKey (3 / 4) = 1610612736" unfolding truncKey_def p5 e by (simp add: f2i_def)
  have f: "fl32 1342177280 = 1342177280" using fl32_mult_pow2 [of 5 28] by simp
  have p6: "(2147483648 * (5 / 8) :: real) = 1342177280" by simp
  show "truncKey (5 / 8) = 1342177280" unfolding truncKey_def p6 f by (simp add: f2i_def)
qed

subsection \<open>Resolve\<close>

lemma clampf_scaled: "0 \<le> clampf v 0 1 * 255 \<and> clampf v 0 1 * 255 \<le> 255"
  by (simp add: clampf_def min_def max_def)

lemma unat_f2i:
  assumes "0 \<le> r" "r \<le> 255"
  shows "unat (word_of_int (f2i r) :: uchar) = nat \<lfloor>r\<rfloor>"
proof -
  have "0 \<le> \<lfloor>r\<rfloor>" "\<lfloor>r\<rfloor> < 256" using assms by linarith+
  then show ?thesis using assms
    by (simp add: f2i_def unat_eq_nat_uint uint_word_of_int take_bit_eq_mod)
qed

text \<open>The samples a resolve thread reads lie inside the supersampled framebuffer.\<close>

lemma ssaa_reads_in_bounds:
  assumes "0 < (S::nat)" "x < w div S" "y < h div S" "i < S" "j < S"
  shows "(i + x * S) + (j + y * S) * w < w * h"
proof -
  have "Suc x * S \<le> w"
    using assms(1,2) by (simp add: less_eq_div_iff_mult_less_eq [symmetric] Suc_le_eq del: mult_Suc)
  then have a: "i + x * S < w" using assms(4) by simp
  have "Suc y * S \<le> h"
    using assms(1,3) by (simp add: less_eq_div_iff_mult_less_eq [symmetric] Suc_le_eq del: mult_Suc)
  then have "Suc (j + y * S) \<le> h" using assms(5) by simp
  then have "Suc (j + y * S) * w \<le> h * w" by (rule mult_le_mono1)
  then show ?thesis using a by (simp add: mult.commute)
qed

lemma addScaled_error:
  assumes "0 \<le> a" "a \<le> 3840"
  shows "0 \<le> addScaled a c"
    and "\<bar>addScaled a c - (a + clampf c 0 1 * 255)\<bar> \<le> 1 / 4096"
proof -
  define t where "t = clampf c 0 1 * 255"
  have t: "0 \<le> t" "t \<le> 255" using clampf_scaled [of c] by (simp_all add: t_def)
  have e1: "\<bar>fl64 t - t\<bar> \<le> 1 / 2 ^ 42" using t by (intro fl64_error_4096) simp
  have t': "0 \<le> fl64 t" unfolding fl64_def using t(1) by (rule roundFloat_nonneg)
  define y where "y = a + fl64 t"
  have y0: "0 \<le> y" using assms(1) t' by (simp add: y_def)
  have "y \<le> 3840 + 255 + 1 / 2 ^ 42" using assms(2) t(2) e1 unfolding y_def by linarith
  then have y1: "\<bar>y\<bar> < 4096" using y0 by simp
  have e2: "\<bar>fl64 y - y\<bar> \<le> 1 / 2 ^ 42" using y1 by (rule fl64_error_4096)
  have z0: "0 \<le> fl64 y" unfolding fl64_def using y0 by (rule roundFloat_nonneg)
  have "fl64 y \<le> 3840 + 255 + 1 / 2 ^ 42 + 1 / 2 ^ 42"
    using assms(2) t(2) e1 e2 unfolding y_def by linarith
  then have "\<bar>fl64 y\<bar> < 4096" using z0 by simp
  then have e3: "\<bar>fl32 (fl64 y) - fl64 y\<bar> \<le> 1 / 2 ^ 13" by (rule fl32_error_4096)
  show "0 \<le> addScaled a c"
    unfolding addScaled_def t_def [symmetric] y_def [symmetric] fl32_def
    using z0 by (rule roundFloat_nonneg)
  have "\<bar>fl32 (fl64 y) - (a + t)\<bar> \<le> 1 / 2 ^ 13 + 1 / 2 ^ 42 + 1 / 2 ^ 42"
    using e1 e2 e3 unfolding y_def by linarith
  also have "\<dots> \<le> 1 / 4096" by simp
  finally show "\<bar>addScaled a c - (a + clampf c 0 1 * 255)\<bar> \<le> 1 / 4096"
    unfolding addScaled_def t_def [symmetric] y_def [symmetric] .
qed

lemma fold_addScaled_error:
  assumes "0 \<le> a0" "\<bar>a0 - s0\<bar> \<le> real k0 / 4096" "s0 \<le> 255 * real k0"
      and "k0 + length cs \<le> 16"
  shows "0 \<le> fold (\<lambda>c a. addScaled a c) cs a0
         \<and> \<bar>fold (\<lambda>c a. addScaled a c) cs a0 - (s0 + (\<Sum>c\<leftarrow>cs. clampf c 0 1 * 255))\<bar>
             \<le> real (k0 + length cs) / 4096"
  using assms
proof (induction cs arbitrary: a0 s0 k0)
  case Nil
  then show ?case by simp
next
  case (Cons c cs)
  have k: "k0 \<le> 15" using Cons.prems(4) by simp
  then have "real k0 \<le> 15" by simp
  then have "a0 \<le> 255 * 15 + 15 / 4096" using Cons.prems(2,3) by linarith
  then have a: "a0 \<le> 3840" by simp
  note st = addScaled_error [OF Cons.prems(1) a, of c]
  have t: "clampf c 0 1 * 255 \<le> 255" using clampf_scaled [of c] by simp
  have "0 \<le> fold (\<lambda>c a. addScaled a c) cs (addScaled a0 c)
        \<and> \<bar>fold (\<lambda>c a. addScaled a c) cs (addScaled a0 c)
            - ((s0 + clampf c 0 1 * 255) + (\<Sum>c\<leftarrow>cs. clampf c 0 1 * 255))\<bar>
            \<le> real (Suc k0 + length cs) / 4096"
  proof (rule Cons.IH)
    show "0 \<le> addScaled a0 c" by (rule st(1))
    show "\<bar>addScaled a0 c - (s0 + clampf c 0 1 * 255)\<bar> \<le> real (Suc k0) / 4096"
    proof -
      have "real (Suc k0) / 4096 = real k0 / 4096 + 1 / 4096" by (simp add: add_divide_distrib)
      then show ?thesis using st(2) Cons.prems(2) by linarith
    qed
    show "s0 + clampf c 0 1 * 255 \<le> 255 * real (Suc k0)" using Cons.prems(3) t by simp
    show "Suc k0 + length cs \<le> 16" using Cons.prems(4) by simp
  qed
  then show ?case by (simp add: add.assoc)
qed


lemma fold_channels:
  "fold (\<lambda>j color. Vec3 (addScaled (x3 color) (x3 (f j))) (addScaled (y3 color) (y3 (f j)))
                         (addScaled (z3 color) (z3 (f j)))) ys c0
     = Vec3 (fold (\<lambda>c a. addScaled a c) (map (\<lambda>j. x3 (f j)) ys) (x3 c0))
            (fold (\<lambda>c a. addScaled a c) (map (\<lambda>j. y3 (f j)) ys) (y3 c0))
            (fold (\<lambda>c a. addScaled a c) (map (\<lambda>j. z3 (f j)) ys) (z3 c0))"
  by (induction ys arbitrary: c0) simp_all

lemma fold_fold_channels:
  "fold (\<lambda>i color.
           fold (\<lambda>j color. Vec3 (addScaled (x3 color) (x3 (f i j)))
                                 (addScaled (y3 color) (y3 (f i j)))
                                 (addScaled (z3 color) (z3 (f i j)))) ys color) xs c0
     = Vec3 (fold (\<lambda>c a. addScaled a c) (concat (map (\<lambda>i. map (\<lambda>j. x3 (f i j)) ys) xs)) (x3 c0))
            (fold (\<lambda>c a. addScaled a c) (concat (map (\<lambda>i. map (\<lambda>j. y3 (f i j)) ys) xs)) (y3 c0))
            (fold (\<lambda>c a. addScaled a c) (concat (map (\<lambda>i. map (\<lambda>j. z3 (f i j)) ys) xs)) (z3 c0))"
  by (induction xs arbitrary: c0) (simp_all add: fold_channels)

text \<open>The samples of a block in the order the loops visit them, one component each.\<close>

lemma ssaaAccumulate_channels:
  "ssaaAccumulate S w img x y
     = Vec3 (fold (\<lambda>c a. addScaled a c)
               (concat (map (\<lambda>i. map (\<lambda>j. x3 (ssaaSample S w img x y i j)) [0..<S]) [0..<S])) 0)
            (fold (\<lambda>c a. addScaled a c)
               (concat (map (\<lambda>i. map (\<lambda>j. y3 (ssaaSample S w img x y i j)) [0..<S]) [0..<S])) 0)
            (fold (\<lambda>c a. addScaled a c)
               (concat (map (\<lambda>i. map (\<lambda>j. z3 (ssaaSample S w img x y i j)) [0..<S]) [0..<S])) 0)"
  unfolding ssaaAccumulate_def Let_def fold_fold_channels by (simp add: zero3_def)

lemma sum_list_upt_real: "(\<Sum>i\<leftarrow>[0..<n]. g i) = (\<Sum>i<n. (g i :: real))"
  by (simp add: interv_sum_list_conv_sum_set_nat atLeast0LessThan)

lemma sum_list_map_concat: "(\<Sum>c\<leftarrow>concat xss. h c) = (\<Sum>xs\<leftarrow>xss. \<Sum>c\<leftarrow>xs. (h c :: real))"
  by (induction xss) simp_all

lemma block_sum_list:
  "(\<Sum>c\<leftarrow>concat (map (\<lambda>i. map (\<lambda>j. ch (ssaaSample S w img x y i j)) [0..<S]) [0..<S]).
      clampf c 0 1 * 255) = blockSum ch S w img x y"
  by (simp add: sum_list_map_concat comp_def sum_list_upt_real blockSum_def ssaaSample_def Let_def)

lemma block_length:
  "length (concat (map (\<lambda>i. map (\<lambda>j. g i j) [0..<S]) [0..<S])) = S * S"
  by (simp add: length_concat comp_def sum_list_triv)

lemma blockSum_bounds:
  "0 \<le> blockSum c S w img x y \<and> blockSum c S w img x y \<le> real (S * S) * 255"
proof
  show "0 \<le> blockSum c S w img x y"
    unfolding blockSum_def by (intro sum_nonneg) (simp add: clampf_scaled)
  have "blockSum c S w img x y \<le> (\<Sum>i<S. \<Sum>j<S. (255::real))"
    unfolding blockSum_def by (intro sum_mono) (simp add: clampf_scaled)
  then show "blockSum c S w img x y \<le> real (S * S) * 255" by simp
qed

text \<open>One channel: the accumulated sum, the quotient and the byte.\<close>

lemma channel_byte:
  assumes "0 < S" "S \<le> 4"
      and "acc = fold (\<lambda>c a. addScaled a c)
                   (concat (map (\<lambda>i. map (\<lambda>j. ch (ssaaSample S w img x y i j)) [0..<S]) [0..<S])) 0"
      and "mean = blockSum ch S w img x y / real (S * S)"
  shows "mean - 1 - 1 / 2048 < real (unat (word_of_int (f2i (divScalar acc (S * S))) :: uchar))"
    and "real (unat (word_of_int (f2i (divScalar acc (S * S))) :: uchar)) \<le> mean + 1 / 2048"
proof -
  define n where "n = S * S"
  have n: "0 < n" "n \<le> 16"
    using assms(1) mult_le_mono [OF assms(2) assms(2)] by (simp_all add: n_def)
  have rn: "0 < real n" "real n \<le> 16" using n by simp_all
  have len: "0 + length (concat (map (\<lambda>i. map (\<lambda>j. ch (ssaaSample S w img x y i j)) [0..<S])
               [0..<S])) \<le> 16"
    using n(2) by (simp add: block_length n_def)
  have "0 \<le> acc \<and> \<bar>acc - (0 + blockSum ch S w img x y)\<bar> \<le> real (0 + n) / 4096"
    using fold_addScaled_error [OF _ _ _ len, of 0 0]
    unfolding assms(3) block_sum_list block_length n_def by simp
  then have acc: "0 \<le> acc" "\<bar>acc - blockSum ch S w img x y\<bar> \<le> real n / 4096" by simp_all
  have nfl: "fl32 (real n) = real n"
    unfolding fl32_def
  proof (rule roundFloat_exact [where n = "int n" and k = 0])
    show "real n = real_of_int (int n) * 2 powr real_of_int 0" by simp
    show "\<bar>int n\<bar> < 2 ^ 24" using n(2) by simp
    show "- 126 - int 24 + 1 \<le> 0" by simp
  qed
  define q where "q = acc / real n"
  have q0: "0 \<le> q" using acc(1) rn(1) by (simp add: q_def)
  have "\<bar>q - mean\<bar> = \<bar>acc - blockSum ch S w img x y\<bar> / real n"
    using rn(1) unfolding q_def assms(4) n_def [symmetric]
    by (simp add: diff_divide_distrib [symmetric])
  also have "\<dots> \<le> (real n / 4096) / real n"
    using acc(2) rn(1) by (intro divide_right_mono) simp_all
  also have "\<dots> = 1 / 4096" using rn(1) by simp
  finally have qm: "\<bar>q - mean\<bar> \<le> 1 / 4096" .
  have m: "0 \<le> mean" "mean \<le> 255"
  proof -
    show "0 \<le> mean" unfolding assms(4) using blockSum_bounds [of ch S w img x y] by simp
    have "blockSum ch S w img x y \<le> 255 * real (S * S)"
      using blockSum_bounds [of ch S w img x y] by (simp add: mult.commute)
    then show "mean \<le> 255"
      unfolding assms(4) using rn(1) by (simp add: n_def pos_divide_le_eq)
  qed
  have "\<bar>q\<bar> < 512" using q0 qm m(2) by linarith
  then have e: "\<bar>fl32 q - q\<bar> \<le> 1 / 2 ^ 16" by (rule fl32_error_512)
  define v where "v = divScalar acc (S * S)"
  have v: "v = fl32 q" by (simp add: v_def divScalar_def nfl q_def n_def [symmetric])
  have v0: "0 \<le> v" unfolding v fl32_def using q0 by (rule roundFloat_nonneg)
  have vm: "\<bar>v - mean\<bar> \<le> 1 / 4096 + 1 / 2 ^ 16" using e qm unfolding v by linarith
  then have vm': "\<bar>v - mean\<bar> \<le> 1 / 2048 - 1 / 65536" by simp
  have "v \<le> 255 + 1 / 2048" using vm' m(2) by linarith
  then have fl: "\<lfloor>v\<rfloor> \<le> 255" by linarith
  have fl0: "0 \<le> \<lfloor>v\<rfloor>" using v0 by simp
  have "unat (word_of_int (f2i v) :: uchar) = nat \<lfloor>v\<rfloor>"
    using v0 fl fl0 by (simp add: f2i_def unat_eq_nat_uint uint_word_of_int take_bit_eq_mod)
  then have byte: "real (unat (word_of_int (f2i v) :: uchar)) = of_int \<lfloor>v\<rfloor>"
    using fl0 by simp
  show "mean - 1 - 1 / 2048 < real (unat (word_of_int (f2i (divScalar acc (S * S))) :: uchar))"
    unfolding v_def [symmetric] byte using vm' by linarith
  show "real (unat (word_of_int (f2i (divScalar acc (S * S))) :: uchar)) \<le> mean + 1 / 2048"
    unfolding v_def [symmetric] byte using vm' by linarith
qed

lemma addScaled_values:
  "addScaled 0 0 = 0" "addScaled 0 1 = 255" "addScaled 255 0 = 255" "addScaled 255 1 = 510"
  by (simp_all add: addScaled_def clampf_def fl_zero fl32_numeral fl64_numeral)

lemma divScalar_510: "divScalar 510 4 = 255 / 2"
proof -
  have "fl32 (255 / 2) = 255 / 2"
    unfolding fl32_def
    by (rule roundFloat_exact [where n = 255 and k = "- 1"]) (simp_all add: powr_minus)
  then show ?thesis by (simp add: divScalar_def fl32_numeral)
qed

lemma scenario_resolves:
  "sendImageToPBO 2 2 2 [Vec3 1 0 0, Vec3 0 1 0, Vec3 0 0 1, Vec3 1 1 1] 0 0
     = Some (0, Uchar4 127 127 127 0)"
proof -
  have "ssaaAccumulate 2 2 [Vec3 1 0 0, Vec3 0 1 0, Vec3 0 0 1, Vec3 1 1 1] 0 0
          = Vec3 510 510 510"
    by (simp add: ssaaAccumulate_def ssaaSample_def zero3_def upt_rec addScaled_values)
  then show ?thesis
    by (simp add: sendImageToPBO_def divScalar_510 f2i_def)
qed


text \<open>
  C7. For every output pixel \<open>(x, y)\<close> of the resolve stage with factor \<open>S\<close> (up to 4),
  the thread writes at \<open>x + y * (w div S)\<close> a pixel with alpha 0 whose colour bytes are
  the block means, the sums over the \<open>S \<times> S\<close> block of each component clamped to
  \<open>[0,1]\<close> and scaled by 255, divided by \<open>S * S\<close>, up to the quantisation to 8 bits: the
  sum is accumulated in binary32 and the quotient is truncated, so a byte \<open>b\<close> lies
  in \<open>(mean - 1 - 2^-11, mean + 2^-11]\<close>.
\<close>

theorem resolve_block_average:
  assumes "0 < S" "S \<le> 4" "x < w div S" "y < h div S" "length img = w * h"
  shows "\<exists>px. sendImageToPBO S w h img x y = Some (x + y * (w div S), px)
            \<and> blockSum x3 S w img x y / real (S * S) - 1 - 1 / 2048 < real (unat (ux px))
            \<and> real (unat (ux px)) \<le> blockSum x3 S w img x y / real (S * S) + 1 / 2048
            \<and> blockSum y3 S w img x y / real (S * S) - 1 - 1 / 2048 < real (unat (uy px))
            \<and> real (unat (uy px)) \<le> blockSum y3 S w img x y / real (S * S) + 1 / 2048
            \<and> blockSum z3 S w img x y / real (S * S) - 1 - 1 / 2048 < real (unat (uz px))
            \<and> real (unat (uz px)) \<le> blockSum z3 S w img x y / real (S * S) + 1 / 2048
            \<and> uw px = 0"
proof -
  note cx = channel_byte [OF assms(1,2) refl refl, of x3 w img x y]
  note cy = channel_byte [OF assms(1,2) refl refl, of y3 w img x y]
  note cz = channel_byte [OF assms(1,2) refl refl, of z3 w img x y]
  show ?thesis
    using assms(3,4) cx cy cz
    by (simp add: sendImageToPBO_def Let_def ssaaAccumulate_channels)
qed


text \<open>
  The scenario of the specification: \<open>S = 2\<close> and the four subpixels \<open>(1,0,0)\<close>,
  \<open>(0,1,0)\<close>, \<open>(0,0,1)\<close>, \<open>(1,1,1)\<close>. Each mean is 127.5 and each byte is 127, one
  255th below the \<open>(128, 128, 128, 0)\<close> of the specification, which allows that much.
\<close>

theorem resolve_block_average_witness:
  "sendImageToPBO 2 2 2 [Vec3 1 0 0, Vec3 0 1 0, Vec3 0 0 1, Vec3 1 1 1] 0 0
     = Some (0, Uchar4 127 127 127 0)
   \<and> blockSum x3 2 2 [Vec3 1 0 0, Vec3 0 1 0, Vec3 0 0 1, Vec3 1 1 1] 0 0 / real (2 * 2) = 255 / 2
   \<and> (255 / 2 - 1 - 1 / 2048 < real (unat (127 :: uchar))
        \<and> real (unat (127 :: uchar)) \<le> 255 / 2 + 1 / 2048)"
proof -
  have m: "blockSum x3 2 2 [Vec3 1 0 0, Vec3 0 1 0, Vec3 0 0 1, Vec3 1 1 1] 0 0 / real (2 * 2)
             = 255 / 2"
    by (simp add: blockSum_def clampf_def lessThan_Suc numeral_2_eq_2)
  have "(0::nat) < 2" "(2::nat) \<le> 4" "(0::nat) < 2 div 2" "(0::nat) < 2 div 2"
    "length [Vec3 1 0 0, Vec3 0 1 0, Vec3 0 0 1, Vec3 1 1 1] = 2 * 2" by simp_all
  from resolve_block_average [OF this] obtain px where
    px: "sendImageToPBO 2 2 2 [Vec3 1 0 0, Vec3 0 1 0, Vec3 0 0 1, Vec3 1 1 1] 0 0
           = Some (0 + 0 * (2 div 2), px)"
    and lo: "blockSum x3 2 2 [Vec3 1 0 0, Vec3 0 1 0, Vec3 0 0 1, Vec3 1 1 1] 0 0 / real (2 * 2)
               - 1 - 1 / 2048 < real (unat (ux px))"
    and hi: "real (unat (ux px))
               \<le> blockSum x3 2 2 [Vec3 1 0 0, Vec3 0 1 0, Vec3 0 0 1, Vec3 1 1 1] 0 0 / real (2 * 2)
                 + 1 / 2048"
    by blast
  have "px = Uchar4 127 127 127 0" using px scenario_resolves by simp
  then have "ux px = 127" by simp
  then show ?thesis using lo hi scenario_resolves unfolding m by simp
qed

text \<open>
  The accumulator rounds: on that block the exact sum is just below 384, the
  binary32 sum is 384, and the byte is 96 although the exact mean is below 96.
\<close>

lemma rne_up: "rne (6442450815 / 512) = 12582912"
proof -
  have f: "\<lfloor>6442450815 / 512 :: real\<rfloor> = 12582911" by simp
  have d: "(6442450815 / 512 :: real) - of_int 12582911 = 383 / 512" by simp
  show ?thesis unfolding rne_def Let_def f d by simp
qed


lemma addScaled_up: "addScaled 255 (8487297 / 16777216) = 384"
proof -
  have "(0::real) \<le> 8487297 / 16777216" "(8487297 / 16777216 :: real) \<le> 1" by simp_all
  then have "clampf (8487297 / 16777216) 0 1 = 8487297 / 16777216"
    unfolding clampf_def by (simp only: max_absorb1 min_absorb1)
  then have c: "clampf (8487297 / 16777216) 0 1 * 255 = 2164260735 / 16777216" by simp
  have sum: "255 + 2164260735 / 16777216 = (6442450815 / 16777216 :: real)" by simp
  have m24: "(2::real) powr real_of_int (- 24) = 1 / 16777216"
    using two_powr_neg [of 24] by simp
  have m15: "(2::real) powr real_of_int (8 - int 24 + 1) = 1 / 32768"
    using two_powr_neg [of 15] by simp
  have p8: "(2::real) powr real_of_int 8 = 256" using two_powr_pos [of 8] by simp
  have p9: "(2::real) powr real_of_int (8 + 1) = 512" using two_powr_pos [of 9] by simp
  have big: "\<bar>2164260735::int\<bar> < 2 ^ 53" "\<bar>6442450815::int\<bar> < 2 ^ 53" by simp_all
  have p: "fl64 (2164260735 / 16777216) = 2164260735 / 16777216"
    unfolding fl64_def
  proof (rule roundFloat_exact [where n = 2164260735 and k = "- 24"])
    show "2164260735 / 16777216 = real_of_int 2164260735 * 2 powr real_of_int (- 24)"
      unfolding m24 by simp
    show "\<bar>2164260735::int\<bar> < 2 ^ 53" by (rule big)
    show "- 1022 - int 53 + 1 \<le> - 24" by simp
  qed
  have s: "fl64 (6442450815 / 16777216) = 6442450815 / 16777216"
    unfolding fl64_def
  proof (rule roundFloat_exact [where n = 6442450815 and k = "- 24"])
    show "6442450815 / 16777216 = real_of_int 6442450815 * 2 powr real_of_int (- 24)"
      unfolding m24 by simp
    show "\<bar>6442450815::int\<bar> < 2 ^ 53" by (rule big)
    show "- 1022 - int 53 + 1 \<le> - 24" by simp
  qed
  have "fl32 (6442450815 / 16777216)
          = of_int (rne ((6442450815 / 16777216) / 2 powr of_int (8 - int 24 + 1)))
              * 2 powr of_int (8 - int 24 + 1)"
    unfolding fl32_def
  proof (rule roundFloat_at)
    show "2 powr real_of_int 8 \<le> \<bar>6442450815 / 16777216 :: real\<bar>" unfolding p8 by simp
    show "\<bar>6442450815 / 16777216 :: real\<bar> < 2 powr real_of_int (8 + 1)" unfolding p9 by simp
    show "(- 126 :: int) \<le> 8" by simp
  qed
  also have "(6442450815 / 16777216) / 2 powr of_int (8 - int 24 + 1) = (6442450815 / 512 :: real)"
    unfolding m15 by simp
  also have "real_of_int (rne (6442450815 / 512)) * 2 powr of_int (8 - int 24 + 1) = 384"
    unfolding rne_up m15 by simp
  finally have r: "fl32 (6442450815 / 16777216) = 384" .
  show ?thesis unfolding addScaled_def c p sum s r ..
qed


lemma roundingImage_sum: "ssaaAccumulate 2 2 roundingImage 0 0 = Vec3 384 384 384"
proof -
  have z: "addScaled 384 0 = 384"
    by (simp add: addScaled_def clampf_def fl_zero fl32_numeral fl64_numeral)
  have l: "[0..<2] = [0, Suc 0]" by (simp add: upt_rec)
  show ?thesis
    unfolding ssaaAccumulate_def l roundingImage_def
    by (simp add: ssaaSample_def zero3_def addScaled_values addScaled_up z)
qed

lemma resolve_rounds_sum:
  "sendImageToPBO 2 2 2 roundingImage 0 0 = Some (0, Uchar4 96 96 96 0)
   \<and> blockSum x3 2 2 roundingImage 0 0 / 4 < 96"
proof -
  have "divScalar 384 4 = 96" by (simp add: divScalar_def fl32_numeral)
  then have "sendImageToPBO 2 2 2 roundingImage 0 0 = Some (0, Uchar4 96 96 96 0)"
    by (simp add: sendImageToPBO_def roundingImage_sum f2i_def)
  moreover have "blockSum x3 2 2 roundingImage 0 0 = 255 + 2164260735 / 16777216"
  proof -
    have "(0::real) \<le> 8487297 / 16777216" "(8487297 / 16777216 :: real) \<le> 1" by simp_all
    then have c: "clampf (8487297 / 16777216) 0 1 = 8487297 / 16777216"
      unfolding clampf_def by (simp only: max_absorb1 min_absorb1)
    have c0: "clampf 0 0 1 = 0" "clampf 1 0 1 = 1" by (simp_all add: clampf_def)
    show ?thesis
      by (simp add: blockSum_def roundingImage_def lessThan_Suc numeral_2_eq_2 c c0)
  qed
  ultimately show ?thesis by simp
qed

subsection \<open>Vertex stage\<close>

text \<open>
  C3, as the program has it. For every vertex the kernel processes (\<open>vid\<close> below
  \<open>numVertices\<close>, reading inside its arrays, with \<open>clip.w \<noteq> 0\<close>), the stored position has
  \<open>x = 0.5 * W * (clip.x / clip.w + 1)\<close>, \<open>y = 0.5 * H * (1 - clip.y / clip.w)\<close>,
  \<open>z = - clip.z / clip.w\<close>, and its \<open>w\<close> is \<open>clip.w / clip.w = 1\<close>: the division divides
  \<open>w\<close> too, and the clip-space \<open>w\<close> is not kept. The position is stored whether or not
  the normal can be normalized.
\<close>

theorem vertex_position_w_is_one:
  assumes "int vid < numVerts"
      and "vertexReadsInBounds primitive vid"
      and "clip = clipPosition MVP (dev_position primitive ! vid)"
      and "w4 clip \<noteq> 0"
  shows "\<exists>v. vertexTransformAndAssembly numVerts primitive MVP MV MV_normal width height vid
                = Some (Inr v)
           \<and> st_pos v = Some (Vec4 (1/2 * real_of_int width * (x4 clip / w4 clip + 1))
                                    (1/2 * real_of_int height * (1 - y4 clip / w4 clip))
                                    (- (z4 clip / w4 clip)) 1)"
  using assms
  by (auto simp add: vertexReadsInBounds_def vertexTransformAndAssembly_def bindF_def readAt_def
        divideByW_def windowPosition_def clipPosition_def Let_def split: option.splits)

text \<open>
  The vertex with the normal \<open>(0, 0, 0)\<close>: its window position is stored, its normal is
  not a number.
\<close>

theorem vertex_position_w_is_one_witness:
  "\<exists>v. vertexTransformAndAssembly 1 zeroNormalGroup doubleW identity4 identity3 8 8 0
          = Some (Inr v)
       \<and> st_pos v = Some (Vec4 6 2 (1/2) 1) \<and> st_eyeNor v = None"
proof -
  have g: "int 0 < 1" by simp
  have r: "vertexReadsInBounds zeroNormalGroup 0"
    by (simp add: vertexReadsInBounds_def zeroNormalGroup_def oneVertexGroup_def)
  have clip: "Vec4 1 1 (-1) 2 = clipPosition doubleW (dev_position zeroNormalGroup ! 0)"
    by (simp add: zeroNormalGroup_def oneVertexGroup_def doubleW_def clipPosition_def mat4_mul_def
          add4_def scale4_def)
  have w: "w4 (Vec4 1 1 (-1) 2) \<noteq> 0" by simp
  obtain v where v: "vertexTransformAndAssembly 1 zeroNormalGroup doubleW identity4 identity3 8 8 0
                       = Some (Inr v)"
    and p: "st_pos v = Some (Vec4 6 2 (1/2) 1)"
    using vertex_position_w_is_one [OF g r clip w, of identity4 identity3 8 8] by auto
  have "st_eyeNor v = None"
    using v
    by (auto simp add: vertexTransformAndAssembly_def zeroNormalGroup_def oneVertexGroup_def
          identity3_def mat3_mul_def add3_def scale3_def normalize_def dot3_def bindF_def
          readAt_def Let_def)
  then show ?thesis using v p by blast
qed

text \<open>
  A vertex at \<open>(1, 1, -1)\<close> under a projection that gives it the clip-space \<open>w = 2\<close>, on
  an 8 by 8 viewport: the stored \<open>w\<close> is 1, not 2.
\<close>

theorem vertex_w_not_clip_w:
  "clipPosition doubleW (dev_position oneVertexGroup ! 0) = Vec4 1 1 (-1) 2
   \<and> vertexTransformAndAssembly 1 oneVertexGroup doubleW identity4 identity3 8 8 0
     = Some (Inr \<lparr>st_eyePos = Vec3 1 1 (-1), st_pos = Some (Vec4 6 2 (1/2) 1),
                  st_eyeNor = Some (Vec3 0 0 1), st_texcoord0 = Vec2 0 0,
                  st_dev_diffuseTex = None, st_texHeight = 0, st_texWidth = 0,
                  st_col = Vec3 (1/2) 0 0\<rparr>)"
  by (simp add: vertexTransformAndAssembly_def oneVertexGroup_def doubleW_def identity3_def
        identity4_def clipPosition_def mat4_mul_def mat3_mul_def add4_def scale4_def add3_def
        scale3_def normalize_def dot3_def bindF_def readAt_def windowPosition_def
        divideByW_def debugTint_def)

text \<open>A thread beyond the vertices of the group stores nothing.\<close>

lemma vertex_guard:
  "\<not> int vid < numVerts \<Longrightarrow>
     vertexTransformAndAssembly numVerts primitive MVP MV MV_normal width height vid = None"
  by (simp add: vertexTransformAndAssembly_def)

subsection \<open>Texture sampling\<close>

text \<open>
  C5. On the 2 by 2 texture (red, green; blue, white) the sampler returns the
  specified \<open>(0.5, 0.5, 0.5)\<close> at \<open>uv = (0.5, 0.5)\<close>, where the two fractions are equal.
  At \<open>uv = (0.5, 0)\<close> the specified blend is half red, half green (the horizontal
  neighbour); the program returns half red, half blue: it blends the vertical
  neighbours by the fraction of \<open>u\<close> and the horizontal ones by the fraction of \<open>v\<close>.
\<close>

theorem bilinear_axes_swapped:
  "sampleFromTextureBilinear rgbwTexture (Vec2 (1/2) (1/2)) 2 2 = Inr (Vec3 (1/2) (1/2) (1/2))
   \<and> sampleFromTextureBilinear rgbwTexture (Vec2 (1/2) 0) 2 2 = Inr (Vec3 (1/2) 0 (1/2))
   \<and> specBilinear rgbwTexture (Vec2 (1/2) 0) 2 2 = Inr (Vec3 (1/2) (1/2) 0)"
  by (simp add: rgbwTexture_def sampleFromTextureBilinear_def bilinear_ids_def
        specBilinear_def specTexel_def sampleFromTexture_def div3_def texel_reads_def in_texture_def
        bindF_def f2i_def clampi_def mix3_def add3_def scale3_def Let_def)

lemma sqrt_quarter: "sqrt (1/4) = 1/2"
  by (simp add: real_sqrt_divide)

lemma texturedTriangle_corner:
  "computeFragment texturedTriangle (Vec3 1 0 0)
     = \<lparr>f_color = Some (Vec3 1 0 0), f_eyePos = Some (Vec3 0 0 (-1)),
        f_eyeNor = Some (Vec3 0 0 1), f_dev_diffuseTex = Some rgbwTexture,
        f_uvStart = Some 18, f_bilinearUV = Some (Vec2 2 2), f_texWidth = 2, f_texHeight = 2\<rparr>"
  by (simp add: computeFragment_def texturedTriangle_def texturedVertex_def newBaryDepth_def
        normalize_def dot3_def add3_def scale3_def div3_def add2_def scale2_def div2_def
        f2i_def Let_def sqrt_quarter)

lemma texturedTriangle_request:
  "map_option rq_fragment (pixelRequest texturedTriangle (triangleOf texturedTriangle) 8 0 0)
     = Some (computeFragment texturedTriangle (Vec3 1 0 0))"
proof -
  have tri: "triangleOf texturedTriangle = [Vec3 0 0 (1/2), Vec3 4 0 (1/2), Vec3 0 4 (1/2)]"
    by (simp add: triangleOf_def texturedTriangle_def texturedVertex_def)
  show ?thesis
    unfolding tri
    by (simp add: pixelRequest_def calculateBarycentricCoordinate_def calculateSignedArea_def
          isBarycentricCoordInBounds_def Let_def)
qed

lemma corner_sample_faults:
  "bilinear_ids (Vec2 2 2) 2 2 = [18, 12, 15, 9]"
  "int (length rgbwTexture) = 3 * 2 * 2"
  "sampleFromTextureBilinear rgbwTexture (Vec2 2 2) 2 2 = Inl OutOfBounds"
  "sampleFromTexture rgbwTexture 18 = Inl OutOfBounds"
  by (simp_all add: rgbwTexture_def sampleFromTextureBilinear_def bilinear_ids_def
        sampleFromTexture_def div3_def texel_reads_def in_texture_def bindF_def f2i_def clampi_def Let_def)

text \<open>
  C6. A triangle whose first vertex has the texture coordinate \<open>(1, 1)\<close> on a 2 by 2
  texture of 12 bytes. At the pixel of that vertex the rasterizer stores
  \<open>bilinearUV = (2, 2) = (texW, texH)\<close> and \<open>uvStart = 18\<close>. The bilinear sampler clamps
  \<open>u + 1\<close> and \<open>v + 1\<close> but not \<open>u\<close> and \<open>v\<close>: its start indices are 18, 12, 15 and 9, and
  the first read is outside the texture; so is the nearest sampler's read at 18.
\<close>

theorem texture_corner_read_out_of_bounds:
  "map_option rq_fragment (pixelRequest texturedTriangle (triangleOf texturedTriangle) 8 0 0)
     = Some (computeFragment texturedTriangle (Vec3 1 0 0))
   \<and> f_bilinearUV (computeFragment texturedTriangle (Vec3 1 0 0)) = Some (Vec2 2 2)
   \<and> f_uvStart (computeFragment texturedTriangle (Vec3 1 0 0)) = Some 18
   \<and> bilinear_ids (Vec2 2 2) 2 2 = [18, 12, 15, 9]
   \<and> int (length rgbwTexture) = 3 * 2 * 2
   \<and> sampleFromTextureBilinear rgbwTexture (Vec2 2 2) 2 2 = Inl OutOfBounds
   \<and> sampleFromTexture rgbwTexture 18 = Inl OutOfBounds
   \<and> shade (computeFragment texturedTriangle (Vec3 1 0 0)) = Inl OutOfBounds"
proof -
  have "shade (computeFragment texturedTriangle (Vec3 1 0 0)) = Inl OutOfBounds"
    by (simp add: texturedTriangle_corner shade_def baseColor_def finite_or_fault_def
          corner_sample_faults bindF_def)
  then show ?thesis
    using texturedTriangle_request corner_sample_faults
    by (simp add: texturedTriangle_corner)
qed

subsection \<open>Fragment shader\<close>

lemma normalize_nonzero: "v \<noteq> zero3 \<Longrightarrow> normalize v \<noteq> None"
  by (cases v)
     (auto simp add: normalize_def dot3_def zero3_def sum_squares_eq_zero_iff
        add_nonneg_eq_0_iff)

lemma sub3_zero: "sub3 a b = zero3 \<longleftrightarrow> a = b"
  by (cases a; cases b) (auto simp add: sub3_def zero3_def)

lemma pixel_index_in_range:
  assumes "x < (w::nat)" "y < h"
  shows "x + y * w < w * h"
proof -
  have "Suc y * w \<le> h * w" using assms(2) by (intro mult_le_mono1) simp
  then show ?thesis using assms(1) by (simp add: mult.commute)
qed

lemma away_base: "baseColor awayFragment = Inr (Vec3 1 1 1)"
  by (simp add: baseColor_def awayFragment_def finite_or_fault_def bindF_def
        sampleFromTextureBilinear_def bilinear_ids_def sampleFromTexture_def div3_def texel_reads_def
        in_texture_def f2i_def clampi_def mix3_def add3_def scale3_def Let_def)

lemma away_light:
  "normalize (sub3 lightPos (Vec3 0 0 (-1)))
     = Some (scale3 (Vec3 (1/2) (1/5) (17/10)) (1 / sqrt (159/50)))"
  by (simp add: normalize_def lightPos_def sub3_def dot3_def)

lemma away_lambert_negative: "1/10 - 17 / (10 * sqrt (159/50)) < 0"
proof -
  have "sqrt (159/50) < 17" by (rule real_less_lsqrt) simp_all
  moreover have "0 < sqrt (159/50)" by simp
  ultimately show ?thesis by (simp add: field_simps)
qed

text \<open>
  C4, as the program has it. For every pixel shaded in lit mode (a finite fragment
  whose eye position is not the light's), the framebuffer value is
  \<open>baseColor * lambert\<close> with \<open>lightDir = normalize((0.5, 0.2, 0.7) - eyePos)\<close> and
  \<open>lambert = dot(lightDir, eyeNor) + 0.1\<close>: the dot product is not clamped at zero.
\<close>

theorem render_lambert_unclamped:
  assumes "x < w" "y < h" "length fragmentBuffer = w * h"
      and "f = fragmentBuffer ! (x + y * w)"
      and "baseColor f = Inr color" "f_eyePos f = Some eyePos" "f_eyeNor f = Some eyeNor"
      and "eyePos \<noteq> lightPos"
  shows "\<exists>lightDir. normalize (sub3 lightPos eyePos) = Some lightDir
           \<and> render w h fragmentBuffer x y
               = Some (x + y * w, Inr (scale3 color (dot3 lightDir eyeNor + 1/10)))"
proof -
  have inside: "x + y * w < length fragmentBuffer"
    using pixel_index_in_range [OF assms(1,2)] assms(3) by simp
  obtain lightDir where l: "normalize (sub3 lightPos eyePos) = Some lightDir"
    using normalize_nonzero [of "sub3 lightPos eyePos"] assms(8) by (auto simp add: sub3_zero)
  have "shade f = Inr (scale3 color (dot3 lightDir eyeNor + 1/10))"
    using assms(5,6,7) l by (simp add: shade_def bindF_def finite_or_fault_def)
  then show ?thesis
    using assms(1,2,4) inside l by (simp add: render_def readAt_def bindF_def)
qed

theorem render_lambert_unclamped_witness:
  "\<exists>lightDir. normalize (sub3 lightPos (Vec3 0 0 (-1))) = Some lightDir
     \<and> render 1 1 [awayFragment] 0 0
         = Some (0, Inr (scale3 (Vec3 1 1 1) (dot3 lightDir (Vec3 0 0 (-1)) + 1/10)))"
proof -
  have f: "awayFragment = [awayFragment] ! (0 + 0 * 1)" by simp
  have p: "f_eyePos awayFragment = Some (Vec3 0 0 (-1))"
    and n: "f_eyeNor awayFragment = Some (Vec3 0 0 (-1))"
    by (simp_all add: awayFragment_def)
  have d: "Vec3 0 0 (-1) \<noteq> lightPos" by (simp add: lightPos_def)
  show ?thesis
    using render_lambert_unclamped [of 0 1 0 1 "[awayFragment]", OF _ _ _ f away_base p n d]
    by simp
qed

text \<open>
  A fragment whose normal faces away from the light: the specified Lambert term is
  the ambient 0.1 and the specified colour \<open>(0.1, 0.1, 0.1)\<close>; the program's term is
  \<open>0.1 - 1.7 / sqrt 3.18\<close>, below zero, and the stored colour is negative.
\<close>

theorem lambert_below_ambient:
  "render 1 1 [awayFragment] 0 0
     = Some (0, Inr (Vec3 (1/10 - 17 / (10 * sqrt (159/50)))
                          (1/10 - 17 / (10 * sqrt (159/50)))
                          (1/10 - 17 / (10 * sqrt (159/50)))))
   \<and> 1/10 - 17 / (10 * sqrt (159/50)) < 0
   \<and> specShade awayFragment = Inr (Vec3 (1/10) (1/10) (1/10))"
proof -
  have "shade awayFragment
          = Inr (Vec3 (1/10 - 17 / (10 * sqrt (159/50))) (1/10 - 17 / (10 * sqrt (159/50)))
                      (1/10 - 17 / (10 * sqrt (159/50))))"
    by (simp add: shade_def away_base bindF_def finite_or_fault_def)
       (simp add: awayFragment_def away_light dot3_def scale3_def)
  moreover have "specShade awayFragment = Inr (Vec3 (1/10) (1/10) (1/10))"
    by (simp add: specShade_def away_base bindF_def finite_or_fault_def)
       (simp add: awayFragment_def away_light dot3_def scale3_def)
  ultimately show ?thesis
    using away_lambert_negative by (simp add: render_def readAt_def bindF_def)
qed

subsection \<open>The fragments of the rasterizer\<close>

lemma dot3_scale3: "dot3 (scale3 v s) (scale3 v s) = dot3 v v * (s * s)"
  by (simp add: dot3_def scale3_def algebra_simps)

lemma length3_normalize:
  assumes "normalize v = Some e"
  shows "length3 e = 1"
proof -
  have nz: "dot3 v v \<noteq> 0" and e: "e = scale3 v (1 / sqrt (dot3 v v))"
    using assms by (auto simp add: normalize_def split: if_splits)
  have "0 \<le> dot3 v v" by (simp add: dot3_def)
  with nz have pos: "0 < dot3 v v" by simp
  have "dot3 e e = dot3 v v * ((1 / sqrt (dot3 v v)) * (1 / sqrt (dot3 v v)))"
    unfolding e by (rule dot3_scale3)
  also have "\<dots> = 1" using pos by simp
  finally show ?thesis by (simp add: length3_def)
qed

text \<open>Every request of a thread comes from one pixel of the scanned box, and conversely.\<close>

lemma set_map_filter: "set (List.map_filter f xs) = {y. \<exists>x\<in>set xs. f x = Some y}"
  by (induction xs) (auto split: option.splits)

lemma fragmentRequests_iff_aux:
  "r \<in> set (concat (map (\<lambda>row. List.map_filter (\<lambda>col. g col row) [c..d]) [a..b])) \<longleftrightarrow>
     (\<exists>row col. a \<le> row \<and> row \<le> b \<and> c \<le> col \<and> col \<le> d \<and> g col row = Some r)"
  by (simp add: set_map_filter Bex_def)

lemma fragmentRequests_iff:
  "r \<in> set (fragmentRequests p height width) \<longleftrightarrow>
     (\<exists>row col.
        f2i (y3 (aabb_min (getAABBForTriangle (triangleOf p) (real_of_int width)
                             (real_of_int height)))) \<le> row \<and>
        row \<le> \<lfloor>y3 (aabb_max (getAABBForTriangle (triangleOf p) (real_of_int width)
                             (real_of_int height)))\<rfloor> \<and>
        f2i (x3 (aabb_min (getAABBForTriangle (triangleOf p) (real_of_int width)
                             (real_of_int height)))) \<le> col \<and>
        col \<le> \<lfloor>x3 (aabb_max (getAABBForTriangle (triangleOf p) (real_of_int width)
                             (real_of_int height)))\<rfloor> \<and>
        pixelRequest p (triangleOf p) width col row = Some r)"
  unfolding fragmentRequests_def Let_def by (rule fragmentRequests_iff_aux)

lemma pixelRequest_fragment:
  assumes "pixelRequest p tri width col row = Some r"
  shows "rq_fragment r = computeFragment p (rq_baryCoords r)"
    and "rq_pixelIdx r = col + row * width"
    and "rq_newDepth r = depthKey (rq_baryDepth r)"
    and "isBarycentricCoordInBounds (rq_baryCoords r)"
    and "rq_baryDepth r = getZAtCoordinate (rq_baryCoords r) tri"
  using assms by (auto simp add: pixelRequest_def Let_def split: option.splits if_splits)

lemma originTriangle_box:
  "triangleOf originTriangle = [Vec3 0 0 (1/2), Vec3 2 0 (1/2), Vec3 0 2 (1/2)]"
  "getAABBForTriangle [Vec3 0 0 (1/2), Vec3 2 0 (1/2), Vec3 0 2 (1/2)] 8 8
     = \<lparr>aabb_min = Vec3 0 0 (1/2), aabb_max = Vec3 2 2 (1/2)\<rparr>"
  by (simp_all add: triangleOf_def originTriangle_def originVertex_def getAABBForTriangle_def)

lemma originTriangle_pixels:
  "map_option (\<lambda>r. (rq_pixelIdx r, rq_baryCoords r))
     (pixelRequest originTriangle (triangleOf originTriangle) 8 0 0) = Some (0, Vec3 1 0 0)"
  "map_option (\<lambda>r. (rq_pixelIdx r, rq_baryCoords r))
     (pixelRequest originTriangle (triangleOf originTriangle) 8 1 0) = Some (1, Vec3 (1/2) (1/2) 0)"
  unfolding originTriangle_box
  by (simp_all add: pixelRequest_def calculateBarycentricCoordinate_def calculateSignedArea_def
        isBarycentricCoordInBounds_def Let_def)

text \<open>
  C10, as the program has it. For every fragment the rasterizer hands to the
  fragment buffer, the stored \<open>eyePos\<close> is the normalization of the affine barycentric
  combination of the three eye-space positions. It has unit length whenever that
  combination is not the zero vector; when it is, the stored value is not a number.
  Either way the magnitude of the eye-space position is not kept.
\<close>

theorem fragment_eyePos_unit_unless_zero:
  assumes "r \<in> set (fragmentRequests p height width)"
      and "c = affine3 (rq_baryCoords r) (vo_eyePos (p_v p ! 0)) (vo_eyePos (p_v p ! 1))
                 (vo_eyePos (p_v p ! 2))"
  shows "f_eyePos (rq_fragment r) = normalize c
         \<and> (c = zero3 \<longrightarrow> f_eyePos (rq_fragment r) = None)
         \<and> (c \<noteq> zero3 \<longrightarrow> (\<exists>e. f_eyePos (rq_fragment r) = Some e \<and> length3 e = 1))"
proof -
  obtain col row where "pixelRequest p (triangleOf p) width col row = Some r"
    using assms(1) by (auto simp add: fragmentRequests_iff)
  then have "rq_fragment r = computeFragment p (rq_baryCoords r)"
    by (rule pixelRequest_fragment)
  then have eq: "f_eyePos (rq_fragment r) = normalize c"
    by (simp add: computeFragment_def Let_def assms(2) affine3_def)
  moreover have "c = zero3 \<Longrightarrow> normalize c = None"
    by (simp add: normalize_def dot3_def zero3_def)
  moreover have "c \<noteq> zero3 \<Longrightarrow> \<exists>e. normalize c = Some e \<and> length3 e = 1"
    using normalize_nonzero [of c] length3_normalize [of c] by auto
  ultimately show ?thesis by simp
qed

theorem fragment_eyePos_unit_unless_zero_witness:
  "\<exists>r. r \<in> set (fragmentRequests originTriangle 8 8) \<and> rq_pixelIdx r = 0
      \<and> rq_baryCoords r = Vec3 1 0 0
      \<and> f_eyePos (rq_fragment r) = Some (Vec3 (-1) 0 0) \<and> length3 (Vec3 (-1) 0 0) = 1"
proof -
  obtain r where r: "pixelRequest originTriangle (triangleOf originTriangle) 8 0 0 = Some r"
    and i: "rq_pixelIdx r = 0" and b: "rq_baryCoords r = Vec3 1 0 0"
    using originTriangle_pixels(1) by auto
  have m: "r \<in> set (fragmentRequests originTriangle 8 8)"
    unfolding fragmentRequests_iff using r
    by (intro exI [of _ 0]) (simp add: originTriangle_box f2i_def)
  have c: "Vec3 (-1) 0 0 = affine3 (rq_baryCoords r) (vo_eyePos (p_v originTriangle ! 0))
             (vo_eyePos (p_v originTriangle ! 1)) (vo_eyePos (p_v originTriangle ! 2))"
    by (simp add: b affine3_def originTriangle_def originVertex_def add3_def scale3_def)
  have "normalize (Vec3 (-1) 0 0) = Some (Vec3 (-1) 0 0)"
    by (simp add: normalize_def dot3_def scale3_def)
  then show ?thesis
    using fragment_eyePos_unit_unless_zero [OF m c] m i b by (auto simp add: zero3_def)
qed

lemma newBaryDepth_eq:
  assumes "z4 (vo_pos (p_v p ! 0)) \<noteq> 0" "z4 (vo_pos (p_v p ! 1)) \<noteq> 0"
      and "z4 (vo_pos (p_v p ! 2)) \<noteq> 0"
      and "x3 l / z4 (vo_pos (p_v p ! 0)) + y3 l / z4 (vo_pos (p_v p ! 1))
             + z3 l / z4 (vo_pos (p_v p ! 2)) \<noteq> 0"
  shows "newBaryDepth p l
           = Some (1 / (x3 l / z4 (vo_pos (p_v p ! 0)) + y3 l / z4 (vo_pos (p_v p ! 1))
                          + z3 l / z4 (vo_pos (p_v p ! 2))))"
  using assms by (simp add: newBaryDepth_def Let_def)

lemma div3_scale3: "div3 (scale3 a s) z = scale3 a (s / z)"
  by (simp add: div3_def scale3_def)

lemma div2_scale2: "div2 (scale2 a s) z = scale2 a (s / z)"
  by (simp add: div2_def scale2_def)

lemma slopedTriangle_box:
  "triangleOf slopedTriangle = [Vec3 0 0 (1/2), Vec3 4 0 (1/4), Vec3 0 4 (1/8)]"
  "getAABBForTriangle [Vec3 0 0 (1/2), Vec3 4 0 (1/4), Vec3 0 4 (1/8)] 8 8
     = \<lparr>aabb_min = Vec3 0 0 (1/8), aabb_max = Vec3 4 4 (1/2)\<rparr>"
  by (simp_all add: triangleOf_def slopedTriangle_def slopedVertex_def getAABBForTriangle_def)

lemma slopedTriangle_pixel:
  "map_option (\<lambda>r. (rq_pixelIdx r, rq_baryCoords r))
     (pixelRequest slopedTriangle (triangleOf slopedTriangle) 8 1 1)
     = Some (9, Vec3 (1/2) (1/4) (1/4))"
  unfolding slopedTriangle_box
  by (simp add: pixelRequest_def calculateBarycentricCoordinate_def calculateSignedArea_def
        isBarycentricCoordInBounds_def Let_def)

lemma slopedTriangle_fields:
  "f_bilinearUV (computeFragment slopedTriangle (Vec3 (1/2) (1/4) (1/4))) = Some (Vec2 (1/2) 1)"
  "f_eyePos (computeFragment slopedTriangle (Vec3 (1/2) (1/4) (1/4))) = Some (Vec3 0 0 (-1))"
  by (simp_all add: computeFragment_def Let_def slopedTriangle_def slopedVertex_def
        newBaryDepth_def normalize_def dot3_def add3_def scale3_def add2_def scale2_def div2_def)

text \<open>
  C2, as the program has it. With \<^verbatim>\<open>CORRECT_INTERP\<close> on, for every covered pixel whose
  three window depths \<open>z_k = v[k].pos.z\<close> are not zero (nor is \<open>\<Sum> \<lambda>k / z_k\<close>): \<open>col\<close> and
  \<open>texcoord\<close> are interpolated as \<open>Z * (\<lambda>0 * A0 / z0 + \<lambda>1 * A1 / z1 + \<lambda>2 * A2 / z2)\<close> with
  \<open>Z = 1 / (\<lambda>0 / z0 + \<lambda>1 / z1 + \<lambda>2 / z2)\<close>, weighted by the window depth and not by
  \<open>pos.w\<close>; the colour is then normalized and the texture coordinate is stored scaled
  by the texture's width and height; \<open>eyePos\<close> and \<open>eyeNor\<close> are the normalized affine
  combinations \<open>\<Sum> \<lambda>k * Ak\<close>, without perspective correction.
\<close>

theorem fragment_attributes_weighted_by_depth:
  assumes "r \<in> set (fragmentRequests p height width)"
      and "l = rq_baryCoords r"
      and "v0 = p_v p ! 0" "v1 = p_v p ! 1" "v2 = p_v p ! 2"
      and "z0 = z4 (vo_pos v0)" "z1 = z4 (vo_pos v1)" "z2 = z4 (vo_pos v2)"
      and "z0 \<noteq> 0" "z1 \<noteq> 0" "z2 \<noteq> 0" "x3 l / z0 + y3 l / z1 + z3 l / z2 \<noteq> 0"
      and "t = specPerspective2 l z0 z1 z2 (vo_texcoord0 v0) (vo_texcoord0 v1) (vo_texcoord0 v2)"
  shows "f_color (rq_fragment r)
           = normalize (specPerspective3 l z0 z1 z2 (vo_col v0) (vo_col v1) (vo_col v2))
         \<and> f_bilinearUV (rq_fragment r)
           = Some (Vec2 (x2 t * real_of_int (vo_texWidth v0)) (y2 t * real_of_int (vo_texHeight v0)))
         \<and> f_eyePos (rq_fragment r)
           = normalize (affine3 l (vo_eyePos v0) (vo_eyePos v1) (vo_eyePos v2))
         \<and> f_eyeNor (rq_fragment r)
           = normalize (affine3 l (vo_eyeNor v0) (vo_eyeNor v1) (vo_eyeNor v2))"
proof -
  obtain col row where "pixelRequest p (triangleOf p) width col row = Some r"
    using assms(1) by (auto simp add: fragmentRequests_iff)
  then have f: "rq_fragment r = computeFragment p l"
    unfolding assms(2) by (rule pixelRequest_fragment)
  have nbd: "newBaryDepth p l = Some (1 / (x3 l / z0 + y3 l / z1 + z3 l / z2))"
    using assms(9-12) unfolding assms(6-8) assms(3-5) by (rule newBaryDepth_eq)
  show ?thesis
    using nbd unfolding f assms(13) assms(6-8) assms(3-5)
    by (simp add: computeFragment_def Let_def div3_scale3 div2_scale2 specPerspective3_def
          specPerspective2_def affine3_def)
qed

theorem fragment_attributes_weighted_by_depth_witness:
  "\<exists>r. r \<in> set (fragmentRequests slopedTriangle 8 8) \<and> rq_pixelIdx r = 9
      \<and> rq_baryCoords r = Vec3 (1/2) (1/4) (1/4)
      \<and> f_bilinearUV (rq_fragment r) = Some (Vec2 (1/2) 1)
      \<and> f_eyePos (rq_fragment r) = normalize (Vec3 0 0 (-2))"
proof -
  obtain r where r: "pixelRequest slopedTriangle (triangleOf slopedTriangle) 8 1 1 = Some r"
    and i: "rq_pixelIdx r = 9" and b: "Vec3 (1/2) (1/4) (1/4) = rq_baryCoords r"
    using slopedTriangle_pixel by auto
  have m: "r \<in> set (fragmentRequests slopedTriangle 8 8)"
    unfolding fragmentRequests_iff using r
    by (intro exI [of _ 1]) (simp add: slopedTriangle_box f2i_def)
  have z: "z4 (vo_pos (p_v slopedTriangle ! 0)) = 1/2" "z4 (vo_pos (p_v slopedTriangle ! 1)) = 1/4"
    "z4 (vo_pos (p_v slopedTriangle ! 2)) = 1/8"
    by (simp_all add: slopedTriangle_def slopedVertex_def)
  have t: "Vec2 (1/4) (1/2)
             = specPerspective2 (Vec3 (1/2) (1/4) (1/4)) (1/2) (1/4) (1/8)
                 (vo_texcoord0 (p_v slopedTriangle ! 0)) (vo_texcoord0 (p_v slopedTriangle ! 1))
                 (vo_texcoord0 (p_v slopedTriangle ! 2))"
    by (simp add: specPerspective2_def slopedTriangle_def slopedVertex_def add2_def scale2_def)
  have "f_bilinearUV (rq_fragment r) = Some (Vec2 (1/2) 1)
        \<and> f_eyePos (rq_fragment r) = normalize (Vec3 0 0 (-2))"
    using fragment_attributes_weighted_by_depth
            [OF m b refl refl refl z [symmetric] _ _ _ _ t]
    by (simp add: slopedTriangle_def slopedVertex_def affine3_def add3_def scale3_def)
  then show ?thesis using m i b by auto
qed

text \<open>
  On that triangle, at pixel \<open>(1, 1)\<close> with \<open>\<lambda> = (1/2, 1/4, 1/4)\<close>: every \<open>pos.w\<close> is 1,
  so the claimed formula gives the affine values, the texture coordinate
  \<open>(1/4, 1/4)\<close> and the eye position \<open>(0, 0, -2)\<close>. The program stores
  \<open>bilinearUV = (1/2, 1)\<close>, which is the texture coordinate \<open>(1/4, 1/2)\<close> times the
  texture size 2, and the eye position \<open>(0, 0, -1)\<close>.
\<close>

theorem attributes_not_weighted_by_w:
  "map_option (\<lambda>r. (rq_pixelIdx r, rq_baryCoords r, f_bilinearUV (rq_fragment r),
                     f_eyePos (rq_fragment r)))
     (pixelRequest slopedTriangle (triangleOf slopedTriangle) 8 1 1)
     = Some (9, Vec3 (1/2) (1/4) (1/4), Some (Vec2 (1/2) 1), Some (Vec3 0 0 (-1)))
   \<and> map (\<lambda>k. w4 (vo_pos (p_v slopedTriangle ! k))) [0, 1, 2] = [1, 1, 1]
   \<and> specPerspective2 (Vec3 (1/2) (1/4) (1/4)) 1 1 1 (Vec2 0 0) (Vec2 1 0) (Vec2 0 1)
     = Vec2 (1/4) (1/4)
   \<and> specPerspective3 (Vec3 (1/2) (1/4) (1/4)) 1 1 1 (Vec3 0 0 (-2)) (Vec3 0 0 (-2))
       (Vec3 0 0 (-2)) = Vec3 0 0 (-2)"
proof -
  obtain r where r: "pixelRequest slopedTriangle (triangleOf slopedTriangle) 8 1 1 = Some r"
    and i: "rq_pixelIdx r = 9" and b: "rq_baryCoords r = Vec3 (1/2) (1/4) (1/4)"
    using slopedTriangle_pixel by auto
  have "rq_fragment r = computeFragment slopedTriangle (Vec3 (1/2) (1/4) (1/4))"
    using pixelRequest_fragment(1) [OF r] b by simp
  then show ?thesis
    using r i b
    by (simp add: slopedTriangle_fields)
       (simp add: slopedTriangle_def slopedVertex_def specPerspective2_def specPerspective3_def
          add2_def scale2_def add3_def scale3_def)
qed

subsection \<open>Rasterizer: the lock and the depth buffer\<close>

text \<open>The seven things a step of thread \<open>tid\<close> can be.\<close>

lemma step_cases [case_names idle spin acquire test_pass test_fail store release]:
  assumes "\<lbrakk>\<not> (tid < length (threads s)
                \<and> cur (threads s ! tid) < length (requests (threads s ! tid)));
             step tid s = s\<rbrakk> \<Longrightarrow> P"
      and "\<And>t r. \<lbrakk>tid < length (threads s); t = threads s ! tid; cur t < length (requests t);
             r = requests t ! cur t; loc t = AtCAS; dev_mutex s (rq_pixelIdx r) \<noteq> 0;
             step tid s = s\<rbrakk> \<Longrightarrow> P"
      and "\<And>t r. \<lbrakk>tid < length (threads s); t = threads s ! tid; cur t < length (requests t);
             r = requests t ! cur t; loc t = AtCAS; dev_mutex s (rq_pixelIdx r) = 0;
             step tid s = s\<lparr>dev_mutex := (dev_mutex s)(rq_pixelIdx r := 1),
                            threads := (threads s)[tid := t\<lparr>loc := AtDepthTest\<rparr>]\<rparr>\<rbrakk> \<Longrightarrow> P"
      and "\<And>t r. \<lbrakk>tid < length (threads s); t = threads s ! tid; cur t < length (requests t);
             r = requests t ! cur t; loc t = AtDepthTest;
             rq_newDepth r < dev_depth s (rq_pixelIdx r);
             step tid s = s\<lparr>threads := (threads s)[tid := t\<lparr>loc := AtWrite\<rparr>]\<rparr>\<rbrakk> \<Longrightarrow> P"
      and "\<And>t r. \<lbrakk>tid < length (threads s); t = threads s ! tid; cur t < length (requests t);
             r = requests t ! cur t; loc t = AtDepthTest;
             \<not> rq_newDepth r < dev_depth s (rq_pixelIdx r);
             step tid s = s\<lparr>threads := (threads s)[tid := t\<lparr>loc := AtRelease\<rparr>]\<rparr>\<rbrakk> \<Longrightarrow> P"
      and "\<And>t r. \<lbrakk>tid < length (threads s); t = threads s ! tid; cur t < length (requests t);
             r = requests t ! cur t; loc t = AtWrite;
             step tid s = s\<lparr>dev_depth := (dev_depth s)(rq_pixelIdx r := rq_newDepth r),
                            dev_fragmentBuffer := (dev_fragmentBuffer s)(rq_pixelIdx r := rq_fragment r),
                            threads := (threads s)[tid := t\<lparr>loc := AtRelease\<rparr>]\<rparr>\<rbrakk> \<Longrightarrow> P"
      and "\<And>t r. \<lbrakk>tid < length (threads s); t = threads s ! tid; cur t < length (requests t);
             r = requests t ! cur t; loc t = AtRelease;
             step tid s = s\<lparr>dev_mutex := (dev_mutex s)(rq_pixelIdx r := 0),
                            threads := (threads s)[tid := t\<lparr>cur := cur t + 1, loc := AtCAS\<rparr>]\<rparr>\<rbrakk> \<Longrightarrow> P"
  shows P
proof (cases "tid < length (threads s) \<and> cur (threads s ! tid) < length (requests (threads s ! tid))")
  case False
  then have "step tid s = s" by (auto simp add: step_def Let_def)
  with False show ?thesis by (rule assms(1))
next
  case True
  define t where "t = threads s ! tid"
  define r where "r = requests t ! cur t"
  note live = True [folded t_def]
  show ?thesis
  proof (cases "loc t")
    case AtCAS
    show ?thesis
    proof (cases "dev_mutex s (rq_pixelIdx r) = 0")
      case True
      have "step tid s = s\<lparr>dev_mutex := (dev_mutex s)(rq_pixelIdx r := 1),
                            threads := (threads s)[tid := t\<lparr>loc := AtDepthTest\<rparr>]\<rparr>"
        using live AtCAS True by (simp add: step_def Let_def t_def r_def atomicCAS_def)
      then show ?thesis using live AtCAS True t_def r_def by (intro assms(3)) auto
    next
      case False
      have same: "t\<lparr>loc := AtCAS\<rparr> = t" using AtCAS by simp
      have "step tid s = s\<lparr>threads := (threads s)[tid := t\<lparr>loc := AtCAS\<rparr>]\<rparr>"
        using live AtCAS False by (simp add: step_def Let_def t_def r_def atomicCAS_def)
      also have "\<dots> = s" unfolding same by (simp add: t_def)
      finally have "step tid s = s" .
      then show ?thesis using live AtCAS False t_def r_def by (intro assms(2)) auto
    qed
  next
    case AtDepthTest
    show ?thesis
    proof (cases "rq_newDepth r < dev_depth s (rq_pixelIdx r)")
      case True
      have "step tid s = s\<lparr>threads := (threads s)[tid := t\<lparr>loc := AtWrite\<rparr>]\<rparr>"
        using live AtDepthTest True by (simp add: step_def Let_def t_def r_def)
      then show ?thesis using live AtDepthTest True t_def r_def by (intro assms(4)) auto
    next
      case False
      have "step tid s = s\<lparr>threads := (threads s)[tid := t\<lparr>loc := AtRelease\<rparr>]\<rparr>"
        using live AtDepthTest False by (simp add: step_def Let_def t_def r_def)
      then show ?thesis using live AtDepthTest False t_def r_def by (intro assms(5)) auto
    qed
  next
    case AtWrite
    have "step tid s = s\<lparr>dev_depth := (dev_depth s)(rq_pixelIdx r := rq_newDepth r),
                            dev_fragmentBuffer := (dev_fragmentBuffer s)(rq_pixelIdx r := rq_fragment r),
                            threads := (threads s)[tid := t\<lparr>loc := AtRelease\<rparr>]\<rparr>"
      using live AtWrite by (simp add: step_def Let_def t_def r_def)
    then show ?thesis using live AtWrite t_def r_def by (intro assms(6)) auto
  next
    case AtRelease
    have "step tid s = s\<lparr>dev_mutex := (dev_mutex s)(rq_pixelIdx r := 0),
                            threads := (threads s)[tid := t\<lparr>cur := cur t + 1, loc := AtCAS\<rparr>]\<rparr>"
      using live AtRelease by (simp add: step_def Let_def t_def r_def)
    then show ?thesis using live AtRelease t_def r_def by (intro assms(7)) auto
  qed
qed

text \<open>The lock invariant holds along every schedule.\<close>

lemma holders_update:
  assumes "tid < length ts"
  shows "holders (ts[tid := t']) i
           = (holders ts i - {tid}) \<union> (if holding t' = Some i then {tid} else {})"
  using assms by (auto simp add: holders_def nth_list_update)

lemma holders_member: "tid \<in> holders ts i \<longleftrightarrow> tid < length ts \<and> holding (ts ! tid) = Some i"
  by (simp add: holders_def)

lemma lockInv_step:
  assumes "lockInv s"
  shows "lockInv (step tid s)"
proof (cases rule: step_cases [of tid s])
  case idle
  then show ?thesis using assms by simp
next
  case (spin t r)
  then show ?thesis using assms by simp
next
  case (acquire t r)
  have free: "holders (threads s) (rq_pixelIdx r) = {}"
    using assms acquire(6) by (auto simp add: lockInv_def split: if_splits)
  have none: "holding t = None" using acquire(5) by (simp add: holding_def)
  have notin: "tid \<notin> holders (threads s) i" for i
    using none acquire(2) by (simp add: holders_member)
  have new: "holding (t\<lparr>loc := AtDepthTest\<rparr>) = Some (rq_pixelIdx r)"
    using acquire(3,4) by (simp add: holding_def)
  have h: "holders (threads (step tid s)) i
             = holders (threads s) i \<union> (if i = rq_pixelIdx r then {tid} else {})" for i
    using notin [of i] by (auto simp add: acquire(7) holders_update [OF acquire(1)] new)
  show ?thesis
    unfolding lockInv_def h using assms free
    by (auto simp add: acquire(7) lockInv_def)
next
  case (test_pass t r)
  have "holding (t\<lparr>loc := AtWrite\<rparr>) = holding t"
    using test_pass(3,5) by (simp add: holding_def)
  then have h: "holders (threads (step tid s)) i = holders (threads s) i" for i
    using test_pass(1,2)
    by (auto simp add: test_pass(7) holders_update [OF test_pass(1)] holders_member)
  show ?thesis unfolding lockInv_def h using assms by (simp add: test_pass(7) lockInv_def)
next
  case (test_fail t r)
  have "holding (t\<lparr>loc := AtRelease\<rparr>) = holding t"
    using test_fail(3,5) by (simp add: holding_def)
  then have h: "holders (threads (step tid s)) i = holders (threads s) i" for i
    using test_fail(1,2)
    by (auto simp add: test_fail(7) holders_update [OF test_fail(1)] holders_member)
  show ?thesis unfolding lockInv_def h using assms by (simp add: test_fail(7) lockInv_def)
next
  case (store t r)
  have "holding (t\<lparr>loc := AtRelease\<rparr>) = holding t"
    using store(3,5) by (simp add: holding_def)
  then have h: "holders (threads (step tid s)) i = holders (threads s) i" for i
    using store(1,2)
    by (auto simp add: store(6) holders_update [OF store(1)] holders_member)
  show ?thesis unfolding lockInv_def h using assms by (simp add: store(6) lockInv_def)
next
  case (release t r)
  have held: "holding t = Some (rq_pixelIdx r)"
    using release(3,4,5) by (simp add: holding_def)
  then have mine: "tid \<in> holders (threads s) (rq_pixelIdx r)"
    using release(1,2) by (simp add: holders_member)
  then have only: "holders (threads s) (rq_pixelIdx r) = {tid}"
    using assms by (auto simp add: lockInv_def)
  have other: "tid \<notin> holders (threads s) i" if "i \<noteq> rq_pixelIdx r" for i
    using held that release(2) by (simp add: holders_member)
  have gone: "holding (t\<lparr>cur := n, loc := AtCAS\<rparr>) = None" for n
    by (simp add: holding_def)
  have h: "holders (threads (step tid s)) i
             = (if i = rq_pixelIdx r then {} else holders (threads s) i)" for i
    using only other [of i]
    by (auto simp add: release(6) holders_update [OF release(1)] gone)
  show ?thesis
    unfolding lockInv_def h using assms
    by (auto simp add: release(6) lockInv_def)
qed

lemma lockInv_exec: "lockInv s \<Longrightarrow> lockInv (exec schedule s)"
  unfolding exec_def by (induction schedule arbitrary: s) (simp_all add: lockInv_step)

text \<open>The keys settled for a pixel when one thread moves.\<close>

lemma keysAt_snoc:
  "keysAt (rs @ [r]) i = keysAt rs i \<union> (if rq_pixelIdx r = i then {rq_newDepth r} else {})"
  by (auto simp add: keysAt_def)

lemma finite_settledKeys: "finite (settledKeys ts i)"
  by (simp add: settledKeys_def keysAt_def)

lemma settledKeys_iff: "x \<in> settledKeys ts i \<longleftrightarrow> (\<exists>t \<in> set ts. x \<in> keysAt (settled t) i)"
  by (simp add: settledKeys_def)

lemma settledKeys_update:
  assumes "tid < length ts" and "keysAt (settled (ts ! tid)) i \<subseteq> keysAt (settled t') i"
  shows "settledKeys (ts[tid := t']) i = settledKeys ts i \<union> keysAt (settled t') i"
proof (rule set_eqI, rule iffI)
  fix x
  assume "x \<in> settledKeys (ts[tid := t']) i"
  then obtain t where t: "t \<in> set (ts[tid := t'])" "x \<in> keysAt (settled t) i"
    unfolding settledKeys_iff by blast
  have "t = t' \<or> t \<in> set ts"
    using t(1) set_update_subset_insert [of ts tid t'] by blast
  then show "x \<in> settledKeys ts i \<union> keysAt (settled t') i"
    using t(2) unfolding Un_iff settledKeys_iff by blast
next
  fix x
  assume "x \<in> settledKeys ts i \<union> keysAt (settled t') i"
  then consider (new) "x \<in> keysAt (settled t') i"
    | (old) t where "t \<in> set ts" "x \<in> keysAt (settled t) i"
    unfolding Un_iff settledKeys_iff by blast
  then show "x \<in> settledKeys (ts[tid := t']) i"
  proof cases
    case new
    have "t' \<in> set (ts[tid := t'])" using assms(1) by (rule set_update_memI)
    then show ?thesis using new unfolding settledKeys_iff by blast
  next
    case old
    obtain j where j: "j < length ts" "t = ts ! j" using old(1) by (metis in_set_conv_nth)
    show ?thesis
    proof (cases "j = tid")
      case True
      have "t' \<in> set (ts[tid := t'])" using assms(1) by (rule set_update_memI)
      moreover have "x \<in> keysAt (settled t') i" using old(2) assms(2) j(2) True by blast
      ultimately show ?thesis unfolding settledKeys_iff by blast
    next
      case False
      then have "ts[tid := t'] ! j = t" using j by simp
      moreover have "j < length (ts[tid := t'])" using j(1) by simp
      ultimately have "t \<in> set (ts[tid := t'])" using nth_mem by blast
      then show ?thesis using old(2) unfolding settledKeys_iff by blast
    qed
  qed
qed

lemma settledKeys_own:
  assumes "tid < length ts"
  shows "keysAt (settled (ts ! tid)) i \<subseteq> settledKeys ts i"
proof -
  have "ts ! tid \<in> set ts" using assms by simp
  then show ?thesis unfolding settledKeys_def by blast
qed

lemma settledKeys_same:
  assumes "tid < length ts" and "settled t' = settled (ts ! tid)"
  shows "settledKeys (ts[tid := t']) i = settledKeys ts i"
proof -
  have "settledKeys (ts[tid := t']) i = settledKeys ts i \<union> keysAt (settled (ts ! tid)) i"
    using settledKeys_update [OF assms(1), of i t'] assms(2) by simp
  then show ?thesis using settledKeys_own [OF assms(1), of i] by blast
qed

lemma settledKeys_more:
  assumes "tid < length ts" and "settled t' = settled (ts ! tid) @ [r]"
  shows "settledKeys (ts[tid := t']) i
           = settledKeys ts i \<union> (if rq_pixelIdx r = i then {rq_newDepth r} else {})"
proof -
  have "keysAt (settled (ts ! tid)) i \<subseteq> keysAt (settled t') i"
    unfolding assms(2) keysAt_snoc by blast
  then have "settledKeys (ts[tid := t']) i
               = settledKeys ts i \<union> (keysAt (settled (ts ! tid)) i
                   \<union> (if rq_pixelIdx r = i then {rq_newDepth r} else {}))"
    using settledKeys_update [OF assms(1), of i t'] by (simp add: assms(2) keysAt_snoc)
  then show ?thesis using settledKeys_own [OF assms(1), of i] by blast
qed

lemma Min_with_key:
  assumes "finite K"
  shows "Min (insert d0 (K \<union> {d})) = min d (Min (insert (d0::int) K))"
proof -
  have "insert d0 (K \<union> {d}) = insert d (insert d0 K)" by auto
  then show ?thesis using assms by simp
qed

lemma settled_moves:
  "loc t = AtCAS \<Longrightarrow> settled (t\<lparr>loc := AtDepthTest\<rparr>) = settled t"
  "loc t = AtDepthTest \<Longrightarrow> settled (t\<lparr>loc := AtWrite\<rparr>) = settled t"
  "loc t = AtDepthTest \<Longrightarrow> cur t < length (requests t) \<Longrightarrow>
     settled (t\<lparr>loc := AtRelease\<rparr>) = settled t @ [requests t ! cur t]"
  "loc t = AtWrite \<Longrightarrow> cur t < length (requests t) \<Longrightarrow>
     settled (t\<lparr>loc := AtRelease\<rparr>) = settled t @ [requests t ! cur t]"
  "loc t = AtRelease \<Longrightarrow> cur t < length (requests t) \<Longrightarrow>
     settled (t\<lparr>cur := cur t + 1, loc := AtCAS\<rparr>) = settled t"
  by (simp_all add: settled_def take_Suc_conv_app_nth)

text \<open>The depth invariant holds along every schedule, given the lock invariant.\<close>

lemma depthInv_step:
  assumes "lockInv s" and "depthInv d0 s"
  shows "depthInv d0 (step tid s)"
proof (cases rule: step_cases [of tid s])
  case idle
  then show ?thesis using assms(2) by simp
next
  case (spin t r)
  then show ?thesis using assms(2) by simp
next
  case (acquire t r)
  have "settledKeys (threads (step tid s)) i = settledKeys (threads s) i" for i
    using settledKeys_same [OF acquire(1), of "t\<lparr>loc := AtDepthTest\<rparr>" i]
      settled_moves(1) [OF acquire(5)]
    by (simp add: acquire(7) acquire(2))
  then show ?thesis
    using assms(2) acquire(1,2)
    by (auto simp add: depthInv_def acquire(7) nth_list_update)
next
  case (test_pass t r)
  have "settledKeys (threads (step tid s)) i = settledKeys (threads s) i" for i
    using settledKeys_same [OF test_pass(1), of "t\<lparr>loc := AtWrite\<rparr>" i]
      settled_moves(2) [OF test_pass(5)]
    by (simp add: test_pass(7) test_pass(2))
  then show ?thesis
    using assms(2) test_pass(1-4,6)
    by (auto simp add: depthInv_def test_pass(7) nth_list_update)
next
  case (test_fail t r)
  have keys: "settledKeys (threads (step tid s)) i
          = settledKeys (threads s) i \<union> (if rq_pixelIdx r = i then {rq_newDepth r} else {})" for i
    using settledKeys_more [OF test_fail(1), of "t\<lparr>loc := AtRelease\<rparr>" r i]
      settled_moves(3) [OF test_fail(5,3)]
    by (simp add: test_fail(7) test_fail(2) test_fail(4))
  have d: "dev_depth (step tid s) = dev_depth s" by (simp add: test_fail(7))
  have one: "dev_depth (step tid s) i = Min (insert (d0 i) (settledKeys (threads (step tid s)) i))" for i
  proof (cases "rq_pixelIdx r = i")
    case True
    have "dev_depth s i = Min (insert (d0 i) (settledKeys (threads s) i))"
      using assms(2) by (simp add: depthInv_def)
    moreover have "dev_depth s i \<le> rq_newDepth r" using test_fail(6) True by simp
    ultimately show ?thesis
      unfolding d keys using True Min_with_key [OF finite_settledKeys, of "d0 i" "threads s" i "rq_newDepth r"]
      by simp
  next
    case False
    then show ?thesis unfolding d keys using assms(2) by (simp add: depthInv_def)
  qed
  have two: "rq_newDepth (requests (threads (step tid s) ! k) ! cur (threads (step tid s) ! k))
             < dev_depth (step tid s) (rq_pixelIdx (requests (threads (step tid s) ! k) ! cur (threads (step tid s) ! k)))"
    if "k < length (threads (step tid s))"
       "cur (threads (step tid s) ! k) < length (requests (threads (step tid s) ! k))"
       "loc (threads (step tid s) ! k) = AtWrite" for k
    using that assms(2) test_fail(1,2)
    by (auto simp add: depthInv_def test_fail(7) nth_list_update split: if_splits)
  show ?thesis unfolding depthInv_def using one two by blast
next
  case (store t r)
  have keys: "settledKeys (threads (step tid s)) i
          = settledKeys (threads s) i \<union> (if rq_pixelIdx r = i then {rq_newDepth r} else {})" for i
    using settledKeys_more [OF store(1), of "t\<lparr>loc := AtRelease\<rparr>" r i]
      settled_moves(4) [OF store(5,3)]
    by (simp add: store(6) store(2) store(4))
  have below: "rq_newDepth r < dev_depth s (rq_pixelIdx r)"
    using assms(2) store(1-5) by (auto simp add: depthInv_def)
  have one: "dev_depth (step tid s) i = Min (insert (d0 i) (settledKeys (threads (step tid s)) i))" for i
  proof (cases "rq_pixelIdx r = i")
    case True
    have "dev_depth s i = Min (insert (d0 i) (settledKeys (threads s) i))"
      using assms(2) by (simp add: depthInv_def)
    then show ?thesis
      unfolding keys using True below Min_with_key [OF finite_settledKeys, of "d0 i" "threads s" i "rq_newDepth r"]
      by (simp add: store(6))
  next
    case False
    then show ?thesis unfolding keys using assms(2) by (simp add: depthInv_def store(6))
  qed
  have held: "holding t = Some (rq_pixelIdx r)"
    using store(3,4,5) by (simp add: holding_def)
  have two: "rq_newDepth (requests (threads (step tid s) ! k) ! cur (threads (step tid s) ! k))
             < dev_depth (step tid s) (rq_pixelIdx (requests (threads (step tid s) ! k) ! cur (threads (step tid s) ! k)))"
    if k: "k < length (threads (step tid s))"
       "cur (threads (step tid s) ! k) < length (requests (threads (step tid s) ! k))"
       "loc (threads (step tid s) ! k) = AtWrite" for k
  proof -
    have ne: "k \<noteq> tid" using k(3) store(1) by (auto simp add: store(6))
    then have same: "threads (step tid s) ! k = threads s ! k" by (simp add: store(6))
    have kl: "k < length (threads s)" using k(1) by (simp add: store(6))
    define u where "u = threads s ! k"
    have u: "cur u < length (requests u)" "loc u = AtWrite"
      using k(2,3) unfolding same u_def by simp_all
    then have hu: "holding u = Some (rq_pixelIdx (requests u ! cur u))"
      by (simp add: holding_def)
    have "rq_pixelIdx (requests u ! cur u) \<noteq> rq_pixelIdx r"
    proof
      assume eq: "rq_pixelIdx (requests u ! cur u) = rq_pixelIdx r"
      have "k \<in> holders (threads s) (rq_pixelIdx r)"
        using kl hu eq by (simp add: holders_member u_def)
      moreover have "tid \<in> holders (threads s) (rq_pixelIdx r)"
        using store(1,2) held by (simp add: holders_member)
      ultimately have "k = tid" using assms(1) unfolding lockInv_def by blast
      then show False using ne by simp
    qed
    moreover have "rq_newDepth (requests u ! cur u) < dev_depth s (rq_pixelIdx (requests u ! cur u))"
      using assms(2) kl u unfolding depthInv_def u_def by blast
    ultimately show ?thesis unfolding same u_def [symmetric] by (simp add: store(6))
  qed
  show ?thesis unfolding depthInv_def using one two by blast
next
  case (release t r)
  have "settledKeys (threads (step tid s)) i = settledKeys (threads s) i" for i
    using settledKeys_same [OF release(1), of "t\<lparr>cur := cur t + 1, loc := AtCAS\<rparr>" i]
      settled_moves(5) [OF release(5,3)]
    by (simp add: release(6) release(2))
  then show ?thesis
    using assms(2) release(1,2,5)
    by (auto simp add: depthInv_def release(6) nth_list_update)
qed

lemma depthInv_exec:
  "lockInv s \<Longrightarrow> depthInv d0 s \<Longrightarrow> depthInv d0 (exec schedule s)"
  unfolding exec_def
  by (induction schedule arbitrary: s) (simp_all add: lockInv_step depthInv_step)

text \<open>
  Termination: a thread that no other thread obstructs gets closer to its end with
  every step.
\<close>

lemma step_frame:
  "length (threads (step tid s)) = length (threads s)"
  "j \<noteq> tid \<Longrightarrow> threads (step tid s) ! j = threads s ! j"
  "requests (threads (step tid s) ! j) = requests (threads s ! j)"
proof -
  show "length (threads (step tid s)) = length (threads s)"
    by (cases rule: step_cases [of tid s]) simp_all
  show "j \<noteq> tid \<Longrightarrow> threads (step tid s) ! j = threads s ! j"
    by (cases rule: step_cases [of tid s]) simp_all
  show "requests (threads (step tid s) ! j) = requests (threads s ! j)"
    by (cases rule: step_cases [of tid s]) (auto simp add: nth_list_update)
qed

lemma exec_frame:
  "length (threads (exec schedule s)) = length (threads s)"
  "requests (threads (exec schedule s) ! j) = requests (threads s ! j)"
  unfolding exec_def
  by (induction schedule arbitrary: s) (simp_all add: step_frame)

lemma finished_stepsLeft: "finished t \<longleftrightarrow> stepsLeft t = 0"
  by (cases "loc t") (auto simp add: finished_def stepsLeft_def)

lemma step_finished: "tid < length (threads s) \<Longrightarrow> finished (threads s ! tid) \<Longrightarrow> step tid s = s"
  by (simp add: step_def finished_def Let_def)

lemma solo_step:
  assumes "lockInv s"
      and "\<And>j. j < length (threads s) \<Longrightarrow> j \<noteq> tid \<Longrightarrow> holding (threads s ! j) = None"
      and "tid < length (threads s)" and "\<not> finished (threads s ! tid)"
  shows "stepsLeft (threads (step tid s) ! tid) < stepsLeft (threads s ! tid)"
proof (cases rule: step_cases [of tid s])
  case idle
  then show ?thesis using assms(3,4) by (simp add: finished_def)
next
  case (spin t r)
  have "holders (threads s) (rq_pixelIdx r) \<noteq> {}"
    using assms(1) spin(6) by (auto simp add: lockInv_def split: if_splits)
  then obtain k where k: "k < length (threads s)" "holding (threads s ! k) = Some (rq_pixelIdx r)"
    by (auto simp add: holders_member)
  have "holding (threads s ! tid) = None" using spin(2,5) by (simp add: holding_def)
  then have "k \<noteq> tid" using k(2) by auto
  then show ?thesis using assms(2) [OF k(1)] k(2) by simp
next
  case (acquire t r)
  then show ?thesis by (simp add: stepsLeft_def)
next
  case (test_pass t r)
  then show ?thesis by (simp add: stepsLeft_def)
next
  case (test_fail t r)
  then show ?thesis by (simp add: stepsLeft_def)
next
  case (store t r)
  then show ?thesis by (simp add: stepsLeft_def)
next
  case (release t r)
  then show ?thesis by (simp add: stepsLeft_def)
qed

text \<open>Hence the schedule that runs the threads one after the other finishes them all.\<close>

lemma exec_Suc: "exec (replicate (Suc n) tid) s = exec (replicate n tid) (step tid s)"
  by (simp add: exec_def)

lemma exec_append: "exec (xs @ ys) s = exec ys (exec xs s)"
  by (simp add: exec_def)

lemma solo_run:
  assumes "lockInv s"
      and "\<And>j. j < length (threads s) \<Longrightarrow> j \<noteq> tid \<Longrightarrow> holding (threads s ! j) = None"
      and "tid < length (threads s)" and "stepsLeft (threads s ! tid) \<le> n"
  shows "finished (threads (exec (replicate n tid) s) ! tid)
         \<and> (\<forall>j. j \<noteq> tid \<longrightarrow> threads (exec (replicate n tid) s) ! j = threads s ! j)"
  using assms
proof (induction n arbitrary: s)
  case 0
  then show ?case by (simp add: exec_def finished_stepsLeft)
next
  case (Suc n)
  show ?case
  proof (cases "finished (threads s ! tid)")
    case True
    then have same: "step tid s = s" using Suc.prems(3) by (simp add: step_finished)
    have "stepsLeft (threads s ! tid) \<le> n" using True by (simp add: finished_stepsLeft)
    then show ?thesis
      unfolding exec_Suc same using Suc.IH [of s] Suc.prems(1,2,3) by blast
  next
    case False
    have less: "stepsLeft (threads (step tid s) ! tid) \<le> n"
      using solo_step [OF Suc.prems(1) Suc.prems(2) Suc.prems(3) False] Suc.prems(4) by simp
    have inv: "lockInv (step tid s)" using Suc.prems(1) by (rule lockInv_step)
    have others: "holding (threads (step tid s) ! j) = None"
      if "j < length (threads (step tid s))" "j \<noteq> tid" for j
      using that Suc.prems(2) [of j] by (simp add: step_frame)
    have len: "tid < length (threads (step tid s))" using Suc.prems(3) by (simp add: step_frame)
    have "finished (threads (exec (replicate n tid) (step tid s)) ! tid)
          \<and> (\<forall>j. j \<noteq> tid \<longrightarrow> threads (exec (replicate n tid) (step tid s)) ! j
                                 = threads (step tid s) ! j)"
      using Suc.IH [OF inv others len less] by blast
    then show ?thesis unfolding exec_Suc by (simp add: step_frame)
  qed
qed

lemma holding_finished: "finished t \<Longrightarrow> holding t = None"
  by (simp add: finished_def holding_def)

lemma quiet_run:
  assumes "lockInv s" "quiet s" "tid < length (threads s)" "stepsLeft (threads s ! tid) \<le> n"
  shows "quiet (exec (replicate n tid) s)"
    and "finished (threads (exec (replicate n tid) s) ! tid)"
    and "\<And>j. j \<noteq> tid \<Longrightarrow> threads (exec (replicate n tid) s) ! j = threads s ! j"
proof -
  have run: "finished (threads (exec (replicate n tid) s) ! tid)
         \<and> (\<forall>j. j \<noteq> tid \<longrightarrow> threads (exec (replicate n tid) s) ! j = threads s ! j)"
    using assms(2) by (intro solo_run [OF assms(1) _ assms(3,4)]) (simp add: quiet_def)
  then show "finished (threads (exec (replicate n tid) s) ! tid)"
    and "\<And>j. j \<noteq> tid \<Longrightarrow> threads (exec (replicate n tid) s) ! j = threads s ! j"
    by blast+
  show "quiet (exec (replicate n tid) s)"
    unfolding quiet_def
  proof (intro allI impI)
    fix j assume "j < length (threads (exec (replicate n tid) s))"
    then have j: "j < length (threads s)" by (simp add: exec_frame)
    show "holding (threads (exec (replicate n tid) s) ! j) = None"
    proof (cases "j = tid")
      case True
      then show ?thesis using run by (simp add: holding_finished)
    next
      case False
      then show ?thesis using run assms(2) j by (simp add: quiet_def)
    qed
  qed
qed

lemma seq_run:
  assumes "lockInv s" "quiet s" "set tids \<subseteq> {..<length (threads s)}"
      and "\<And>tid. tid \<in> set tids \<Longrightarrow> stepsLeft (threads s ! tid) \<le> N tid"
      and "s' = exec (concat (map (\<lambda>tid. replicate (N tid) tid) tids)) s"
  shows "quiet s' \<and> lockInv s'
         \<and> (\<forall>j. finished (threads s ! j) \<or> j \<in> set tids \<longrightarrow> finished (threads s' ! j))"
  using assms
proof (induction tids arbitrary: s)
  case Nil
  then show ?case by (simp add: exec_def)
next
  case (Cons tid tids)
  define m where "m = exec (replicate (N tid) tid) s"
  have tid: "tid < length (threads s)" using Cons.prems(3) by simp
  have le: "stepsLeft (threads s ! tid) \<le> N tid" using Cons.prems(4) by simp
  note run = quiet_run [OF Cons.prems(1,2) tid le, folded m_def]
  have inv: "lockInv m" unfolding m_def using Cons.prems(1) by (rule lockInv_exec)
  have len: "length (threads m) = length (threads s)" by (simp add: m_def exec_frame)
  have fin: "finished (threads m ! j)" if "finished (threads s ! j) \<or> j = tid" for j
    using that run(2) run(3) [of j] by (cases "j = tid") auto
  have steps: "stepsLeft (threads m ! k) \<le> N k" if "k \<in> set tids" for k
  proof (cases "k = tid")
    case True
    then show ?thesis using run(2) by (simp add: finished_stepsLeft)
  next
    case False
    then show ?thesis using run(3) [of k] Cons.prems(4) [of k] that by simp
  qed
  have sub: "set tids \<subseteq> {..<length (threads m)}" using Cons.prems(3) len by simp
  have s': "s' = exec (concat (map (\<lambda>tid. replicate (N tid) tid) tids)) m"
    using Cons.prems(5) by (simp add: m_def exec_append)
  have "quiet s' \<and> lockInv s'
         \<and> (\<forall>j. finished (threads m ! j) \<or> j \<in> set tids \<longrightarrow> finished (threads s' ! j))"
    using Cons.IH [OF inv run(1) sub steps s'] by blast
  then show ?case using fin by auto
qed

lemma seqSchedule_finishes:
  assumes "lockInv s" "quiet s"
  shows "allFinished (exec (seqSchedule s) s)"
proof -
  have sub: "set [0..<length (threads s)] \<subseteq> {..<length (threads s)}" by auto
  have "\<forall>j. finished (threads s ! j) \<or> j \<in> set [0..<length (threads s)]
          \<longrightarrow> finished (threads (exec (seqSchedule s) s) ! j)"
    using seq_run [OF assms sub, of "\<lambda>tid. stepsLeft (threads s ! tid)" "exec (seqSchedule s) s"]
    unfolding seqSchedule_def by blast
  then have "\<forall>j < length (threads (exec (seqSchedule s) s)).
               finished (threads (exec (seqSchedule s) s) ! j)"
    by (simp add: exec_frame)
  then show ?thesis unfolding allFinished_def list_all_length by blast
qed

text \<open>The state the kernel is launched in, and the state all threads have left.\<close>

lemma launch_threads:
  "threads (computeFragments numPrims dev_primitives height width fragmentBuffer depth mutex)
     = map (\<lambda>pid. \<lparr>requests = fragmentRequests (dev_primitives ! pid) height width,
                     cur = 0, loc = AtCAS\<rparr>) [0..<numPrims]"
  by (simp add: computeFragments_def)

lemma launch_quiet:
  "quiet (computeFragments numPrims dev_primitives height width fragmentBuffer depth mutex)"
  by (simp add: quiet_def launch_threads holding_def)

lemma launch_lockInv:
  "lockInv (computeFragments numPrims dev_primitives height width fragmentBuffer depth clearedMutex)"
proof -
  have "holders (threads (computeFragments numPrims dev_primitives height width fragmentBuffer
                            depth clearedMutex)) i = {}" for i
    by (auto simp add: holders_def launch_threads holding_def)
  then show ?thesis by (simp add: lockInv_def computeFragments_def clearedMutex_def)
qed

lemma launch_depthInv:
  "depthInv depth (computeFragments numPrims dev_primitives height width fragmentBuffer depth mutex)"
proof -
  have "settledKeys (threads (computeFragments numPrims dev_primitives height width fragmentBuffer
                      depth mutex)) i = {}" for i
    by (auto simp add: settledKeys_def launch_threads settled_def keysAt_def)
  then show ?thesis by (auto simp add: depthInv_def launch_threads) (simp add: computeFragments_def)
qed

lemma quiet_mutex_clear:
  assumes "lockInv s" "quiet s"
  shows "dev_mutex s i = 0"
proof -
  have "holders (threads s) i = {}" using assms(2) by (auto simp add: holders_def quiet_def)
  then show ?thesis using assms(1) by (simp add: lockInv_def)
qed

lemma allFinished_quiet: "allFinished s \<Longrightarrow> quiet s"
  by (simp add: allFinished_def list_all_length quiet_def holding_finished)

lemma settled_finished: "finished t \<Longrightarrow> settled t = requests t"
  by (simp add: settled_def finished_def)

lemma settledKeys_finished:
  assumes "allFinished s"
  shows "settledKeys (threads s) i
           = rq_newDepth ` {r \<in> set (concat (map requests (threads s))). rq_pixelIdx r = i}"
proof -
  have "settled t = requests t" if "t \<in> set (threads s)" for t
    using assms that by (simp add: allFinished_def list_all_iff settled_finished)
  then have "settledKeys (threads s) i = (\<Union>t \<in> set (threads s). keysAt (requests t) i)"
    by (simp add: settledKeys_def)
  then show ?thesis by (auto simp add: keysAt_def)
qed

lemma exec_requests: "map requests (threads (exec schedule s)) = map requests (threads s)"
  by (rule nth_equalityI) (simp_all add: exec_frame)

text \<open>\<^verbatim>\<open>initDepth\<close> over the grid stores \<^verbatim>\<open>INT_MAX\<close> in every pixel of the buffer.\<close>

lemma initDepth_row:
  "fold (\<lambda>x depth. initDepth w h x y depth) xs depth j
     = (if \<exists>x \<in> set xs. x < w \<and> y < h \<and> j = int x + int y * int w then INT_MAX else depth j)"
  by (induction xs arbitrary: depth) (auto simp add: initDepth_def Let_def)

lemma initDepth_rows:
  "fold (\<lambda>y depth. fold (\<lambda>x depth. initDepth w h x y depth) xs depth) ys depth j
     = (if \<exists>y \<in> set ys. \<exists>x \<in> set xs. x < w \<and> y < h \<and> j = int x + int y * int w
        then INT_MAX else depth j)"
proof (induction ys arbitrary: depth)
  case Nil
  then show ?case by simp
next
  case (Cons y ys)
  show ?case unfolding fold_Cons comp_apply Cons.IH by (auto simp add: initDepth_row)
qed

lemma initDepthGrid_buffer:
  assumes "0 \<le> i" "i < int w * int h"
  shows "initDepthGrid w h depth i = INT_MAX"
proof -
  obtain n where n: "i = int n" using assms(1) by (metis nonneg_int_cases)
  have "int n < int (h * w)" using assms(2) n by (simp add: mult.commute)
  then have lt: "n < h * w" by (simp only: of_nat_less_iff)
  then have w: "0 < w" by (cases w) auto
  have x: "n mod w < w" using w by simp
  have y: "n div w < h" using lt by (rule less_mult_imp_div_less)
  have "n = n mod w + (n div w) * w" by simp
  then have "i = int (n mod w) + int (n div w) * int w"
    unfolding n by (metis of_nat_add of_nat_mult)
  then have "\<exists>y \<in> set [0..<h]. \<exists>x \<in> set [0..<w]. x < w \<and> y < h \<and> i = int x + int y * int w"
    using x y by (intro bexI [of _ "n div w"] bexI [of _ "n mod w"]) simp_all
  then show ?thesis
    unfolding initDepthGrid_def initDepth_rows by (simp only: if_True)
qed

lemma launch_requests:
  "map requests (threads (computeFragments numPrims dev_primitives height width fragmentBuffer
                            depth mutex))
     = map (\<lambda>pid. fragmentRequests (dev_primitives ! pid) height width) [0..<numPrims]"
  by (simp add: launch_threads comp_def)



























lemma nearTriangle_box:
  "triangleOf nearTriangle
     = [Vec3 0 0 (7 / 8589934592), Vec3 1 0 (7 / 8589934592), Vec3 0 1 (7 / 8589934592)]"
  "getAABBForTriangle
     [Vec3 0 0 (7 / 8589934592), Vec3 1 0 (7 / 8589934592), Vec3 0 1 (7 / 8589934592)] 2 2
     = \<lparr>aabb_min = Vec3 0 0 (7 / 8589934592), aabb_max = Vec3 1 1 (7 / 8589934592)\<rparr>"
  by (simp_all add: triangleOf_def nearTriangle_def nearVertex_def getAABBForTriangle_def)

lemma nearTriangle_pixels:
  "pixelRequest nearTriangle (triangleOf nearTriangle) 2 0 0
     = Some \<lparr>rq_pixelIdx = 0, rq_baryCoords = Vec3 1 0 0, rq_baryDepth = 7 / 8589934592,
             rq_newDepth = depthKey (7 / 8589934592), rq_fragment = computeFragment nearTriangle (Vec3 1 0 0)\<rparr>"
  "pixelRequest nearTriangle (triangleOf nearTriangle) 2 1 0
     = Some \<lparr>rq_pixelIdx = 1, rq_baryCoords = Vec3 0 1 0, rq_baryDepth = 7 / 8589934592,
             rq_newDepth = depthKey (7 / 8589934592), rq_fragment = computeFragment nearTriangle (Vec3 0 1 0)\<rparr>"
  "pixelRequest nearTriangle (triangleOf nearTriangle) 2 0 1
     = Some \<lparr>rq_pixelIdx = 2, rq_baryCoords = Vec3 0 0 1, rq_baryDepth = 7 / 8589934592,
             rq_newDepth = depthKey (7 / 8589934592), rq_fragment = computeFragment nearTriangle (Vec3 0 0 1)\<rparr>"
  "pixelRequest nearTriangle (triangleOf nearTriangle) 2 1 1 = None"
  unfolding nearTriangle_box
  by (simp_all add: pixelRequest_def calculateBarycentricCoordinate_def calculateSignedArea_def
        isBarycentricCoordInBounds_def getZAtCoordinate_def Let_def)

lemma nearTriangle_requests:
  "fragmentRequests nearTriangle 2 2
     = [\<lparr>rq_pixelIdx = 0, rq_baryCoords = Vec3 1 0 0, rq_baryDepth = 7 / 8589934592,
          rq_newDepth = depthKey (7 / 8589934592), rq_fragment = computeFragment nearTriangle (Vec3 1 0 0)\<rparr>,
        \<lparr>rq_pixelIdx = 1, rq_baryCoords = Vec3 0 1 0, rq_baryDepth = 7 / 8589934592,
          rq_newDepth = depthKey (7 / 8589934592), rq_fragment = computeFragment nearTriangle (Vec3 0 1 0)\<rparr>,
        \<lparr>rq_pixelIdx = 2, rq_baryCoords = Vec3 0 0 1, rq_baryDepth = 7 / 8589934592,
          rq_newDepth = depthKey (7 / 8589934592), rq_fragment = computeFragment nearTriangle (Vec3 0 0 1)\<rparr>]"
proof -
  have cols: "[0..1] = [0, 1::int]" by (simp add: upto.simps)
  have bb: "getAABBForTriangle (triangleOf nearTriangle) (real_of_int 2) (real_of_int 2)
              = \<lparr>aabb_min = Vec3 0 0 (7 / 8589934592), aabb_max = Vec3 1 1 (7 / 8589934592)\<rparr>"
    by (simp add: nearTriangle_box)
  show ?thesis
    unfolding fragmentRequests_def Let_def bb
    by (simp add: f2i_def cols nearTriangle_pixels)
qed

text \<open>Two threads on the same pixels: the second finds the first pixel taken.\<close>

lemma twoLaunch_threads:
  "threads twoLaunch
     = [\<lparr>requests = fragmentRequests nearTriangle 2 2, cur = 0, loc = AtCAS\<rparr>,
        \<lparr>requests = fragmentRequests nearTriangle 2 2, cur = 0, loc = AtCAS\<rparr>]"
  by (simp add: twoLaunch_def launch_threads upt_rec)

lemma twoLaunch_contention:
  "dev_mutex (exec [0, 1] twoLaunch) 0 = 1
   \<and> map loc (threads (exec [0, 1] twoLaunch)) = [AtDepthTest, AtCAS]
   \<and> map holding (threads (exec [0, 1] twoLaunch)) = [Some 0, None]"
proof -
  have m: "dev_mutex twoLaunch = clearedMutex" by (simp add: twoLaunch_def computeFragments_def)
  have one: "step 0 twoLaunch
               = twoLaunch\<lparr>dev_mutex := clearedMutex(0 := 1),
                   threads := [\<lparr>requests = fragmentRequests nearTriangle 2 2, cur = 0, loc = AtDepthTest\<rparr>,
                               \<lparr>requests = fragmentRequests nearTriangle 2 2, cur = 0, loc = AtCAS\<rparr>]\<rparr>"
    by (simp add: step_def twoLaunch_threads m Let_def atomicCAS_def clearedMutex_def)
       (simp add: nearTriangle_requests)
  have two: "step 1 (step 0 twoLaunch) = step 0 twoLaunch"
    unfolding one
    by (simp add: step_def Let_def atomicCAS_def clearedMutex_def)
       (simp add: nearTriangle_requests)
  have "exec [0, 1] twoLaunch = step 0 twoLaunch"
    unfolding exec_def by (simp only: fold_Cons fold_Nil comp_apply id_apply two)
  then show ?thesis
    by (simp add: one holding_def nearTriangle_requests clearedMutex_def)
qed

text \<open>
  C9. The kernel is launched with every mutex 0. Along every schedule a mutex is 1
  exactly while one thread is between its successful compare-and-swap on that pixel
  and its store of 0, whichever way the depth test went, and no second thread is;
  so when all threads have left the kernel every mutex is 0 again. The kernel can be
  left: the schedule that runs the threads one after the other finishes them all.
\<close>

theorem mutex_free_at_start_and_exit:
  assumes "s0 = computeFragments numPrims dev_primitives height width fragmentBuffer depth
                  clearedMutex"
      and "s = exec schedule s0"
      and "numPrims \<le> length dev_primitives"
  shows "dev_mutex s0 = clearedMutex
         \<and> lockInv s
         \<and> (allFinished s \<longrightarrow> dev_mutex s = clearedMutex)
         \<and> allFinished (exec (seqSchedule s0) s0)"
proof -
  have inv: "lockInv s" unfolding assms(2) assms(1) by (intro lockInv_exec launch_lockInv)
  have "dev_mutex s = clearedMutex" if "allFinished s"
    using quiet_mutex_clear [OF inv allFinished_quiet [OF that]] by (auto simp add: clearedMutex_def)
  moreover have "allFinished (exec (seqSchedule s0) s0)"
    unfolding assms(1) by (intro seqSchedule_finishes launch_lockInv launch_quiet)
  moreover have "dev_mutex s0 = clearedMutex" by (simp add: assms(1) computeFragments_def)
  ultimately show ?thesis using inv by blast
qed

theorem mutex_free_at_start_and_exit_witness:
  "dev_mutex twoLaunch = clearedMutex
   \<and> dev_mutex (exec [0, 1] twoLaunch) 0 = 1
   \<and> map holding (threads (exec [0, 1] twoLaunch)) = [Some 0, None]
   \<and> lockInv (exec [0, 1] twoLaunch)
   \<and> allFinished (exec (seqSchedule twoLaunch) twoLaunch)
   \<and> dev_mutex (exec (seqSchedule twoLaunch) twoLaunch) = clearedMutex"
proof -
  have two: "2 \<le> length [nearTriangle, nearTriangle]" by simp
  have a: "dev_mutex twoLaunch = clearedMutex \<and> lockInv (exec [0, 1] twoLaunch)
           \<and> allFinished (exec (seqSchedule twoLaunch) twoLaunch)"
    using mutex_free_at_start_and_exit [OF twoLaunch_def refl two, of "[0, 1]"] by blast
  have b: "allFinished (exec (seqSchedule twoLaunch) twoLaunch)
             \<longrightarrow> dev_mutex (exec (seqSchedule twoLaunch) twoLaunch) = clearedMutex"
    using mutex_free_at_start_and_exit [OF twoLaunch_def refl two, of "seqSchedule twoLaunch"]
    by blast
  show ?thesis using a b twoLaunch_contention by blast
qed

text \<open>
  The threads touch no index outside the buffers: every request of a primitive is
  for a pixel of the viewport.
\<close>

lemma fragmentRequests_in_buffer:
  assumes "r \<in> set (fragmentRequests p height width)" "0 < width"
  shows "0 \<le> rq_pixelIdx r \<and> rq_pixelIdx r < width * height"
proof -
  define bb where
    "bb = getAABBForTriangle (triangleOf p) (real_of_int width) (real_of_int height)"
  obtain row col where rc:
    "f2i (y3 (aabb_min bb)) \<le> row" "row \<le> \<lfloor>y3 (aabb_max bb)\<rfloor>"
    "f2i (x3 (aabb_min bb)) \<le> col" "col \<le> \<lfloor>x3 (aabb_max bb)\<rfloor>"
    "pixelRequest p (triangleOf p) width col row = Some r"
    using assms(1) unfolding fragmentRequests_iff bb_def by blast
  have "0 \<le> y3 (aabb_min bb)" "0 \<le> x3 (aabb_min bb)"
    by (simp_all add: bb_def getAABBForTriangle_def)
  then have "0 \<le> f2i (y3 (aabb_min bb))" "0 \<le> f2i (x3 (aabb_min bb))"
    by (simp_all add: f2i_def)
  then have lo: "0 \<le> row" "0 \<le> col" using rc(1,3) by linarith+
  have "y3 (aabb_max bb) \<le> real_of_int height - 1" "x3 (aabb_max bb) \<le> real_of_int width - 1"
    by (simp_all add: bb_def getAABBForTriangle_def)
  then have "\<lfloor>y3 (aabb_max bb)\<rfloor> \<le> height - 1" "\<lfloor>x3 (aabb_max bb)\<rfloor> \<le> width - 1"
    by linarith+
  then have hi: "row \<le> height - 1" "col \<le> width - 1" using rc(2,4) by simp_all
  have idx: "rq_pixelIdx r = col + row * width" using rc(5) by (rule pixelRequest_fragment)
  have "0 \<le> row * width" using lo(1) assms(2) by simp
  moreover have "row * width \<le> (height - 1) * width"
    using hi(1) assms(2) by (simp add: mult_right_mono)
  ultimately show ?thesis using lo(2) hi(2) unfolding idx by (simp add: algebra_simps)
qed

subsection \<open>Rasterizer: the fragment buffer\<close>

text \<open>
  Along every schedule the fragment of a pixel is the cleared one, with the cleared
  depth, or the fragment of a request for that pixel, with the key of that request:
  the two stores of the critical section are not separated.
\<close>

lemma step_requests: "map requests (threads (step tid s)) = map requests (threads s)"
  by (rule nth_equalityI) (simp_all add: step_frame)

lemma pairInv_step:
  assumes "pairInv d0 f0 s"
  shows "pairInv d0 f0 (step tid s)"
proof (cases rule: step_cases [of tid s])
  case idle
  then show ?thesis using assms by simp
next
  case (spin t r)
  then show ?thesis using assms by simp
next
  case (acquire t r)
  have "pairInv d0 f0 (step tid s) = pairInv d0 f0 s"
    unfolding pairInv_def step_requests by (simp add: acquire(7))
  then show ?thesis using assms by simp
next
  case (test_pass t r)
  have "pairInv d0 f0 (step tid s) = pairInv d0 f0 s"
    unfolding pairInv_def step_requests by (simp add: test_pass(7))
  then show ?thesis using assms by simp
next
  case (test_fail t r)
  have "pairInv d0 f0 (step tid s) = pairInv d0 f0 s"
    unfolding pairInv_def step_requests by (simp add: test_fail(7))
  then show ?thesis using assms by simp
next
  case (store t r)
  have "requests t \<in> set (map requests (threads s))"
    using store(1,2) by (simp add: image_iff) (metis nth_mem)
  moreover have "r \<in> set (requests t)" using store(3,4) by simp
  ultimately have mem: "r \<in> set (concat (map requests (threads s)))"
    unfolding set_concat by blast
  show ?thesis
    unfolding pairInv_def step_requests
  proof
    fix i
    show "(dev_depth (step tid s) i = d0 i \<and> dev_fragmentBuffer (step tid s) i = f0 i)
        \<or> (\<exists>r \<in> set (concat (map requests (threads s))).
             rq_pixelIdx r = i \<and> dev_depth (step tid s) i = rq_newDepth r
             \<and> dev_fragmentBuffer (step tid s) i = rq_fragment r)"
    proof (cases "i = rq_pixelIdx r")
      case True
      then show ?thesis using mem by (auto simp add: store(6))
    next
      case False
      then show ?thesis using assms by (simp add: store(6) pairInv_def)
    qed
  qed
next
  case (release t r)
  have "pairInv d0 f0 (step tid s) = pairInv d0 f0 s"
    unfolding pairInv_def step_requests by (simp add: release(6))
  then show ?thesis using assms by simp
qed

lemma pairInv_exec: "pairInv d0 f0 s \<Longrightarrow> pairInv d0 f0 (exec schedule s)"
  unfolding exec_def by (induction schedule arbitrary: s) (simp_all add: pairInv_step)

lemma launch_pairInv:
  "pairInv depth fragmentBuffer
     (computeFragments numPrims dev_primitives height width fragmentBuffer depth mutex)"
  by (simp add: pairInv_def computeFragments_def)


text \<open>
  The launch over the triangle through the eye of C10: once the kernel is finished,
  whatever the schedule, pixel 1 holds the fragment of the middle of its first edge.
\<close>

lemma originTriangle_at_1:
  assumes "r \<in> set (fragmentRequests originTriangle 8 8)" "rq_pixelIdx r = 1"
  shows "rq_baryCoords r = Vec3 (1/2) (1/2) 0"
    and "rq_fragment r = computeFragment originTriangle (Vec3 (1/2) (1/2) 0)"
proof -
  obtain row col where rc: "0 \<le> row" "row \<le> 2" "0 \<le> col" "col \<le> 2"
    "pixelRequest originTriangle (triangleOf originTriangle) 8 col row = Some r"
    using assms(1) unfolding fragmentRequests_iff by (auto simp add: originTriangle_box f2i_def)
  have "rq_pixelIdx r = col + row * 8" using rc(5) by (rule pixelRequest_fragment)
  then have "col = 1 \<and> row = 0" using assms(2) rc(1-4) by presburger
  then have "pixelRequest originTriangle (triangleOf originTriangle) 8 1 0 = Some r"
    using rc(5) by simp
  then show b: "rq_baryCoords r = Vec3 (1/2) (1/2) 0"
    using originTriangle_pixels(2) by auto
  show "rq_fragment r = computeFragment originTriangle (Vec3 (1/2) (1/2) 0)"
    using pixelRequest_fragment(1) [OF rc(5)] b by simp
qed

lemma originTriangle_key_1:
  assumes "r \<in> set (fragmentRequests originTriangle 8 8)" "rq_pixelIdx r = 1"
  shows "rq_newDepth r < INT_MAX"
proof -
  obtain row col where rc:
    "pixelRequest originTriangle (triangleOf originTriangle) 8 col row = Some r"
    using assms(1) unfolding fragmentRequests_iff by blast
  have "rq_baryDepth r = getZAtCoordinate (rq_baryCoords r) (triangleOf originTriangle)"
    using rc by (rule pixelRequest_fragment)
  then have z: "rq_baryDepth r = 1/2"
    unfolding originTriangle_at_1(1) [OF assms]
    by (simp add: originTriangle_box getZAtCoordinate_def)
  have "rq_newDepth r = depthKey (rq_baryDepth r)"
    using rc by (rule pixelRequest_fragment)
  also have "\<dots> = truncKey (1/2)" unfolding z by (rule depthKey_in_range) simp
  finally show ?thesis by (simp add: truncKey_values INT_MAX_def)
qed

lemma originLaunch_int:
  "originLaunch = computeFragments 1 [originTriangle] (int 8) (int 8) (\<lambda>i. clearedFragment)
                    (initDepthGrid 8 8 (\<lambda>i. 0)) clearedMutex"
  by (simp add: originLaunch_def)

lemma originLaunch_requests:
  "concat (map requests (threads (exec schedule originLaunch))) = fragmentRequests originTriangle 8 8"
  unfolding exec_requests originLaunch_def launch_requests by simp

lemma originLaunch_finished: "allFinished (exec (seqSchedule originLaunch) originLaunch)"
  unfolding originLaunch_def by (intro seqSchedule_finishes launch_lockInv launch_quiet)

lemma originLaunch_buffer:
  assumes "allFinished (exec schedule originLaunch)"
  shows "dev_fragmentBuffer (exec schedule originLaunch) 1
           = computeFragment originTriangle (Vec3 (1/2) (1/2) 0)"
proof -
  define s where "s = exec schedule originLaunch"
  have fin: "allFinished s" using assms by (simp add: s_def)
  have reqs: "concat (map requests (threads s)) = fragmentRequests originTriangle 8 8"
    unfolding s_def by (rule originLaunch_requests)
  obtain r0 where r0: "pixelRequest originTriangle (triangleOf originTriangle) 8 1 0 = Some r0"
    and i0: "rq_pixelIdx r0 = 1"
    using originTriangle_pixels(2) by auto
  have m0: "r0 \<in> set (fragmentRequests originTriangle 8 8)"
    unfolding fragmentRequests_iff using r0
    by (intro exI [of _ 0] exI [of _ 1]) (simp add: originTriangle_box f2i_def)
  have "depthInv (initDepthGrid 8 8 (\<lambda>i. 0)) s"
    unfolding s_def originLaunch_def by (intro depthInv_exec launch_lockInv launch_depthInv)
  then have "dev_depth s 1
               = Min (insert (initDepthGrid 8 8 (\<lambda>i. 0) 1) (settledKeys (threads s) 1))"
    by (simp add: depthInv_def)
  moreover have "rq_newDepth r0 \<in> settledKeys (threads s) 1"
    unfolding settledKeys_finished [OF fin] reqs using m0 i0 by blast
  ultimately have "dev_depth s 1 \<le> rq_newDepth r0"
    by (simp add: finite_settledKeys Min_le)
  then have lt: "dev_depth s 1 < INT_MAX"
    using originTriangle_key_1 [OF m0 i0] by simp
  have init: "initDepthGrid 8 8 (\<lambda>i. 0) 1 = INT_MAX"
    by (rule initDepthGrid_buffer) simp_all
  have "pairInv (initDepthGrid 8 8 (\<lambda>i. 0)) (\<lambda>i. clearedFragment) s"
    unfolding s_def originLaunch_def by (intro pairInv_exec launch_pairInv)
  then obtain r where "r \<in> set (fragmentRequests originTriangle 8 8)" "rq_pixelIdx r = 1"
    "dev_fragmentBuffer s 1 = rq_fragment r"
    unfolding pairInv_def reqs using lt init by (metis less_irrefl)
  then show ?thesis
    unfolding s_def using originTriangle_at_1(2) by simp
qed

text \<open>
  The triangle through the eye: at pixel \<open>(1, 0)\<close>, the middle of its first edge, the
  coordinates are \<open>(1/2, 1/2, 0)\<close>, the combination of the eye positions is zero and
  the fragment handed over has no finite \<open>eyePos\<close>, let alone one of unit length. Its
  key is below \<^verbatim>\<open>INT_MAX\<close>, so it is the fragment the finished kernel leaves in pixel 1
  of the fragment buffer.
\<close>

theorem eyePos_of_origin_not_unit:
  "map_option (\<lambda>r. (rq_pixelIdx r, rq_baryCoords r, f_eyePos (rq_fragment r)))
     (pixelRequest originTriangle (triangleOf originTriangle) 8 1 0)
     = Some (1, Vec3 (1/2) (1/2) 0, None)
   \<and> affine3 (Vec3 (1/2) (1/2) 0) (Vec3 (-1) 0 0) (Vec3 1 0 0) (Vec3 0 1 0) = zero3
   \<and> allFinished (exec (seqSchedule originLaunch) originLaunch)
   \<and> f_eyePos (dev_fragmentBuffer (exec (seqSchedule originLaunch) originLaunch) 1) = None"
proof -
  obtain r where r: "pixelRequest originTriangle (triangleOf originTriangle) 8 1 0 = Some r"
    and i: "rq_pixelIdx r = 1" and b: "rq_baryCoords r = Vec3 (1/2) (1/2) 0"
    using originTriangle_pixels(2) by auto
  have n: "f_eyePos (computeFragment originTriangle (Vec3 (1/2) (1/2) 0)) = None"
    by (simp add: computeFragment_def Let_def originTriangle_def originVertex_def normalize_def
          dot3_def add3_def scale3_def)
  have "rq_fragment r = computeFragment originTriangle (Vec3 (1/2) (1/2) 0)"
    using pixelRequest_fragment(1) [OF r] b by simp
  then have "f_eyePos (rq_fragment r) = None" using n by simp
  moreover have "f_eyePos (dev_fragmentBuffer (exec (seqSchedule originLaunch) originLaunch) 1) = None"
    using originLaunch_buffer [OF originLaunch_finished] n by simp
  ultimately show ?thesis
    using r i b originLaunch_finished by (simp add: affine3_def add3_def scale3_def zero3_def)
qed

subsection \<open>Scene upload\<close>

text \<open>A group without indices ends the loop over its mesh, whatever follows it.\<close>

lemma uploadPrimitives_return:
  assumes "prim_indices g = []"
  shows "uploadPrimitives build key (before @ g # after) st
           = (case uploadPrimitives build key before st of
                Next st' \<Rightarrow> Returned st' | Returned st' \<Rightarrow> Returned st' | Thrown \<Rightarrow> Thrown)"
  using assms by (induction before arbitrary: st) (simp_all add: Let_def)

text \<open>
  C8. A scene whose only mesh has a group without indices followed by a valid
  group: the upload returns at the first group, with the vector of the mesh empty,
  no primitive counted and \<^verbatim>\<open>dev_primitives\<close> not allocated; the valid group is not
  uploaded. Without the first group the same valid group is uploaded.
\<close>

theorem upload_stops_at_group_without_indices:
  "rasterizeSetBuffers build (sceneOf [groupWithoutIndices, validGroup])
       [(''node'', identity4)] emptyUpload
     = Some \<lparr>mesh2PrimitivesMap = [''mesh'' \<mapsto> []], totalNumPrimitives = 0,
             primitivesAllocated = False\<rparr>
   \<and> rasterizeSetBuffers build (sceneOf [validGroup]) [(''node'', identity4)] emptyUpload
     = Some \<lparr>mesh2PrimitivesMap = [''mesh'' \<mapsto> [build identity4 validGroup]],
             totalNumPrimitives = numPrimitives (build identity4 validGroup),
             primitivesAllocated = True\<rparr>"
  by (simp add: rasterizeSetBuffers_def sceneOf_def emptyUpload_def groupWithoutIndices_def
        validGroup_def Let_def)

end
